(* ===== verification/MapPrelude.thy ===== *)
theory MapPrelude
  imports Main "HOL-Library.Word"
begin

text \<open>
  Shared vocabulary of the development: the machine integers of the ESP32 target
  (8-, 16- and 32-bit unsigned words; \<open>size_t\<close> and \<open>unsigned long\<close> are 32 bits wide there),
  byte strings and C strings, little-endian byte sequences, and the word, list and
  number lemmas that several components use.  The two theorem collections
  \<open>word_to_nat\<close> (moves word expressions to \<^typ>\<open>nat\<close>) and \<open>byte_simps\<close>
  (lists of bytes) are filled here and extended by the component theories.
\<close>

unbundle bit_operations_syntax

named_theorems word_to_nat "rules that rewrite unat of a word expression to nat arithmetic"
named_theorems byte_simps "simplification rules for byte lists and C strings"

section \<open>Machine types\<close>

type_synonym u8 = "8 word"
type_synonym u16 = "16 word"
type_synonym u32 = "32 word"
type_synonym bytes = "u8 list"

text \<open>A string literal of the source, as the bytes between its quotes.\<close>

definition str :: "string \<Rightarrow> bytes" where
  "str s = map of_char s"

lemma str_Nil [simp, byte_simps]: "str [] = []"
  by (simp add: str_def)

lemma str_Cons [byte_simps]: "str (c # cs) = of_char c # str cs"
  by (simp add: str_def)

lemma length_str [simp, byte_simps]: "length (str s) = length s"
  by (simp add: str_def)

section \<open>C strings\<close>

text \<open>
  \<open>c_str mem\<close> is the string that starts at the first byte of \<open>mem\<close>: everything before
  the first NUL.  \<open>c_terminated mem\<close> says that there is a NUL inside \<open>mem\<close>, that is,
  that \<open>strlen\<close> stays inside the buffer.
\<close>

definition c_str :: "bytes \<Rightarrow> bytes" where
  "c_str mem = takeWhile (\<lambda>c. c \<noteq> 0) mem"

definition c_terminated :: "bytes \<Rightarrow> bool" where
  "c_terminated mem = list_ex (\<lambda>c. c = 0) mem"

lemma c_str_Nil [simp]: "c_str [] = []"
  by (simp add: c_str_def)

lemma c_str_no_nul [simp]: "0 \<notin> set (c_str mem)"
  by (auto simp: c_str_def dest: set_takeWhileD)

lemma c_str_terminated_append [byte_simps]:
  "0 \<notin> set s \<Longrightarrow> c_str (s @ 0 # rest) = s"
  unfolding c_str_def by (induction s) auto

lemma c_str_ident [byte_simps]: "0 \<notin> set s \<Longrightarrow> c_str s = s"
  unfolding c_str_def by (induction s) auto

lemma length_c_str_le: "length (c_str mem) \<le> length mem"
  by (simp add: c_str_def length_takeWhile_le)

lemma length_c_str_less: "c_terminated mem \<Longrightarrow> length (c_str mem) < length mem"
  unfolding c_str_def c_terminated_def by (induction mem) auto

lemma c_terminated_append [simp]: "c_terminated (s @ 0 # rest)"
  by (simp add: c_terminated_def list_ex_iff)

section \<open>Words as natural numbers\<close>

lemma unat_u8_less [simp]: "unat (x :: u8) < 256"
  using unsigned_less [where 'a = nat, of x] by simp

lemma unat_u8_le [simp]: "unat (x :: u8) \<le> 255"
  using unat_u8_less [of x] by linarith

lemma unat_drop_bit_div [word_to_nat]: "unat (drop_bit n w) = unat w div 2 ^ n"
  unfolding unat_drop_bit_eq by (rule drop_bit_eq_div)

lemma unat_take_bit_mod [word_to_nat]: "unat (take_bit n w) = unat w mod 2 ^ n"
  for w :: "'a::len word"
  by (simp only: unsigned_take_bit_eq) (simp only: take_bit_eq_mod)

lemma unat_push_bit_mod: "unat (push_bit n w) = (unat w * 2 ^ n) mod 2 ^ LENGTH('a)"
  for w :: "'a::len word"
  by (simp only: unsigned_push_bit_eq) (simp only: take_bit_eq_mod push_bit_eq_mult)

lemma unat_ucast_mod: "unat (ucast w :: 'b::len word) = unat w mod 2 ^ LENGTH('b)"
  for w :: "'a::len word"
  by (simp only: unsigned_ucast_eq) (simp only: take_bit_eq_mod)

lemma unat_ucast_u8_u32 [simp, word_to_nat]: "unat (ucast (x :: u8) :: u32) = unat x"
  by (simp add: unat_ucast_mod mod_less less_trans [OF unat_u8_less])

lemma unat_ucast_u8_u16 [simp, word_to_nat]: "unat (ucast (x :: u8) :: u16) = unat x"
  by (simp add: unat_ucast_mod mod_less less_trans [OF unat_u8_less])

lemma unat_and_mask_mod [word_to_nat]: "unat (w AND mask n) = unat w mod 2 ^ n"
  for w :: "'a::len word"
  by (simp add: take_bit_eq_mask [symmetric] unat_take_bit_mod)

text \<open>An OR of a value below \<open>2 ^ n\<close> with a value shifted left by \<open>n\<close> is a sum.\<close>

lemma unat_or_push:
  fixes q x :: "'a::len word"
  assumes q: "unat q < 2 ^ n" and x: "unat x * 2 ^ n < 2 ^ LENGTH('a)"
  shows "unat (q OR push_bit n x) = unat q + 2 ^ n * unat x"
proof -
  have push: "unat (push_bit n x) = push_bit n (unat x)"
    unfolding unat_push_bit_mod push_bit_eq_mult [of n "unat x"] by (rule mod_less [OF x])
  have "unat (q OR push_bit n x) = unat q OR push_bit n (unat x)"
    by (simp add: unsigned_or_eq push)
  also have "\<dots> = unat q + push_bit n (unat x)"
  proof (rule disjunctive_add [symmetric])
    fix m
    have "take_bit n (unat q) = unat q"
      using q by (simp add: take_bit_nat_eq_self)
    then show "\<not> bit (unat q) m \<or> \<not> bit (push_bit n (unat x)) m"
      by (metis bit_push_bit_iff bit_take_bit_iff not_less)
  qed
  finally show ?thesis
    by (simp add: push_bit_eq_mult mult.commute)
qed

section \<open>Little-endian byte sequences\<close>

text \<open>\<open>le_bytes k v\<close>: the \<open>k\<close> low bytes of \<open>v\<close>, least significant first.\<close>

fun le_bytes :: "nat \<Rightarrow> nat \<Rightarrow> bytes" where
  "le_bytes 0 v = []"
| "le_bytes (Suc k) v = of_nat (v mod 256) # le_bytes k (v div 256)"

lemma length_le_bytes [simp]: "length (le_bytes k v) = k"
  by (induction k arbitrary: v) auto

lemma le_bytes_add: "le_bytes (j + m) v = le_bytes j v @ le_bytes m (v div 256 ^ j)"
  by (induction j arbitrary: v) (simp_all add: div_mult2_eq)

lemma le_bytes_mod: "le_bytes k (v mod 256 ^ k) = le_bytes k v"
proof (induction k arbitrary: v)
  case (Suc k)
  have "v mod (256 * 256 ^ k) mod 256 = v mod 256"
    by (simp add: mod_mult2_eq)
  moreover have "v mod (256 * 256 ^ k) div 256 = v div 256 mod 256 ^ k"
    by (simp add: mod_mult2_eq)
  ultimately show ?case
    using Suc.IH [of "v div 256"] by simp
qed simp

lemma le_bytes_snoc:
  assumes "v < 256 ^ k"
  shows "le_bytes (Suc k) (v + 256 ^ k * unat x) = le_bytes k v @ [x]"
proof -
  have "le_bytes (k + 1) (v + 256 ^ k * unat x) =
      le_bytes k (v + 256 ^ k * unat x) @ le_bytes 1 (unat x)"
    using assms by (simp only: le_bytes_add) simp
  moreover have "le_bytes k (v + 256 ^ k * unat x) = le_bytes k v"
    using le_bytes_mod [of k "v + 256 ^ k * unat x"] le_bytes_mod [of k v] by simp
  ultimately show ?thesis
    by (simp del: le_bytes.simps add: Suc_eq_plus1 [symmetric]) simp
qed

end
