(* ===== verification/Wdp.thy ===== *)
theory Wdp
  imports MapPrelude
begin

text \<open>
  Wireless datagrams over mesh messages, the code the proxy (\<^verbatim>\<open>src/mode_proxy.h\<close>) and the
  access point (\<^verbatim>\<open>src/mode_ap.h\<close>) share by copy: the user data header, fragmentation, and
  reassembly in a table of slots.  The two copies differ in the capacity of a slot and in
  what they reset when they open one; that difference is the parameter \<open>slot\<close> of
  \<open>concat_step\<close>, and the locale \<open>reassembler\<close> states what both promise.
\<close>

section \<open>Tables of slots\<close>

definition first_index :: "('a \<Rightarrow> bool) \<Rightarrow> 'a list \<Rightarrow> nat option" where
  "first_index P xs =
     (let n = length (takeWhile (\<lambda>x. \<not> P x) xs) in if n < length xs then Some n else None)"

lemma first_index_SomeD:
  "first_index P xs = Some i \<Longrightarrow> i < length xs \<and> P (xs ! i) \<and> (\<forall>j < i. \<not> P (xs ! j))"
  unfolding first_index_def Let_def
  by (auto split: if_splits dest: nth_length_takeWhile)
    (metis (mono_tags, lifting) nth_mem set_takeWhileD takeWhile_nth)

lemma first_index_None: "first_index P xs = None \<longleftrightarrow> (\<forall>x \<in> set xs. \<not> P x)"
proof -
  have "length (takeWhile (\<lambda>x. \<not> P x) xs) < length xs \<longleftrightarrow> (\<exists>x \<in> set xs. P x)"
    by (induction xs) auto
  then show ?thesis by (auto simp: first_index_def Let_def)
qed

lemma first_index_ex: "x \<in> set xs \<Longrightarrow> P x \<Longrightarrow> \<exists>i. first_index P xs = Some i"
  using first_index_None [of P xs] by auto

lemma nth_upd: "j < length xs \<Longrightarrow> xs[i := x] ! j = (if i = j then x else xs ! j)"
  by (cases "i < length xs") (auto simp: nth_list_update)

lemma first_index_upd:
  assumes "first_index P xs = None" "i < length xs" "P x"
  shows "first_index P (xs[i := x]) = Some i"
proof -
  have none: "\<not> P (xs ! j)" if "j < length xs" for j
    using assms(1) that by (auto simp: first_index_None)
  have "x \<in> set (xs[i := x])" using assms(2) by (rule set_update_memI)
  then obtain j where j: "first_index P (xs[i := x]) = Some j"
    using first_index_ex [of x "xs[i := x]" P] assms(3) by auto
  then have "j < length xs" "P (xs[i := x] ! j)" by (auto dest: first_index_SomeD)
  then have "i = j" using none by (auto simp: nth_upd split: if_splits)
  with j show ?thesis by simp
qed

lemma first_index_map: "first_index P xs = first_index id (map P xs)"
  by (simp add: first_index_def takeWhile_map comp_def)

lemma first_index_same:
  assumes "P x \<longleftrightarrow> P (xs ! i)"
  shows "first_index P (xs[i := x]) = first_index P xs"
proof -
  have "map P (xs[i := x]) = map P xs"
    using assms by (simp add: map_update list_update_same_conv) (metis length_map list_update_beyond list_update_same_conv not_le nth_map)
  then show ?thesis by (metis first_index_map)
qed

lemma first_index_replicate:
  "first_index P (replicate n x) = (if n \<noteq> 0 \<and> P x then Some 0 else None)"
  by (induction n) (auto simp: first_index_def Let_def split: if_splits)

text \<open>A table in which no two active slots have the same key.\<close>

definition unique_keys :: "('s \<Rightarrow> bool) \<Rightarrow> ('s \<Rightarrow> 'k) \<Rightarrow> 's list \<Rightarrow> bool" where
  "unique_keys act key xs \<longleftrightarrow>
     (\<forall>i < length xs. \<forall>j < length xs.
        act (xs ! i) \<longrightarrow> act (xs ! j) \<longrightarrow> key (xs ! i) = key (xs ! j) \<longrightarrow> i = j)"

definition find_slot :: "('s \<Rightarrow> bool) \<Rightarrow> ('s \<Rightarrow> 'k) \<Rightarrow> 'k \<Rightarrow> 's list \<Rightarrow> nat option" where
  "find_slot act key k xs = first_index (\<lambda>s. act s \<and> key s = k) xs"

text \<open>The interface of the fixed-size tables: a test for active slots, their key, and the
  operation that frees one.\<close>

locale slot_table =
  fixes act :: "'s \<Rightarrow> bool" and key :: "'s \<Rightarrow> 'k" and clear :: "'s \<Rightarrow> 's"
  assumes clear_inactive: "\<not> act (clear s)"
begin

lemma find_unique:
  assumes "unique_keys act key xs" "i < length xs" "act (xs ! i)" "key (xs ! i) = k"
  shows "find_slot act key k xs = Some i"
proof -
  obtain j where j: "find_slot act key k xs = Some j"
    using first_index_ex [of "xs ! i" xs "\<lambda>s. act s \<and> key s = k"] assms(2-4)
    by (auto simp: find_slot_def)
  then have "j < length xs" "act (xs ! j)" "key (xs ! j) = k"
    by (auto simp: find_slot_def dest: first_index_SomeD)
  then have "i = j" using assms by (auto simp: unique_keys_def)
  with j show ?thesis by simp
qed

lemma unique_claim:
  assumes "unique_keys act key xs" "find_slot act key (key s) xs = None \<or> find_slot act key (key s) xs = Some i"
  shows "unique_keys act key (xs[i := s])"
proof -
  have "\<not> (act (xs ! j) \<and> key (xs ! j) = key s)" if "j < length xs" "j \<noteq> i" for j
  proof
    assume "act (xs ! j) \<and> key (xs ! j) = key s"
    then have "find_slot act key (key s) xs = Some j"
      using find_unique [OF assms(1) that(1)] by simp
    with assms(2) that(2) show False by simp
  qed
  with assms(1) show ?thesis
    by (auto simp: unique_keys_def nth_upd split: if_splits) metis
qed

lemma unique_clear: "unique_keys act key xs \<Longrightarrow> unique_keys act key (xs[i := clear (xs ! i)])"
  using clear_inactive by (auto simp: unique_keys_def nth_upd split: if_splits)

lemma unique_inactive: "\<not> act s \<Longrightarrow> unique_keys act key xs \<Longrightarrow> unique_keys act key (xs[i := s])"
  by (auto simp: unique_keys_def nth_upd split: if_splits)

lemma unique_same:
  "unique_keys act key xs \<Longrightarrow> act s = act (xs ! i) \<Longrightarrow> key s = key (xs ! i) \<Longrightarrow> unique_keys act key (xs[i := s])"
  by (auto simp: unique_keys_def nth_upd split: if_splits)

lemma unique_pointwise:
  assumes "unique_keys act key xs" "length ys = length xs"
    "\<And>i. i < length xs \<Longrightarrow> ys ! i = xs ! i \<or> \<not> act (ys ! i)"
  shows "unique_keys act key ys"
  using assms unfolding unique_keys_def by metis

lemma unique_none_active: "(\<And>s. s \<in> set xs \<Longrightarrow> \<not> act s) \<Longrightarrow> unique_keys act key xs"
  by (auto simp: unique_keys_def)

end

section \<open>User data headers\<close>

definition MESHCORE_MAX_BINARY_PAYLOAD :: nat where "MESHCORE_MAX_BINARY_PAYLOAD = 120"

record UDH =
  udh_headerLen :: u8
  udh_ei :: u8
  udh_eiLength :: u8
  udh_source :: u16
  udh_dest :: u16

text \<open>\<open>(hi << 8) | lo\<close>\<close>

definition be16 :: "u8 \<Rightarrow> u8 \<Rightarrow> u16" where
  "be16 hi lo = push_bit 8 (ucast hi) OR ucast lo"

definition hi8 :: "u16 \<Rightarrow> u8" where "hi8 p = ucast (drop_bit 8 p AND 0xFF)"

definition lo8 :: "u16 \<Rightarrow> u8" where "lo8 p = ucast (p AND 0xFF)"

definition parseUDH :: "bytes \<Rightarrow> UDH option" where
  "parseUDH data =
     (if length data < 7 then None
      else Some \<lparr>udh_headerLen = data ! 0, udh_ei = data ! 1, udh_eiLength = data ! 2,
                 udh_source = be16 (data ! 5) (data ! 6), udh_dest = be16 (data ! 3) (data ! 4)\<rparr>)"

text \<open>Reference number, total parts, current part, header.\<close>

definition parseConcatUDH :: "bytes \<Rightarrow> (u8 \<times> u8 \<times> u8 \<times> UDH) option" where
  "parseConcatUDH data =
     (if length data < 12 \<or> data ! 0 \<noteq> 0x0B then None
      else if data ! 1 \<noteq> 0x00 \<or> data ! 2 \<noteq> 0x03 then None
      else Some (data ! 3, data ! 4, data ! 5,
             \<lparr>udh_headerLen = data ! 0, udh_ei = data ! 6, udh_eiLength = data ! 7,
              udh_source = be16 (data ! 10) (data ! 11), udh_dest = be16 (data ! 8) (data ! 9)\<rparr>))"

lemma be16_split [simp]: "be16 (hi8 p) (lo8 p) = p"
proof -
  have m: "0xFF = (mask 8 :: u16)" by (simp add: mask_eq_exp_minus_1)
  show ?thesis
    unfolding be16_def hi8_def lo8_def m by (rule bit_word_eqI) (auto simp: bit_simps)
qed

section \<open>Fragmentation\<close>

definition simple_message :: "u16 \<Rightarrow> u16 \<Rightarrow> bytes \<Rightarrow> bytes" where
  "simple_message srcPort dstPort payload =
     [0x06, 0x05, 0x04, hi8 dstPort, lo8 dstPort, hi8 srcPort, lo8 srcPort] @ payload"

definition concat_message :: "u8 \<Rightarrow> u8 \<Rightarrow> u8 \<Rightarrow> u16 \<Rightarrow> u16 \<Rightarrow> bytes \<Rightarrow> bytes" where
  "concat_message refNum totalParts part srcPort dstPort payload =
     [0x0B, 0x00, 0x03, refNum, totalParts, part, 0x05, 0x04,
      hi8 dstPort, lo8 dstPort, hi8 srcPort, lo8 srcPort] @ payload"

text \<open>The messages one datagram is sent as; \<open>now\<close> is the clock reading the reference number is
  taken from.\<close>

definition maxPayloadSimple :: nat where "maxPayloadSimple = MESHCORE_MAX_BINARY_PAYLOAD - 7"

definition maxPayloadConcat :: nat where "maxPayloadConcat = MESHCORE_MAX_BINARY_PAYLOAD - 12"

definition count_parts :: "nat \<Rightarrow> nat" where
  "count_parts len = (len + maxPayloadConcat - 1) div maxPayloadConcat"

text \<open>\<open>part_payload data p\<close>: the fragment of part \<open>p\<close>, from 1.\<close>

definition part_payload :: "bytes \<Rightarrow> nat \<Rightarrow> bytes" where
  "part_payload data part =
     (let offset = (part - 1) * maxPayloadConcat;
          partLen = (if length data - offset < maxPayloadConcat then length data - offset
                     else maxPayloadConcat)
      in take partLen (drop offset data))"

definition wdp_messages :: "u32 \<Rightarrow> u16 \<Rightarrow> u16 \<Rightarrow> bytes \<Rightarrow> bytes list" where
  "wdp_messages now srcPort dstPort data =
     (if length data \<le> maxPayloadSimple then [simple_message srcPort dstPort data]
      else
        let totalParts = count_parts (length data); refNum = ucast (now AND 0xFF) in
        map (\<lambda>part. concat_message refNum (of_nat totalParts) (of_nat part) srcPort dstPort
               (part_payload data part))
          [1..<Suc totalParts])"

section \<open>Reassembly\<close>

record ConcatMessage =
  cm_active :: bool
  cm_refNum :: u8
  cm_totalParts :: u8
  cm_receivedParts :: u8
  cm_partReceived :: "u8 list"
  cm_data :: bytes
  cm_partSizes :: "u16 list"
  cm_sourcePort :: u16
  cm_destPort :: u16
  cm_senderMeshId :: bytes
  cm_lastUpdate :: u32

definition clearConcatMessage :: "ConcatMessage \<Rightarrow> ConcatMessage" where
  "clearConcatMessage msg =
     \<lparr>cm_active = False, cm_refNum = 0, cm_totalParts = 0, cm_receivedParts = 0,
      cm_partReceived = replicate (length (cm_partReceived msg)) 0,
      cm_data = replicate (length (cm_data msg)) 0,
      cm_partSizes = replicate (length (cm_partSizes msg)) 0,
      cm_sourcePort = 0, cm_destPort = 0, cm_senderMeshId = [], cm_lastUpdate = 0\<rparr>"

definition concat_key :: "ConcatMessage \<Rightarrow> u8 \<times> bytes" where
  "concat_key c = (cm_refNum c, cm_senderMeshId c)"

interpretation concat_slots: slot_table cm_active concat_key clearConcatMessage
  by unfold_locales (simp add: clearConcatMessage_def)

text \<open>\<open>memcpy(&data[offset], payload, len)\<close>\<close>

definition write_at :: "nat \<Rightarrow> bytes \<Rightarrow> bytes \<Rightarrow> bytes" where
  "write_at offset payload data = take offset data @ payload @ drop (offset + length payload) data"

text \<open>Whether the part is new and fits, and the slot after storing it.\<close>

definition accepts_part :: "u8 \<Rightarrow> bytes \<Rightarrow> ConcatMessage \<Rightarrow> bool" where
  "accepts_part currentPart payload c \<longleftrightarrow>
     0 < currentPart \<and> currentPart \<le> 16 \<and>
     cm_partReceived c ! (unat currentPart - 1) = 0 \<and>
     (unat currentPart - 1) * (MESHCORE_MAX_BINARY_PAYLOAD - 12) + length payload < length (cm_data c)"

definition store_part :: "u32 \<Rightarrow> u8 \<Rightarrow> bytes \<Rightarrow> ConcatMessage \<Rightarrow> ConcatMessage" where
  "store_part now currentPart payload c =
     (if accepts_part currentPart payload c then
        (let i = unat currentPart - 1; offset = i * (MESHCORE_MAX_BINARY_PAYLOAD - 12) in
         c\<lparr>cm_data := write_at offset payload (cm_data c),
                cm_partSizes := (cm_partSizes c)[i := of_nat (length payload)],
                cm_partReceived := (cm_partReceived c)[i := 1],
                cm_receivedParts := cm_receivedParts c + 1,
                cm_lastUpdate := now\<rparr>)
      else c)"

definition concat_complete :: "ConcatMessage \<Rightarrow> bool" where
  "concat_complete c \<longleftrightarrow> cm_receivedParts c = cm_totalParts c"

text \<open>The loop sums \<open>partSizes[i]\<close> for \<open>i < totalParts\<close>.\<close>

definition concat_size :: "ConcatMessage \<Rightarrow> nat" where
  "concat_size c = sum_list (map (\<lambda>i. unat (cm_partSizes c ! i)) [0..<unat (cm_totalParts c)])"

text \<open>\<open>slot from refNum totalParts udh table\<close> finds or opens a slot; the step stores the part
  there and hands out the slot when it is complete.\<close>

type_synonym slot_fun =
  "u32 \<Rightarrow> bytes \<Rightarrow> u8 \<Rightarrow> u8 \<Rightarrow> UDH \<Rightarrow> ConcatMessage list \<Rightarrow> (nat \<times> ConcatMessage list) option"

definition concat_step ::
  "slot_fun \<Rightarrow> u32 \<Rightarrow> bytes \<Rightarrow> u8 \<times> u8 \<times> u8 \<times> UDH \<Rightarrow> bytes \<Rightarrow> ConcatMessage list
     \<Rightarrow> ConcatMessage list \<times> ConcatMessage option" where
  "concat_step slot now from hdr payload table =
     (case hdr of (refNum, totalParts, currentPart, udh) \<Rightarrow>
        (case slot now from refNum totalParts udh table of
           None \<Rightarrow> (table, None)
         | Some (i, table) \<Rightarrow>
             let c = store_part now currentPart payload (table ! i) in
             if concat_complete c
             then (table[i := clearConcatMessage c], Some c)
             else (table[i := c], None)))"

section \<open>What both reassemblers promise\<close>

text \<open>A slot that has just been opened for a message.\<close>

definition opened_for :: "nat \<Rightarrow> bytes \<Rightarrow> u8 \<Rightarrow> u8 \<Rightarrow> UDH \<Rightarrow> ConcatMessage \<Rightarrow> bool" where
  "opened_for cap from refNum totalParts udh c \<longleftrightarrow>
     cm_active c \<and> cm_refNum c = refNum \<and> cm_totalParts c = totalParts \<and> cm_receivedParts c = 0 \<and>
     cm_partReceived c = replicate 16 0 \<and> length (cm_data c) = cap \<and> length (cm_partSizes c) = 16 \<and>
     cm_sourcePort c = udh_source udh \<and> cm_destPort c = udh_dest udh \<and> cm_senderMeshId c = from"

text \<open>The arrays of every slot have their declared sizes.\<close>

definition slots_sized :: "nat \<Rightarrow> ConcatMessage list \<Rightarrow> bool" where
  "slots_sized cap table \<longleftrightarrow>
     (\<forall>c \<in> set table. length (cm_data c) = cap \<and> length (cm_partSizes c) = 16 \<and>
        length (cm_partReceived c) = 16)"

locale reassembler =
  fixes slot :: slot_fun and cap :: nat
  assumes slot_found:
    "find_slot cm_active concat_key (refNum, from) table = Some i \<Longrightarrow>
       slot now from refNum totalParts udh table = Some (i, table)"
  and slot_new:
    "find_slot cm_active concat_key (refNum, from) table = None \<Longrightarrow>
       first_index (\<lambda>c. \<not> cm_active c) table = Some i \<Longrightarrow> slots_sized cap table \<Longrightarrow>
       \<exists>c. slot now from refNum totalParts udh table = Some (i, table[i := c]) \<and>
         opened_for cap from refNum totalParts udh c"
  and slot_full:
    "find_slot cm_active concat_key (refNum, from) table = None \<Longrightarrow>
       first_index (\<lambda>c. \<not> cm_active c) table = None \<Longrightarrow>
       slot now from refNum totalParts udh table = None"
  and cap_enough: "1728 < cap"

text \<open>\<open>assembling msg S c\<close>: the slot holds exactly the parts \<open>S\<close> of \<open>msg\<close>.\<close>

definition assembling :: "bytes \<Rightarrow> nat set \<Rightarrow> ConcatMessage \<Rightarrow> bool" where
  "assembling msg S c \<longleftrightarrow>
     length (cm_partReceived c) = 16 \<and> length (cm_partSizes c) = 16 \<and> 1728 < length (cm_data c) \<and>
     S \<subseteq> {1..count_parts (length msg)} \<and> cm_totalParts c = of_nat (count_parts (length msg)) \<and>
     cm_receivedParts c = of_nat (card S) \<and>
     (\<forall>i < 16. cm_partReceived c ! i \<noteq> 0 \<longleftrightarrow> Suc i \<in> S) \<and>
     (\<forall>p \<in> S. cm_partSizes c ! (p - 1) = of_nat (length (part_payload msg p))) \<and>
     (\<forall>p \<in> S. \<forall>j < length (part_payload msg p). cm_data c ! ((p - 1) * 108 + j) = msg ! ((p - 1) * 108 + j))"

lemma length_write_at: "offset + length xs \<le> length d \<Longrightarrow> length (write_at offset xs d) = length d"
  by (simp add: write_at_def)

lemma nth_write_at:
  assumes "offset + length xs \<le> length d" "k < length d"
  shows "write_at offset xs d ! k =
    (if offset \<le> k \<and> k < offset + length xs then xs ! (k - offset) else d ! k)"
  using assms by (auto simp: write_at_def nth_append min_def)

lemma maxPayload_simps [simp]: "maxPayloadConcat = 108" "maxPayloadSimple = 113"
  "MESHCORE_MAX_BINARY_PAYLOAD = 120"
  by (simp_all add: maxPayloadConcat_def maxPayloadSimple_def MESHCORE_MAX_BINARY_PAYLOAD_def)

lemma part_payload_eq: "part_payload msg p = take 108 (drop ((p - 1) * 108) msg)"
  by (auto simp: part_payload_def Let_def min_def intro: nth_equalityI)

lemma length_part_payload: "length (part_payload msg p) = min 108 (length msg - (p - 1) * 108)"
  by (simp add: part_payload_eq min.commute)

lemma count_parts_mult: "length msg \<le> count_parts (length msg) * 108"
  using div_mult_mod_eq [of "length msg + 107" 108] by (simp add: count_parts_def)

lemma count_parts_le: "length msg \<le> 1728 \<Longrightarrow> count_parts (length msg) \<le> 16"
  by (simp add: count_parts_def)

lemma sum_part_sizes:
  "sum_list (map (\<lambda>i. min 108 (n - i * 108)) [0..<m]) = min n (m * 108)"
  by (induction m) (auto simp: min_def)

lemma part_u8: "p \<le> 16 \<Longrightarrow> unat (of_nat p :: u8) = p"
  by (simp add: unat_of_nat)

lemma assembling_received:
  "assembling msg S c \<Longrightarrow> 1 \<le> p \<Longrightarrow> p \<le> 16 \<Longrightarrow> cm_partReceived c ! (p - 1) \<noteq> 0 \<longleftrightarrow> p \<in> S"
  unfolding assembling_def by (metis One_nat_def Suc_le_lessD Suc_pred le_simps(1) less_Suc_eq_le)

lemma accepts_new_part:
  assumes "assembling msg S c" "1 \<le> p" "p \<le> 16" "p \<notin> S"
  shows "accepts_part (of_nat p) (part_payload msg p) c"
proof -
  have "cm_partReceived c ! (p - 1) = 0"
    using assembling_received [OF assms(1-3)] assms(4) by blast
  moreover have "1728 < length (cm_data c)"
    using assms(1) by (simp add: assembling_def)
  moreover have "(p - 1) * 108 + length (part_payload msg p) \<le> 1728"
    using assms(2,3) by (simp add: length_part_payload)
  moreover have "0 < (of_nat p :: u8)" "(of_nat p :: u8) \<le> 16"
    using assms(2,3) part_u8 [OF assms(3)] by (simp_all add: word_less_nat_alt word_le_nat_alt)
  ultimately show ?thesis
    by (simp add: accepts_part_def part_u8 [OF assms(3)])
qed

lemma store_assembling:
  assumes c: "assembling msg S c" and p: "1 \<le> p" "p \<le> count_parts (length msg)"
    and new: "p \<notin> S" and len: "length msg \<le> 1728"
  shows "assembling msg (insert p S) (store_part now (of_nat p) (part_payload msg p) c)"
proof -
  let ?n = "count_parts (length msg)" and ?x = "part_payload msg p" and ?o = "(p - 1) * 108"
  have n16: "?n \<le> 16" by (rule count_parts_le [OF len])
  then have p16: "p \<le> 16" using p(2) by simp
  have acc: "accepts_part (of_nat p) ?x c"
    by (rule accepts_new_part [OF c p(1) p16 new])
  define c' where "c' = store_part now (of_nat p) ?x c"
  have store: "c' = c\<lparr>cm_data := write_at ?o ?x (cm_data c),
      cm_partSizes := (cm_partSizes c)[p - 1 := of_nat (length ?x)],
      cm_partReceived := (cm_partReceived c)[p - 1 := 1],
      cm_receivedParts := cm_receivedParts c + 1, cm_lastUpdate := now\<rparr>"
    using acc by (simp add: c'_def store_part_def Let_def part_u8 [OF p16])
  have fits: "?o + length ?x \<le> length (cm_data c)" and small: "?o + length ?x \<le> 1728" "length ?x \<le> 108"
    using c p16 p(1) by (auto simp: assembling_def length_part_payload)
  have fin: "finite S" "S \<subseteq> {1..?n}"
    using c finite_subset [of S "{1..?n}"] by (auto simp: assembling_def)
  have data: "cm_data c' ! ((q - 1) * 108 + j) = msg ! ((q - 1) * 108 + j)"
    if q: "q \<in> insert p S" and j: "j < length (part_payload msg q)" for q j
  proof -
    have j108: "j < 108" using j by (simp add: length_part_payload)
    have "q \<le> 16" "1 \<le> q" using q fin(2) n16 p by auto
    then have k: "(q - 1) * 108 + j < length (cm_data c)"
      using j108 c by (auto simp: assembling_def)
    show ?thesis
    proof (cases "q = p")
      case True
      then have "j < length msg - ?o" using j by (simp add: length_part_payload)
      then have "?o \<le> length msg" by linarith
      then have "?x ! j = msg ! (?o + j)"
        using j True by (simp add: part_payload_eq)
      moreover have "write_at ?o ?x (cm_data c) ! (?o + j) = ?x ! j"
        using nth_write_at [OF fits, of "?o + j"] j k True by simp
      ultimately show ?thesis using True by (simp add: store)
    next
      case False
      then have "\<not> (?o \<le> (q - 1) * 108 + j \<and> (q - 1) * 108 + j < ?o + length ?x)"
      proof (cases "q < p")
        case True
        then have "(q - 1) * 108 + 108 \<le> ?o"
          using \<open>1 \<le> q\<close> mult_le_mono1 [of "Suc (q - 1)" "p - 1" 108] by simp
        then show ?thesis using j108 by simp
      next
        case False
        then have "?o + 108 \<le> (q - 1) * 108"
          using \<open>q \<noteq> p\<close> p(1) mult_le_mono1 [of "Suc (p - 1)" "q - 1" 108] by simp
        then show ?thesis using small(2) by simp
      qed
      then have "write_at ?o ?x (cm_data c) ! ((q - 1) * 108 + j) = cm_data c ! ((q - 1) * 108 + j)"
        by (simp only: nth_write_at [OF fits k] if_False)
      then have "cm_data c' ! ((q - 1) * 108 + j) = cm_data c ! ((q - 1) * 108 + j)"
        by (simp add: store)
      then show ?thesis using c q j False by (auto simp: assembling_def)
    qed
  qed
  have received: "cm_partReceived c' ! i \<noteq> 0 \<longleftrightarrow> Suc i \<in> insert p S" if "i < 16" for i
    using c that p(1) by (auto simp: store assembling_def nth_upd)
  have sizes: "cm_partSizes c' ! (q - 1) = of_nat (length (part_payload msg q))" if "q \<in> insert p S" for q
  proof -
    have q: "1 \<le> q" "q \<le> 16" using that fin(2) n16 p by auto
    then have "q - 1 < length (cm_partSizes c)" using c by (simp add: assembling_def)
    moreover have "p - 1 = q - 1 \<longleftrightarrow> p = q" using p(1) q(1) by auto
    ultimately show ?thesis using c that by (auto simp: store assembling_def nth_upd)
  qed
  have "cm_receivedParts c' = of_nat (card (insert p S))"
    using c new fin(1) by (simp add: store assembling_def)
  moreover have "length (cm_data c') = length (cm_data c)"
    using length_write_at [OF fits] by (simp add: store)
  moreover have "insert p S \<subseteq> {1..?n}" using fin(2) p by auto
  ultimately show ?thesis
    using c data received sizes unfolding c'_def [symmetric]
    by (auto simp: assembling_def store)
qed

lemma store_duplicate:
  assumes "assembling msg S c" "p \<in> S" "length msg \<le> 1728"
  shows "store_part now (of_nat p) x c = c"
proof -
  have "count_parts (length msg) \<le> 16" by (rule count_parts_le [OF assms(3)])
  then have "1 \<le> p" "p \<le> 16" using assms(1,2) by (auto simp: assembling_def)
  then have "cm_partReceived c ! (p - 1) \<noteq> 0"
    using assembling_received [OF assms(1)] assms(2) by blast
  then show ?thesis
    by (simp add: store_part_def accepts_part_def part_u8 [OF \<open>p \<le> 16\<close>])
qed

lemma complete_iff:
  assumes "assembling msg S c" "length msg \<le> 1728"
  shows "concat_complete c \<longleftrightarrow> S = {1..count_parts (length msg)}"
proof -
  let ?n = "count_parts (length msg)"
  have S: "S \<subseteq> {1..?n}" "finite S"
    using assms(1) finite_subset [of S "{1..?n}"] by (auto simp: assembling_def)
  have n: "?n \<le> 16" by (rule count_parts_le [OF assms(2)])
  have "card S \<le> ?n" using card_mono [OF _ S(1)] by simp
  then have "(of_nat (card S) :: u8) = of_nat ?n \<longleftrightarrow> card S = ?n"
    using n by (metis le_trans part_u8)
  also have "\<dots> \<longleftrightarrow> S = {1..?n}"
    using card_subset_eq [OF _ S(1)] by auto
  finally show ?thesis using assms(1) by (simp add: concat_complete_def assembling_def)
qed

lemma complete_payload:
  assumes c: "assembling msg {1..count_parts (length msg)} c" and len: "length msg \<le> 1728"
  shows "concat_size c = length msg" "take (concat_size c) (cm_data c) = msg"
proof -
  let ?n = "count_parts (length msg)"
  have n: "?n \<le> 16" by (rule count_parts_le [OF len])
  have "unat (cm_partSizes c ! i) = min 108 (length msg - i * 108)" if "i < ?n" for i
  proof -
    have "cm_partSizes c ! i = of_nat (length (part_payload msg (Suc i)))"
      using c that by (auto simp: assembling_def dest: bspec [of _ _ "Suc i"])
    then show ?thesis by (simp add: length_part_payload unat_of_nat)
  qed
  then have "concat_size c = sum_list (map (\<lambda>i. min 108 (length msg - i * 108)) [0..<?n])"
    using c n unfolding concat_size_def
    by (auto simp: assembling_def part_u8 intro!: arg_cong [where f = sum_list] map_cong)
  then show size: "concat_size c = length msg"
    using count_parts_mult [of msg] by (simp add: sum_part_sizes min_absorb1)
  show "take (concat_size c) (cm_data c) = msg"
  proof (rule nth_equalityI)
    show "length (take (concat_size c) (cm_data c)) = length msg"
      using size c len by (auto simp: assembling_def)
    fix k assume "k < length (take (concat_size c) (cm_data c))"
    then have k: "k < length msg" by (simp add: size)
    define q where "q = Suc (k div 108)"
    have "k div 108 < ?n"
      using k count_parts_mult [of msg] by (simp add: div_less_iff_less_mult)
    then have "q \<in> {1..?n}" by (simp add: q_def)
    moreover have "k mod 108 < length (part_payload msg q)"
    proof -
      have "k div 108 * 108 + k mod 108 = k" by (rule div_mult_mod_eq)
      then have "k mod 108 < length msg - k div 108 * 108" using k by linarith
      then show ?thesis by (simp add: length_part_payload q_def)
    qed
    ultimately have "cm_data c ! ((q - 1) * 108 + k mod 108) = msg ! ((q - 1) * 108 + k mod 108)"
      using c unfolding assembling_def by blast
    then show "take (concat_size c) (cm_data c) ! k = msg ! k"
      using k by (simp add: size q_def)
  qed
qed

section \<open>Reassembly in any order\<close>

text \<open>A sequence of parts from one sender, and the slots completed on the way.\<close>

fun concat_run ::
  "slot_fun \<Rightarrow> bytes \<Rightarrow> (u32 \<times> (u8 \<times> u8 \<times> u8 \<times> UDH) \<times> bytes) list \<Rightarrow> ConcatMessage list
     \<Rightarrow> ConcatMessage list \<times> ConcatMessage list" where
  "concat_run slot from [] table = (table, [])"
| "concat_run slot from ((now, hdr, payload) # ms) table =
     (case concat_step slot now from hdr payload table of
        (table, done) \<Rightarrow>
          (case concat_run slot from ms table of
             (table, rest) \<Rightarrow> (table, (case done of None \<Rightarrow> rest | Some c \<Rightarrow> c # rest))))"

lemma concat_run_append:
  "concat_run slot from (ms @ ms') table =
     (case concat_run slot from ms table of (t1, r1) \<Rightarrow>
        (case concat_run slot from ms' t1 of (t2, r2) \<Rightarrow> (t2, r1 @ r2)))"
proof (induction ms arbitrary: table)
  case (Cons m ms)
  then show ?case by (cases m) (auto split: prod.splits option.splits)
qed simp

text \<open>The parts of \<open>msg\<close> numbered \<open>ps\<close>, each with the time it arrives at.\<close>

definition part_sequence ::
  "u8 \<Rightarrow> UDH \<Rightarrow> bytes \<Rightarrow> (u32 \<times> nat) list \<Rightarrow> (u32 \<times> (u8 \<times> u8 \<times> u8 \<times> UDH) \<times> bytes) list" where
  "part_sequence refNum udh msg ps =
     map (\<lambda>(now, p). (now, (refNum, of_nat (count_parts (length msg)), of_nat p, udh), part_payload msg p)) ps"

definition same_header :: "bytes \<Rightarrow> u8 \<Rightarrow> UDH \<Rightarrow> ConcatMessage \<Rightarrow> bool" where
  "same_header from refNum udh c \<longleftrightarrow>
     cm_active c \<and> cm_refNum c = refNum \<and> cm_senderMeshId c = from \<and>
     cm_sourcePort c = udh_source udh \<and> cm_destPort c = udh_dest udh"

lemma opened_assembling:
  assumes "opened_for cap from refNum (of_nat (count_parts (length msg))) udh c" "1728 < cap"
  shows "assembling msg {} c \<and> same_header from refNum udh c"
  using assms by (auto simp: opened_for_def assembling_def same_header_def)

lemma store_same_header: "same_header from refNum udh (store_part now p x c) = same_header from refNum udh c"
  by (simp add: same_header_def store_part_def Let_def)

context reassembler
begin

text \<open>Storing a part of a message in the slot that holds the set \<open>S\<close> of its parts.\<close>

lemma step_at:
  assumes slot: "slot now from refNum (of_nat (count_parts (length msg))) udh table = Some (i, table[i := c])"
    and i: "i < length table" and c: "assembling msg S c" and hdr: "same_header from refNum udh c"
    and p: "1 \<le> p" "p \<le> count_parts (length msg)" and len: "length msg \<le> 1728"
  shows "\<exists>c'. assembling msg (insert p S) c' \<and> same_header from refNum udh c' \<and>
    concat_step slot now from (refNum, of_nat (count_parts (length msg)), of_nat p, udh) (part_payload msg p) table =
      (if insert p S = {1..count_parts (length msg)} then (table[i := clearConcatMessage c'], Some c')
       else (table[i := c'], None))"
proof -
  define c' where "c' = store_part now (of_nat p) (part_payload msg p) c"
  have c': "assembling msg (insert p S) c'"
  proof (cases "p \<in> S")
    case True
    then show ?thesis using store_duplicate [OF c True len] c by (simp add: c'_def insert_absorb)
  next
    case False
    then show ?thesis unfolding c'_def by (rule store_assembling [OF c p _ len])
  qed
  have "same_header from refNum udh c'"
    using hdr by (simp add: c'_def store_same_header)
  moreover have "concat_step slot now from (refNum, of_nat (count_parts (length msg)), of_nat p, udh)
      (part_payload msg p) table =
      (if concat_complete c' then (table[i := clearConcatMessage c'], Some c') else (table[i := c'], None))"
    using slot i by (simp add: concat_step_def c'_def Let_def)
  ultimately show ?thesis
    using c' complete_iff [OF c' len] by auto
qed

text \<open>While parts are missing, one slot holds what has arrived and the others are as they were.\<close>

lemma run_incomplete:
  assumes none: "find_slot cm_active concat_key (refNum, from) table = None"
    and free: "first_index (\<lambda>c. \<not> cm_active c) table = Some i"
    and sized: "slots_sized cap table" and len: "length msg \<le> 1728"
  shows "ps \<noteq> [] \<Longrightarrow> snd ` set ps \<subseteq> {1..count_parts (length msg)} \<Longrightarrow>
     snd ` set ps \<noteq> {1..count_parts (length msg)} \<Longrightarrow>
     \<exists>c. concat_run slot from (part_sequence refNum udh msg ps) table = (table[i := c], []) \<and>
       assembling msg (snd ` set ps) c \<and> same_header from refNum udh c"
proof (induction ps rule: rev_induct)
  case (snoc np ps)
  obtain now p where np: "np = (now, p)" by (cases np)
  let ?n = "count_parts (length msg)"
  have i: "i < length table" using free by (auto dest: first_index_SomeD)
  have p: "1 \<le> p" "p \<le> ?n" using snoc.prems(2) by (auto simp: np)
  have sub: "snd ` set ps \<subseteq> {1..?n}" using snoc.prems(2) by auto
  show ?case
  proof (cases "ps = []")
    case True
    obtain c where c: "slot now from refNum (of_nat ?n) udh table = Some (i, table[i := c])"
      "opened_for cap from refNum (of_nat ?n) udh c"
      using slot_new [OF none free sized] by blast
    note c0 = opened_assembling [OF c(2) cap_enough]
    have "insert p {} \<noteq> {1..?n}" using snoc.prems(3) True by (simp add: np)
    then show ?thesis
      using step_at [OF c(1) i conjunct1 [OF c0] conjunct2 [OF c0] p len] True
      by (auto simp: np part_sequence_def)
  next
    case False
    have proper: "snd ` set ps \<noteq> {1..?n}"
      using snoc.prems(2,3) p by (auto simp: np insert_absorb)
    obtain c where c: "concat_run slot from (part_sequence refNum udh msg ps) table = (table[i := c], [])"
      "assembling msg (snd ` set ps) c" "same_header from refNum udh c"
      using snoc.IH [OF False sub proper] by blast
    have "find_slot cm_active concat_key (refNum, from) (table[i := c]) = Some i"
      using none i c(3) unfolding find_slot_def
      by (intro first_index_upd) (auto simp: same_header_def concat_key_def)
    then have "slot now from refNum (of_nat ?n) udh (table[i := c]) = Some (i, (table[i := c])[i := c])"
      using slot_found by simp
    from step_at [OF this _ c(2,3) p len] obtain c' where
        "assembling msg (insert p (snd ` set ps)) c'" "same_header from refNum udh c'"
        "concat_step slot now from (refNum, of_nat ?n, of_nat p, udh) (part_payload msg p) (table[i := c]) =
          (if insert p (snd ` set ps) = {1..?n} then (table[i := clearConcatMessage c'], Some c')
           else (table[i := c'], None))"
      using i by auto
    then show ?thesis
      using snoc.prems(3) c(1) by (auto simp: np part_sequence_def concat_run_append)
  qed
qed simp

text \<open>When the last missing part arrives, in whatever order and with whatever repetitions, the slot
  is handed out with the whole message and freed.\<close>

lemma run_complete:
  assumes none: "find_slot cm_active concat_key (refNum, from) table = None"
    and free: "first_index (\<lambda>c. \<not> cm_active c) table = Some i"
    and sized: "slots_sized cap table" and len: "length msg \<le> 1728"
    and parts: "snd ` set (ps @ [(now, p)]) = {1..count_parts (length msg)}" "p \<notin> snd ` set ps"
  shows "\<exists>t c. concat_run slot from (part_sequence refNum udh msg ps) table = (t, []) \<and>
    concat_step slot now from (refNum, of_nat (count_parts (length msg)), of_nat p, udh) (part_payload msg p) t =
      (table[i := clearConcatMessage c], Some c) \<and>
    same_header from refNum udh c \<and> concat_size c \<le> length (cm_data c) \<and>
    take (concat_size c) (cm_data c) = msg"
proof -
  let ?n = "count_parts (length msg)"
  have i: "i < length table" using free by (auto dest: first_index_SomeD)
  have p: "1 \<le> p" "p \<le> ?n" using parts(1) by auto
  have all: "insert p (snd ` set ps) = {1..?n}" using parts(1) by auto
  have "\<exists>c t. concat_run slot from (part_sequence refNum udh msg ps) table = (t, []) \<and>
      slot now from refNum (of_nat ?n) udh t = Some (i, t[i := c]) \<and> (\<forall>d. t[i := d] = table[i := d]) \<and>
      length t = length table \<and>
      assembling msg (snd ` set ps) c \<and> same_header from refNum udh c"
  proof (cases "ps = []")
    case True
    obtain c where "slot now from refNum (of_nat ?n) udh table = Some (i, table[i := c])"
      "opened_for cap from refNum (of_nat ?n) udh c"
      using slot_new [OF none free sized] by blast
    then show ?thesis
      using opened_assembling [OF _ cap_enough] True by (auto simp: part_sequence_def)
  next
    case False
    have sub: "snd ` set ps \<subseteq> {1..?n}" "snd ` set ps \<noteq> {1..?n}"
      using all parts(2) by auto
    obtain c where c: "concat_run slot from (part_sequence refNum udh msg ps) table = (table[i := c], [])"
      "assembling msg (snd ` set ps) c" "same_header from refNum udh c"
      using run_incomplete [OF none free sized len False sub] by blast
    have "find_slot cm_active concat_key (refNum, from) (table[i := c]) = Some i"
      using none i c(3) unfolding find_slot_def
      by (intro first_index_upd) (auto simp: same_header_def concat_key_def)
    then have "slot now from refNum (of_nat ?n) udh (table[i := c]) = Some (i, (table[i := c])[i := c])"
      using slot_found by simp
    then show ?thesis using c by auto
  qed
  then obtain c t where t: "concat_run slot from (part_sequence refNum udh msg ps) table = (t, [])"
    "slot now from refNum (of_nat ?n) udh t = Some (i, t[i := c])" "\<forall>d. t[i := d] = table[i := d]"
    "length t = length table" "assembling msg (snd ` set ps) c" "same_header from refNum udh c"
    by blast
  obtain c' where c': "assembling msg {1..?n} c'" "same_header from refNum udh c'"
    "concat_step slot now from (refNum, of_nat ?n, of_nat p, udh) (part_payload msg p) t =
      (table[i := clearConcatMessage c'], Some c')"
    using step_at [OF t(2) _ t(5,6) p len] i t(3,4) all by auto
  have "length msg < length (cm_data c')"
    using c'(1) len by (simp add: assembling_def)
  then show ?thesis
    using t(1) c'(2,3) complete_payload [OF c'(1) len] by auto
qed

end

section \<open>Messages on the wire\<close>

text \<open>A receiver that parses a message gets back the ports, the part number and the payload.\<close>

lemma parse_simple_message:
  "parseUDH (simple_message s d x) =
     Some \<lparr>udh_headerLen = 6, udh_ei = 5, udh_eiLength = 4, udh_source = s, udh_dest = d\<rparr>"
  "parseConcatUDH (simple_message s d x) = None"
  "drop 7 (simple_message s d x) = x" "length (simple_message s d x) = 7 + length x"
  by (simp_all add: simple_message_def parseUDH_def parseConcatUDH_def)

definition concat_header :: "u16 \<Rightarrow> u16 \<Rightarrow> UDH" where
  "concat_header s d =
     \<lparr>udh_headerLen = 0x0B, udh_ei = 0x05, udh_eiLength = 0x04, udh_source = s, udh_dest = d\<rparr>"

lemma parse_concat_message:
  "parseConcatUDH (concat_message r n p s d x) = Some (r, n, p, concat_header s d)"
  "drop 12 (concat_message r n p s d x) = x" "length (concat_message r n p s d x) = 12 + length x"
  by (simp_all add: concat_message_def parseConcatUDH_def concat_header_def)

lemma concat_header_simps [simp]: "udh_source (concat_header s d) = s" "udh_dest (concat_header s d) = d"
  by (simp_all add: concat_header_def)

lemma wdp_message_size:
  assumes "m \<in> set (wdp_messages now s d data)"
  shows "7 \<le> length m \<and> length m \<le> MESHCORE_MAX_BINARY_PAYLOAD"
  using assms
  by (auto simp: wdp_messages_def Let_def parse_simple_message parse_concat_message length_part_payload
      split: if_splits)

lemma wdp_messages_concat:
  "113 < length data \<Longrightarrow> wdp_messages now s d data =
     map (\<lambda>p. concat_message (ucast (now AND 0xFF)) (of_nat (count_parts (length data))) (of_nat p) s d
            (part_payload data p)) [1..<Suc (count_parts (length data))]"
  by (simp add: wdp_messages_def Let_def)

text \<open>The parts put side by side are the datagram.\<close>

lemma concat_part_payloads:
  "List.concat (map (part_payload data) [1..<Suc n]) = take (n * 108) data"
proof (induction n)
  case (Suc n)
  have "take (n * 108) data @ take 108 (drop (n * 108) data) = take (Suc n * 108) data"
    using take_add [of "n * 108" 108 data] by (simp add: add.commute)
  with Suc.IH show ?case by (simp add: part_payload_eq)
qed simp

text \<open>Message number \<open>p\<close> of a datagram.\<close>

definition part_message :: "u8 \<Rightarrow> u16 \<Rightarrow> u16 \<Rightarrow> bytes \<Rightarrow> nat \<Rightarrow> bytes" where
  "part_message r s d msg p =
     concat_message r (of_nat (count_parts (length msg))) (of_nat p) s d (part_payload msg p)"

lemma wdp_messages_parts:
  "113 < length data \<Longrightarrow>
   wdp_messages t s d data = map (part_message (ucast (t AND 0xFF)) s d data) [1..<Suc (count_parts (length data))]"
  by (simp add: wdp_messages_concat part_message_def)

lemma part_message_inj:
  assumes "part_message r s d msg p = part_message r s d msg q" "p \<le> 16" "q \<le> 16"
  shows "p = q"
proof -
  have "parseConcatUDH (part_message r s d msg p) = parseConcatUDH (part_message r s d msg q)"
    by (rule arg_cong [OF assms(1)])
  then have "(of_nat p :: u8) = of_nat q" by (simp add: part_message_def parse_concat_message)
  then have "unat (of_nat p :: u8) = unat (of_nat q :: u8)" by (rule arg_cong)
  then show ?thesis by (simp only: part_u8 [OF assms(2)] part_u8 [OF assms(3)])
qed

text \<open>When the messages seen so far are the parts \<open>ps\<close> and \<open>m\<close> is the one that is missing.\<close>

lemma datagram_parts:
  assumes long: "113 < length data" and len: "length data \<le> 1728"
    and all: "insert m S = set (wdp_messages t s d data)" and new: "m \<notin> S"
    and S: "S = part_message (ucast (t AND 0xFF)) s d data ` snd ` set ps"
    and ps: "snd ` set ps \<subseteq> {1..count_parts (length data)}"
  shows "\<exists>p. 1 \<le> p \<and> p \<le> 16 \<and> m = part_message (ucast (t AND 0xFF)) s d data p \<and> p \<notin> snd ` set ps \<and>
    snd ` set (ps @ [(now, p)]) = {1..count_parts (length data)}"
proof -
  let ?n = "count_parts (length data)" and ?f = "part_message (ucast (t AND 0xFF)) s d data"
  have n: "?n \<le> 16" by (rule count_parts_le [OF len])
  have msgs: "set (wdp_messages t s d data) = ?f ` {1..?n}"
    by (simp add: wdp_messages_parts [OF long] atLeastLessThanSuc_atLeastAtMost del: upt_Suc)
  obtain p where p: "p \<in> {1..?n}" "m = ?f p" using all msgs by blast
  have inj: "inj_on ?f {1..?n}"
    by (rule inj_onI) (use part_message_inj n in force)
  have img: "?f ` insert p (snd ` set ps) = ?f ` {1..?n}" and pn: "p \<notin> snd ` set ps"
    using all new p(2) msgs S by auto
  have "insert p (snd ` set ps) \<subseteq> {1..?n}" using p(1) ps by simp
  from inj_on_image_eq_iff [OF inj this subset_refl] img pn p n show ?thesis
    by (intro exI [of _ p]) simp
qed

lemma messages_subset:
  "113 < length data \<Longrightarrow> insert m S = set (wdp_messages t s d data) \<Longrightarrow>
   S \<subseteq> part_message (ucast (t AND 0xFF)) s d data ` {1..count_parts (length data)}"
  by (auto simp: wdp_messages_parts atLeastLessThanSuc_atLeastAtMost simp del: upt_Suc)

end
