(* ===== verification/Codecs.thy ===== *)
theory Codecs
  imports MapPrelude
begin

text \<open>
  The two encoding interfaces of the program.  \<open>prefix_codec\<close>: a self-delimiting integer
  encoding (the WSP uintvar, the WBXML multi-byte integer), from which length-prefixed fields
  are read.  \<open>text_codec\<close>: an encoding of binary payloads as message text, with the size of
  text buffer a payload needs.
\<close>

section \<open>Self-delimiting integers and length-prefixed fields\<close>

text \<open>\<open>read_field dec ds\<close>: a length read by \<open>dec\<close>, and that many bytes after it.\<close>

definition read_field :: "(bytes \<Rightarrow> (nat \<times> u32) option) \<Rightarrow> bytes \<Rightarrow> (bytes \<times> bytes) option" where
  "read_field dec ds =
     (case dec ds of
        None \<Rightarrow> None
      | Some (k, n) \<Rightarrow>
          if length ds < k + unat n then None
          else Some (take (unat n) (drop k ds), drop (k + unat n) ds))"

locale prefix_codec =
  fixes enc :: "u32 \<Rightarrow> bytes" and dec :: "bytes \<Rightarrow> (nat \<times> u32) option"
  assumes dec_enc: "dec (enc v @ ds) = Some (length (enc v), v)"
    and enc_nonempty: "enc v \<noteq> []"
    and dec_consumed: "dec ds = Some (k, v) \<Longrightarrow> k \<le> length ds"
begin

lemma prefix_free:
  assumes "enc v @ ds = enc w @ es"
  shows "v = w \<and> ds = es"
proof -
  have "Some (length (enc v), v) = Some (length (enc w), w)"
    using dec_enc [of v ds] dec_enc [of w es] assms by simp
  with assms show ?thesis by simp
qed

lemma enc_inj: "enc v = enc w \<Longrightarrow> v = w"
  using prefix_free [of v "[]" w "[]"] by simp

lemma read_field_enc:
  assumes "length xs < 2 ^ 32"
  shows "read_field dec (enc (of_nat (length xs)) @ xs @ ds) = Some (xs, ds)"
proof -
  have "unat (of_nat (length xs) :: u32) = length xs"
    using assms by (simp add: unat_of_nat)
  then show ?thesis by (simp add: read_field_def dec_enc)
qed

lemma read_field_split:
  "read_field dec ds = Some (xs, rest) \<Longrightarrow> \<exists>k n. dec ds = Some (k, n) \<and> ds = take k ds @ xs @ rest"
  by (auto simp: read_field_def add.commute [of _ "unat _"] append_take_drop_id
      drop_drop [symmetric] simp del: drop_drop split: option.splits prod.splits if_splits)

end

section \<open>Binary payloads as text\<close>

text \<open>\<open>enc xs M\<close> is the text written for \<open>xs\<close> into a buffer of \<open>M\<close> bytes, terminator
  included, \<^term>\<open>None\<close> when it does not fit; \<open>dec mem M\<close> reads the text at \<open>mem\<close> back into a
  buffer of \<open>M\<close> bytes.\<close>

locale text_codec =
  fixes enc :: "bytes \<Rightarrow> nat \<Rightarrow> bytes option" and dec :: "bytes \<Rightarrow> nat \<Rightarrow> bytes option"
    and bufsize :: "nat \<Rightarrow> nat"
  assumes enc_fits: "xs \<noteq> [] \<Longrightarrow> bufsize (length xs) \<le> M \<Longrightarrow> enc xs M \<noteq> None"
    and enc_terminated: "enc xs M = Some t \<Longrightarrow> t = c_str t @ [0] \<and> length t \<le> M"
    and dec_enc: "enc xs M = Some t \<Longrightarrow> length xs \<le> M' \<Longrightarrow> dec (t @ rest) M' = Some xs"
    and dec_c_str: "dec mem M = dec (c_str mem) M"
begin

text \<open>What a messaging layer that carries C strings delivers is the payload.\<close>

lemma transport:
  assumes "xs \<noteq> []" "bufsize (length xs) \<le> M" "length xs \<le> M'"
  shows "\<exists>t. enc xs M = Some t \<and> length t \<le> M \<and> dec (c_str t) M' = Some xs"
proof -
  obtain t where t: "enc xs M = Some t"
    using enc_fits [OF assms(1,2)] by auto
  then have "dec (c_str t) M' = Some xs"
    using dec_enc [OF t assms(3), of "[]"] dec_c_str [of t M'] by simp
  with t enc_terminated [OF t] show ?thesis by blast
qed

lemma enc_inj:
  assumes "enc xs M = Some t" "enc ys M' = Some t"
  shows "xs = ys"
  using dec_enc [OF assms(1), of "max (length xs) (length ys)" "[]"]
    dec_enc [OF assms(2), of "max (length xs) (length ys)" "[]"] by simp

end

end
