(* ===== verification/Base91.thy ===== *)
theory Base91
  imports Codecs
begin

text \<open>
  \<^verbatim>\<open>lib/base91/base91.cpp\<close> and \<^verbatim>\<open>base91.h\<close>: the two tables, \<open>encode\<close>, \<open>decode\<close> and the
  two size estimates.  The 32-bit \<open>queue\<close> is a \<^typ>\<open>u32\<close>, \<open>numBits\<close> a \<^typ>\<open>nat\<close> (it is
  never negative), \<open>val == -1\<close> is \<^term>\<open>None\<close>.  The output buffer is the list of bytes
  written so far, starting at its first byte; \<^term>\<open>Inl out\<close> is an early \<open>return 0\<close> that
  leaves \<open>out\<close> in the buffer.  A null pointer is \<^term>\<open>None\<close>.  The last section relates
  the word-level loops to a bound-free reference encoder and proves the round trip.
\<close>

section \<open>Tables\<close>

definition ALPHABET :: bytes where
  "ALPHABET =
     str ''ABCDEFGHIJKLM'' @ str ''NOPQRSTUVWXYZ'' @
     str ''abcdefghijklm'' @ str ''nopqrstuvwxyz'' @
     str ''0123456789!#$'' @ str ''%&()*+,./:;<='' @
     str ''>?@[]^_`{|}~-''"

definition DECODE_TABLE :: "int list" where
  "DECODE_TABLE =
    [-1, -1, -1, -1, -1, -1, -1, -1, -1, -1, -1, -1, -1, -1, -1, -1,
     -1, -1, -1, -1, -1, -1, -1, -1, -1, -1, -1, -1, -1, -1, -1, -1,
     -1, 62, -1, 63, 64, 65, 66, -1, 67, 68, 69, 70, 71, 90, 72, 73,
     52, 53, 54, 55, 56, 57, 58, 59, 60, 61, 74, 75, 76, 77, 78, 79,
     80, 0, 1, 2, 3, 4, 5, 6, 7, 8, 9, 10, 11, 12, 13, 14,
     15, 16, 17, 18, 19, 20, 21, 22, 23, 24, 25, 81, -1, 82, 83, 84,
     85, 26, 27, 28, 29, 30, 31, 32, 33, 34, 35, 36, 37, 38, 39, 40,
     41, 42, 43, 44, 45, 46, 47, 48, 49, 50, 51, 86, 87, 88, 89, -1,
     -1, -1, -1, -1, -1, -1, -1, -1, -1, -1, -1, -1, -1, -1, -1, -1,
     -1, -1, -1, -1, -1, -1, -1, -1, -1, -1, -1, -1, -1, -1, -1, -1,
     -1, -1, -1, -1, -1, -1, -1, -1, -1, -1, -1, -1, -1, -1, -1, -1,
     -1, -1, -1, -1, -1, -1, -1, -1, -1, -1, -1, -1, -1, -1, -1, -1,
     -1, -1, -1, -1, -1, -1, -1, -1, -1, -1, -1, -1, -1, -1, -1, -1,
     -1, -1, -1, -1, -1, -1, -1, -1, -1, -1, -1, -1, -1, -1, -1, -1,
     -1, -1, -1, -1, -1, -1, -1, -1, -1, -1, -1, -1, -1, -1, -1, -1,
     -1, -1, -1, -1, -1, -1, -1, -1, -1, -1, -1, -1, -1, -1, -1, -1]"

section \<open>Encoding\<close>

text \<open>One 13- or 14-bit group taken from the queue: the value, the rest and its size.\<close>

definition encode_group :: "u32 \<Rightarrow> nat \<Rightarrow> u32 \<times> u32 \<times> nat" where
  "encode_group queue numBits =
     (let val = queue AND 8191 in
      if 88 < val then (val, drop_bit 13 queue, numBits - 13)
      else (queue AND 16383, drop_bit 14 queue, numBits - 14))"

fun encode_loop :: "nat \<Rightarrow> bytes \<Rightarrow> u32 \<Rightarrow> nat \<Rightarrow> bytes \<Rightarrow> bytes + (u32 \<times> nat \<times> bytes)" where
  "encode_loop outputMaxLen [] queue numBits out = Inr (queue, numBits, out)"
| "encode_loop outputMaxLen (x # xs) queue numBits out =
     (let queue = queue OR push_bit numBits (ucast x); numBits = numBits + 8 in
      if 13 < numBits then
        (let (val, queue, numBits) = encode_group queue numBits in
         if outputMaxLen - 1 < length out + 2 then Inl out
         else encode_loop outputMaxLen xs queue numBits
                (out @ [ALPHABET ! unat (val mod 91), ALPHABET ! unat (val div 91)]))
      else encode_loop outputMaxLen xs queue numBits out)"

definition encode_tail :: "nat \<Rightarrow> u32 \<Rightarrow> nat \<Rightarrow> bytes \<Rightarrow> bytes + bytes" where
  "encode_tail outputMaxLen queue numBits out =
     (if 0 < numBits then
        (if outputMaxLen - 1 < length out + 1 then Inl out
         else
           let out = out @ [ALPHABET ! unat (queue mod 91)] in
           if 7 < numBits \<or> 90 < queue then
             (if outputMaxLen - 1 < length out + 1 then Inl out
              else Inr (out @ [ALPHABET ! unat (queue div 91)]))
           else Inr out)
      else Inr out)"

text \<open>The result is the return value and the bytes written to the output buffer.\<close>

definition Base91_encode :: "bytes option \<Rightarrow> bool \<Rightarrow> nat \<Rightarrow> nat \<times> bytes" where
  "Base91_encode input output_null outputMaxLen =
     (case input of
        None \<Rightarrow> (0, [])
      | Some xs \<Rightarrow>
          if output_null \<or> outputMaxLen = 0 then (0, [])
          else
            (case encode_loop outputMaxLen xs 0 0 [] of
               Inl out \<Rightarrow> (0, out)
             | Inr (queue, numBits, out) \<Rightarrow>
                 (case encode_tail outputMaxLen queue numBits out of
                    Inl out \<Rightarrow> (0, out)
                  | Inr out \<Rightarrow> (length out, out @ [0]))))"

section \<open>Decoding\<close>

text \<open>The inner \<open>while (numBits >= 8)\<close> loop.\<close>

fun decode_flush :: "nat \<Rightarrow> u32 \<Rightarrow> nat \<Rightarrow> bytes \<Rightarrow> bytes + (u32 \<times> nat \<times> bytes)" where
  "decode_flush outputMaxLen queue numBits out =
     (if 8 \<le> numBits then
        (if outputMaxLen \<le> length out then Inl out
         else decode_flush outputMaxLen (drop_bit 8 queue) (numBits - 8)
                (out @ [ucast (queue AND 255)]))
      else Inr (queue, numBits, out))"

declare decode_flush.simps [simp del]

fun decode_loop :: "nat \<Rightarrow> bytes \<Rightarrow> u32 \<Rightarrow> nat \<Rightarrow> nat option \<Rightarrow> bytes
    \<Rightarrow> bytes + (u32 \<times> nat \<times> nat option \<times> bytes)" where
  "decode_loop outputMaxLen [] queue numBits val out = Inr (queue, numBits, val, out)"
| "decode_loop outputMaxLen (c # cs) queue numBits val out =
     (let d = DECODE_TABLE ! unat c in
      if d = - 1 then decode_loop outputMaxLen cs queue numBits val out
      else
        (case val of
           None \<Rightarrow> decode_loop outputMaxLen cs queue numBits (Some (nat d)) out
         | Some v \<Rightarrow>
             (let v = v + nat d * 91;
                  queue = queue OR push_bit numBits (of_nat v);
                  numBits = numBits + (if 88 < v mod 8192 then 13 else 14)
              in (case decode_flush outputMaxLen queue numBits out of
                    Inl out \<Rightarrow> Inl out
                  | Inr (queue, numBits, out) \<Rightarrow>
                      decode_loop outputMaxLen cs queue numBits None out))))"

definition decode_finish :: "nat \<Rightarrow> u32 \<times> nat \<times> nat option \<times> bytes \<Rightarrow> bytes + bytes" where
  "decode_finish outputMaxLen s =
     (case s of (queue, numBits, val, out) \<Rightarrow>
        (case val of
           None \<Rightarrow> Inr out
         | Some v \<Rightarrow>
             if outputMaxLen \<le> length out then Inl out
             else Inr (out @ [ucast ((queue OR push_bit numBits (of_nat v)) AND 255)])))"

text \<open>\<open>input\<close> is the memory the pointer points to: the loop stops at its first NUL.\<close>

definition Base91_decode :: "bytes option \<Rightarrow> bool \<Rightarrow> nat \<Rightarrow> nat \<times> bytes" where
  "Base91_decode input output_null outputMaxLen =
     (case input of
        None \<Rightarrow> (0, [])
      | Some mem \<Rightarrow>
          if output_null \<or> outputMaxLen = 0 then (0, [])
          else
            (case decode_loop outputMaxLen (c_str mem) 0 0 None [] of
               Inl out \<Rightarrow> (0, out)
             | Inr s \<Rightarrow>
                 (case decode_finish outputMaxLen s of
                    Inl out \<Rightarrow> (0, out)
                  | Inr out \<Rightarrow> (length out, out))))"

section \<open>Size estimates\<close>

definition encodedSize :: "nat \<Rightarrow> nat" where
  "encodedSize inputLen = (inputLen * 16 + 12) div 13 + 1"

definition decodedSize :: "nat \<Rightarrow> nat" where
  "decodedSize encodedLen = (encodedLen * 13 + 15) div 16 + 1"

section \<open>The tables are inverse to each other\<close>

lemma ALPHABET_list: "ALPHABET =
    [65, 66, 67, 68, 69, 70, 71, 72, 73, 74, 75, 76, 77, 78, 79, 80, 81, 82,
     83, 84, 85, 86, 87, 88, 89, 90, 97, 98, 99, 100, 101, 102, 103, 104, 105,
     106, 107, 108, 109, 110, 111, 112, 113, 114, 115, 116, 117, 118, 119, 120,
     121, 122, 48, 49, 50, 51, 52, 53, 54, 55, 56, 57, 33, 35, 36, 37, 38, 40,
     41, 42, 43, 44, 46, 47, 58, 59, 60, 61, 62, 63, 64, 91, 93, 94, 95, 96,
     123, 124, 125, 126, 45]"
  by (simp add: ALPHABET_def str_def)

lemma length_ALPHABET [simp]: "length ALPHABET = 91"
  by (simp add: ALPHABET_list)

lemma length_DECODE_TABLE [simp]: "length DECODE_TABLE = 256"
  by (simp add: DECODE_TABLE_def)

lemma DECODE_TABLE_range: "\<forall>c \<in> set DECODE_TABLE. - 1 \<le> c \<and> c \<le> 90"
  by (simp add: DECODE_TABLE_def)

lemma DECODE_ALPHABET: "map (\<lambda>a. DECODE_TABLE ! unat a) ALPHABET = map int [0..<91]"
  by (simp add: DECODE_TABLE_def ALPHABET_list upt_conv_Cons)

lemma DECODE_TABLE_nth [simp]: "i < 91 \<Longrightarrow> DECODE_TABLE ! unat (ALPHABET ! i) = int i"
  using arg_cong [OF DECODE_ALPHABET, of "\<lambda>l. l ! i"] by simp

lemma DECODE_TABLE_entries:
  "list_all (\<lambda>(i, d). d = - 1 \<or> unat (ALPHABET ! nat d) = i) (List.enumerate 0 DECODE_TABLE)"
  by (simp add: DECODE_TABLE_def ALPHABET_list)

lemma DECODE_TABLE_invalid: "c \<notin> set ALPHABET \<Longrightarrow> DECODE_TABLE ! unat c = - 1"
proof (rule ccontr)
  assume c: "c \<notin> set ALPHABET" and d: "DECODE_TABLE ! unat c \<noteq> - 1"
  have i: "unat c < length DECODE_TABLE" by simp
  then have "List.enumerate 0 DECODE_TABLE ! unat c = (unat c, DECODE_TABLE ! unat c)"
    by (simp add: nth_enumerate_eq)
  moreover have "List.enumerate 0 DECODE_TABLE ! unat c \<in> set (List.enumerate 0 DECODE_TABLE)"
    using i by (intro nth_mem) simp
  ultimately have "unat (ALPHABET ! nat (DECODE_TABLE ! unat c)) = unat c"
    using DECODE_TABLE_entries d by (force simp: list_all_iff)
  moreover have "nat (DECODE_TABLE ! unat c) < length ALPHABET"
    using bspec [OF DECODE_TABLE_range nth_mem [OF i]] by simp arith
  ultimately show False
    using c by (metis nth_mem word_unat_eq_iff)
qed

lemma ALPHABET_safe: "a \<in> set ALPHABET \<Longrightarrow> 32 < a \<and> a < 127 \<and> a \<notin> {34, 39, 92}"
  by (simp add: ALPHABET_list) (elim disjE; simp)

declare ALPHABET_list [code]

section \<open>Reference encoder\<close>

text \<open>The characters \<open>encode\<close> produces when the buffer is large enough.\<close>

fun enc_chars :: "bytes \<Rightarrow> u32 \<Rightarrow> nat \<Rightarrow> bytes" where
  "enc_chars [] queue numBits =
     (if 0 < numBits then
        ALPHABET ! unat (queue mod 91) #
        (if 7 < numBits \<or> 90 < queue then [ALPHABET ! unat (queue div 91)] else [])
      else [])"
| "enc_chars (x # xs) queue numBits =
     (let queue = queue OR push_bit numBits (ucast x); numBits = numBits + 8 in
      if 13 < numBits then
        (let (val, queue, numBits) = encode_group queue numBits in
         ALPHABET ! unat (val mod 91) # ALPHABET ! unat (val div 91) # enc_chars xs queue numBits)
      else enc_chars xs queue numBits)"

definition encode_run :: "nat \<Rightarrow> bytes \<Rightarrow> u32 \<Rightarrow> nat \<Rightarrow> bytes \<Rightarrow> bytes + bytes" where
  "encode_run M xs queue numBits out =
     (case encode_loop M xs queue numBits out of
        Inl out \<Rightarrow> Inl out
      | Inr (queue, numBits, out) \<Rightarrow> encode_tail M queue numBits out)"

lemma encode_run_Nil: "encode_run M [] q nb out = encode_tail M q nb out"
  by (simp add: encode_run_def)

lemma encode_run_enough:
  "length out + length (enc_chars xs q nb) < M \<Longrightarrow>
     encode_run M xs q nb out = Inr (out @ enc_chars xs q nb)"
proof (induction xs arbitrary: q nb out)
  case Nil
  then show ?case
    by (auto simp: encode_run_def encode_tail_def Let_def split: if_splits)
next
  case (Cons x xs)
  show ?case
    using Cons.prems Cons.IH
    by (auto simp: encode_run_def Let_def split: if_splits prod.splits)
qed

lemma encode_run_short:
  "length out < M \<Longrightarrow> M \<le> length out + length (enc_chars xs q nb) \<Longrightarrow>
     \<exists>p. encode_run M xs q nb out = Inl p \<and> length p < M"
proof (induction xs arbitrary: q nb out)
  case Nil
  then show ?case
    by (auto simp: encode_run_def encode_tail_def Let_def split: if_splits)
next
  case (Cons x xs)
  show ?case
    using Cons.prems Cons.IH
    by (auto simp: encode_run_def Let_def split: if_splits prod.splits)
qed

lemma Base91_encode_run:
  "0 < M \<Longrightarrow> Base91_encode (Some xs) False M =
     (case encode_run M xs 0 0 [] of Inl out \<Rightarrow> (0, out) | Inr out \<Rightarrow> (length out, out @ [0]))"
  by (auto simp: Base91_encode_def encode_run_def split: sum.splits prod.splits)

lemma Base91_encode_enough:
  "length (enc_chars xs 0 0) < M \<Longrightarrow>
     Base91_encode (Some xs) False M = (length (enc_chars xs 0 0), enc_chars xs 0 0 @ [0])"
  using encode_run_enough [of "[]" xs 0 0 M] by (simp add: Base91_encode_run)

lemma Base91_encode_success:
  assumes "Base91_encode (Some xs) False M = (n, buf)" "0 < n" "0 < M"
  shows "length (enc_chars xs 0 0) < M" "buf = enc_chars xs 0 0 @ [0]" "n = length (enc_chars xs 0 0)"
proof -
  show less: "length (enc_chars xs 0 0) < M"
  proof (rule ccontr)
    assume "\<not> length (enc_chars xs 0 0) < M"
    then obtain p where "encode_run M xs 0 0 [] = Inl p"
      using encode_run_short [of "[]" M xs 0 0] assms(3) by auto
    then show False using assms by (simp add: Base91_encode_run)
  qed
  show "buf = enc_chars xs 0 0 @ [0]" "n = length (enc_chars xs 0 0)"
    using Base91_encode_enough [OF less] assms(1) by auto
qed

lemma enc_chars_not_Nil: "0 < nb \<or> xs \<noteq> [] \<Longrightarrow> enc_chars xs q nb \<noteq> []"
proof (induction xs arbitrary: q nb)
  case (Cons x xs)
  show ?case
    using Cons.IH [of "nb + 8"] by (auto simp: Let_def split: prod.splits)
qed simp

section \<open>Groups as numbers\<close>

lemma and_8191 [word_to_nat]: "unat (q AND 8191) = unat q mod 8192" for q :: u32
  using unat_and_mask_mod [of q 13] by (simp add: mask_eq_exp_minus_1)

lemma and_16383 [word_to_nat]: "unat (q AND 16383) = unat q mod 16384" for q :: u32
  using unat_and_mask_mod [of q 14] by (simp add: mask_eq_exp_minus_1)

lemma and_255 [word_to_nat]: "unat (q AND 255) = unat q mod 256" for q :: u32
  using unat_and_mask_mod [of q 8] by (simp add: mask_eq_exp_minus_1)

lemma encode_group_cases:
  assumes "encode_group q nb = (val, q', nb')" "unat q < 2 ^ nb"
  obtains w where "w \<in> {13, 14}" "unat val = unat q mod 2 ^ w" "unat q' = unat q div 2 ^ w"
    "nb' = nb - w" "(88 < unat val mod 8192) = (w = 13)" "unat val < 8281"
proof (cases "88 < q AND 8191")
  case True
  then have "88 < unat q mod 8192"
    by (simp add: word_less_nat_alt and_8191)
  with True assms that [of 13] show ?thesis
    by (auto simp: encode_group_def Let_def and_8191 unat_drop_bit_div)
next
  case False
  then have le: "unat q mod 8192 \<le> 88"
    by (simp add: word_less_nat_alt and_8191)
  have eq: "unat q mod 16384 mod 8192 = unat q mod 8192"
    by (simp add: mod_mod_cancel)
  moreover have "unat q mod 16384 < 8281"
  proof -
    have "unat q mod 16384 = 8192 * (unat q div 8192 mod 2) + unat q mod 8192"
      using mod_mult2_eq [of "unat q" 8192 2] by simp
    with le show ?thesis by linarith
  qed
  ultimately show ?thesis
    using False assms that [of 14] le
    by (auto simp: encode_group_def Let_def and_16383 unat_drop_bit_div)
qed

lemma encode_push:
  fixes q :: u32
  assumes "unat q < 2 ^ nb" "nb \<le> 13"
  shows "unat (q OR push_bit nb (ucast x)) = unat q + 2 ^ nb * unat (x :: u8)"
    and "unat (q OR push_bit nb (ucast x)) < 2 ^ (nb + 8)"
proof -
  have x: "unat x < 256" by simp
  have "unat (ucast x :: u32) * 2 ^ nb < 2 ^ LENGTH(32)"
  proof -
    have "unat x * 2 ^ nb < 256 * 2 ^ nb" using x by simp
    also have "\<dots> \<le> 256 * 2 ^ 13" using assms(2) by (intro mult_left_mono power_increasing) auto
    finally show ?thesis by simp
  qed
  then show eq: "unat (q OR push_bit nb (ucast x)) = unat q + 2 ^ nb * unat x"
    using unat_or_push [OF assms(1), of "ucast x"] by simp
  have "unat q + 2 ^ nb * unat x < 2 ^ nb + 2 ^ nb * 255"
    using assms(1) by (intro add_less_le_mono mult_left_mono) auto
  then show "unat (q OR push_bit nb (ucast x)) < 2 ^ (nb + 8)"
    by (simp add: eq power_add)
qed

section \<open>Flushing whole bytes\<close>

lemma decode_flush_enough:
  "length out + nb div 8 \<le> M \<Longrightarrow>
   decode_flush M q nb out =
     Inr (drop_bit (8 * (nb div 8)) q, nb mod 8, out @ le_bytes (nb div 8) (unat q))"
proof (induction M q nb out rule: decode_flush.induct)
  case (1 M q nb out)
  show ?case
  proof (cases "8 \<le> nb")
    case True
    then have div: "nb div 8 = Suc ((nb - 8) div 8)" and mod: "nb mod 8 = (nb - 8) mod 8"
      by (simp_all add: le_div_geq le_mod_geq)
    have byte: "ucast (q AND 255) = (of_nat (unat q mod 256) :: u8)"
      by (simp add: word_unat_eq_iff unat_ucast_mod and_255 unat_of_nat)
    show ?thesis
      using True "1.prems" "1.IH" div mod byte
      by (subst decode_flush.simps) (simp add: unat_drop_bit_div ac_simps)
  next
    case False
    then show ?thesis by (subst decode_flush.simps) simp
  qed
qed

lemma decode_flush_bound:
  "length out \<le> M \<Longrightarrow>
   (case decode_flush M q nb out of Inl o' \<Rightarrow> length o' \<le> M | Inr (_, _, o') \<Rightarrow> length o' \<le> M)"
proof (induction M q nb out rule: decode_flush.induct)
  case (1 M q nb out)
  then show ?case
    by (subst decode_flush.simps) simp
qed

section \<open>Round trip\<close>

definition decode_run :: "nat \<Rightarrow> bytes \<Rightarrow> u32 \<Rightarrow> nat \<Rightarrow> bytes \<Rightarrow> bytes + bytes" where
  "decode_run M cs queue numBits out =
     (case decode_loop M cs queue numBits None out of
        Inl out \<Rightarrow> Inl out
      | Inr s \<Rightarrow> decode_finish M s)"

lemma decode_run_Nil [simp]: "decode_run M [] q nb out = Inr out"
  by (simp add: decode_run_def decode_finish_def)

lemma decode_run_single:
  "v < 91 \<Longrightarrow> decode_run M [ALPHABET ! v] q nb out =
     (if M \<le> length out then Inl out
      else Inr (out @ [ucast ((q OR push_bit nb (of_nat v)) AND 255)]))"
  by (simp add: decode_run_def decode_finish_def)

lemma decode_run_pair:
  assumes "v < 8281"
  shows "decode_run M (ALPHABET ! (v mod 91) # ALPHABET ! (v div 91) # cs) q nb out =
     (case decode_flush M (q OR push_bit nb (of_nat v))
             (nb + (if 88 < v mod 8192 then 13 else 14)) out of
        Inl out \<Rightarrow> Inl out
      | Inr (q, nb, out) \<Rightarrow> decode_run M cs q nb out)"
proof -
  have "v div 91 < 91" using assms by (simp add: less_mult_imp_div_less)
  then show ?thesis
    by (simp add: decode_run_def Let_def split: sum.splits prod.splits)
qed

lemma decode_push:
  fixes q :: u32
  assumes "unat q < 2 ^ nb" "nb < 8" "v < 2 ^ 14"
  shows "unat (q OR push_bit nb (of_nat v)) = unat q + 2 ^ nb * v"
proof -
  have v: "unat (of_nat v :: u32) = v"
    using assms(3) by (simp add: unat_of_nat)
  have "v * 2 ^ nb < 2 ^ 14 * 2 ^ nb" using assms(3) by simp
  also have "\<dots> \<le> 2 ^ 14 * 2 ^ (8::nat)"
    using assms(2) by (intro mult_left_mono power_increasing) auto
  finally have "unat (of_nat v :: u32) * 2 ^ nb < 2 ^ LENGTH(32)" by (simp add: v)
  from unat_or_push [OF assms(1) this] show ?thesis by (simp add: v)
qed

text \<open>Decoding one whole group moves its \<open>w\<close> bits to the output and the decoder queue.\<close>

lemma decode_run_group:
  assumes "unat dq < 2 ^ db" "db < 8" "v < 8281" "(88 < v mod 8192) = (w = 13)" "w \<in> {13, 14}"
    "v < 2 ^ w" "length out + (db + w) div 8 \<le> M"
  defines "dv \<equiv> unat dq + 2 ^ db * v"
  obtains dq' where
    "decode_run M (ALPHABET ! (v mod 91) # ALPHABET ! (v div 91) # cs) dq db out =
       decode_run M cs dq' ((db + w) mod 8) (out @ le_bytes ((db + w) div 8) dv)"
    "unat dq' = dv div 256 ^ ((db + w) div 8)" "unat dq' < 2 ^ ((db + w) mod 8)"
proof -
  define Q where "Q = dq OR push_bit db (of_nat v)"
  define j where "j = (db + w) div 8"
  have w: "(if 88 < v mod 8192 then 13 else 14) = w"
    using assms(4,5) by auto
  have Q: "unat Q = dv"
    unfolding Q_def dv_def using assms(1-3) by (intro decode_push) auto
  have run: "decode_run M (ALPHABET ! (v mod 91) # ALPHABET ! (v div 91) # cs) dq db out =
      decode_run M cs (drop_bit (8 * j) Q) ((db + w) mod 8) (out @ le_bytes j dv)"
    using assms(3,7) decode_flush_enough [of out "db + w" M Q] w
    by (simp add: decode_run_pair Q_def [symmetric] Q j_def [symmetric])
  have "(256::nat) ^ j = 2 ^ (8 * j)" by (simp add: power_mult)
  then have drop: "unat (drop_bit (8 * j) Q) = dv div 256 ^ j"
    by (simp add: unat_drop_bit_div Q)
  have "dv < 2 ^ db + 2 ^ db * (2 ^ w - 1)"
    unfolding dv_def using assms(1,6) by (intro add_less_le_mono mult_left_mono) auto
  also have "\<dots> = 2 ^ (db + w)" by (simp add: power_add diff_mult_distrib2)
  also have "\<dots> = 2 ^ ((db + w) mod 8) * 256 ^ j"
    by (metis \<open>256 ^ j = 2 ^ (8 * j)\<close> j_def mod_mult_div_eq power_add)
  finally have "dv div 256 ^ j < 2 ^ ((db + w) mod 8)"
    by (simp add: less_mult_imp_div_less)
  with run drop that show ?thesis by (simp add: j_def)
qed

lemma le_bytes_group:
  assumes "j = (db + w) div 8"
  shows "le_bytes (j + m) (a + 2 ^ db * Q) =
     le_bytes j (a + 2 ^ db * (Q mod 2 ^ w)) @
     le_bytes m ((a + 2 ^ db * (Q mod 2 ^ w)) div 256 ^ j + 2 ^ ((db + w) mod 8) * (Q div 2 ^ w))"
proof -
  define dv where "dv = a + 2 ^ db * (Q mod 2 ^ w)"
  have "(256::nat) ^ j = 2 ^ (8 * j)" by (simp add: power_mult)
  then have pow: "(2::nat) ^ (db + w) = 256 ^ j * 2 ^ ((db + w) mod 8)"
    by (metis assms mult_div_mod_eq power_add)
  have "a + 2 ^ db * Q = dv + 2 ^ (db + w) * (Q div 2 ^ w)"
    unfolding dv_def
    by (metis (no_types, lifting) add.assoc add.commute distrib_left mult.assoc mult_div_mod_eq power_add)
  then have V: "a + 2 ^ db * Q = dv + 256 ^ j * (2 ^ ((db + w) mod 8) * (Q div 2 ^ w))"
    by (simp add: pow mult.assoc)
  have "le_bytes j (a + 2 ^ db * Q) = le_bytes j dv"
    using le_bytes_mod [of j "a + 2 ^ db * Q"] le_bytes_mod [of j dv] by (simp add: V)
  moreover have "(a + 2 ^ db * Q) div 256 ^ j = dv div 256 ^ j + 2 ^ ((db + w) mod 8) * (Q div 2 ^ w)"
    by (simp add: V)
  ultimately show ?thesis by (simp add: le_bytes_add dv_def)
qed

lemma div_mod_shift:
  fixes db nb w :: nat
  assumes "(db + nb) mod 8 = 0" "w \<le> nb + 8"
  shows "Suc ((db + nb) div 8) = (db + w) div 8 + ((db + w) mod 8 + (nb + 8 - w)) div 8"
    and "((db + w) mod 8 + (nb + 8 - w)) mod 8 = 0"
proof -
  define j k where "j = (db + w) div 8" and "k = (db + nb) div 8"
  have "db + w = 8 * j + (db + w) mod 8" and "db + nb = 8 * k"
    using assms(1) by (simp_all add: j_def k_def mult.commute mod_0_imp_dvd)
  then have eq: "(db + w) mod 8 + (nb + 8 - w) = 8 * (Suc k - j)" and "j \<le> Suc k"
    using assms(2) by linarith+
  then show "Suc ((db + nb) div 8) = (db + w) div 8 + ((db + w) mod 8 + (nb + 8 - w)) div 8"
    unfolding k_def [symmetric] j_def [symmetric] eq by simp
  show "((db + w) mod 8 + (nb + 8 - w)) mod 8 = 0"
    unfolding eq by simp
qed

lemma tail_pair_bytes:
  fixes db nb w :: nat
  assumes "(db + nb) mod 8 = 0" "db < 8" "7 \<le> nb" "nb \<le> 13" "w \<in> {13, 14}"
  shows "(db + w) div 8 = (db + nb) div 8"
  using assms by (auto; presburger)

lemma decode_enc_chars:
  assumes "unat q < 2 ^ nb" "nb \<le> 13" "unat dq < 2 ^ db" "db < 8" "(db + nb) mod 8 = 0"
    "length out + (db + nb) div 8 + length xs \<le> M"
  shows "decode_run M (enc_chars xs q nb) dq db out =
     Inr (out @ le_bytes ((db + nb) div 8) (unat dq + 2 ^ db * unat q) @ xs)"
  using assms
proof (induction xs arbitrary: q nb dq db out)
  case Nil
  consider (none) "nb = 0" | (one) "0 < nb" "nb \<le> 7" "q \<le> 90" | (two) "7 < nb \<or> 90 < q" "0 < nb"
    by (meson linorder_not_less neq0_conv)
  then show ?case
  proof cases
    case none
    with Nil.prems show ?thesis by simp
  next
    case one
    then have q: "unat q < 91" by (simp add: word_le_nat_alt)
    then have qm: "unat (q mod 91) = unat q" by (simp add: unat_mod)
    from Nil.prems(4,5) one(1,2) have dn: "db + nb = 8" by presburger
    have "ucast ((dq OR push_bit db (of_nat (unat q))) AND 255) =
        (of_nat ((unat dq + 2 ^ db * unat q) mod 256) :: u8)"
      using Nil.prems q decode_push [of dq db "unat q"]
      by (simp add: word_unat_eq_iff unat_ucast_mod and_255 unat_of_nat)
    moreover have "\<not> 90 < q" using one(3) by (simp add: not_less)
    ultimately show ?thesis
      using one(1,2) Nil.prems q qm dn by (simp add: decode_run_single)
  next
    case two
    define w :: nat where "w = (if 88 < unat q mod 8192 then 13 else 14)"
    have nb: "7 \<le> nb"
    proof (rule ccontr)
      assume "\<not> 7 \<le> nb"
      then have "nb \<le> 6" by simp
      then have "(2::nat) ^ nb \<le> 2 ^ 6" by (intro power_increasing) auto
      with two Nil.prems(1) \<open>nb \<le> 6\<close> show False by (simp add: word_less_nat_alt)
    qed
    have "(2::nat) ^ nb \<le> 2 ^ 13" using Nil.prems(2) by (intro power_increasing) auto
    then have q: "unat q < 8192" using Nil.prems(1) by simp
    then have w: "w \<in> {13, 14}" "(88 < unat q mod 8192) = (w = 13)" "unat q < 2 ^ w"
      by (auto simp: w_def)
    have j: "(db + w) div 8 = (db + nb) div 8"
      using Nil.prems nb w by (intro tail_pair_bytes) auto
    obtain dq' where
      "decode_run M [ALPHABET ! (unat q mod 91), ALPHABET ! (unat q div 91)] dq db out =
       decode_run M [] dq' ((db + w) mod 8)
         (out @ le_bytes ((db + w) div 8) (unat dq + 2 ^ db * unat q))"
      using decode_run_group [of dq db "unat q" w out M "[]"] Nil.prems q w j by auto
    with two show ?thesis
      by (simp add: j unat_mod unat_div)
  qed
next
  case (Cons x xs)
  define Q where "Q = q OR push_bit nb (ucast x)"
  define k where "k = (db + nb) div 8"
  have Q: "unat Q = unat q + 2 ^ nb * unat x" and Q_less: "unat Q < 2 ^ (nb + 8)"
    unfolding Q_def using Cons.prems by (intro encode_push; simp)+
  have "(256::nat) ^ k = 2 ^ (8 * k)" by (simp add: power_mult)
  moreover have dn: "db + nb = 8 * k" using Cons.prems(5) by (simp add: k_def mult.commute mod_0_imp_dvd)
  ultimately have pow: "(2::nat) ^ db * 2 ^ nb = 256 ^ k" by (simp add: power_add [symmetric])
  have "unat dq + 2 ^ db * unat q < 2 ^ db + 2 ^ db * (2 ^ nb - 1)"
    using Cons.prems by (intro add_less_le_mono mult_left_mono) auto
  also have "\<dots> = 256 ^ k" by (simp add: pow [symmetric] diff_mult_distrib2)
  finally have snoc: "le_bytes (Suc k) (unat dq + 2 ^ db * unat Q) =
      le_bytes k (unat dq + 2 ^ db * unat q) @ [x]"
    using le_bytes_snoc [of "unat dq + 2 ^ db * unat q" k x]
    by (simp add: Q distrib_left mult.assoc [symmetric] pow add.assoc)
  show ?case
  proof (cases "13 < nb + 8")
    case False
    then have "decode_run M (enc_chars (x # xs) q nb) dq db out =
        decode_run M (enc_chars xs Q (nb + 8)) dq db out"
      by (simp add: Let_def Q_def)
    also have "\<dots> = Inr (out @ le_bytes ((db + (nb + 8)) div 8) (unat dq + 2 ^ db * unat Q) @ xs)"
    proof (rule Cons.IH)
      show "(db + (nb + 8)) mod 8 = 0" using Cons.prems(5) by presburger
    qed (use Cons.prems False Q_less in auto)
    also have "(db + (nb + 8)) div 8 = Suc k" by (simp add: k_def)
    finally show ?thesis by (simp add: snoc [unfolded k_def] k_def del: le_bytes.simps enc_chars.simps)
  next
    case True
    obtain val q' nb' where g: "encode_group Q (nb + 8) = (val, q', nb')"
      by (cases "encode_group Q (nb + 8)") auto
    obtain w where w: "w \<in> {13, 14}" "unat val = unat Q mod 2 ^ w" "unat q' = unat Q div 2 ^ w"
      "nb' = nb + 8 - w" "(88 < unat val mod 8192) = (w = 13)" "unat val < 8281"
      using encode_group_cases [OF g Q_less] by metis
    define j where "j = (db + w) div 8"
    define dv where "dv = unat dq + 2 ^ db * unat val"
    have enough: "length out + (db + w) div 8 \<le> M"
      using Cons.prems(6) div_mod_shift(1) [OF Cons.prems(5), of w] True w(1) by auto
    have valw: "unat val < 2 ^ w" by (simp add: w(2))
    obtain dq' where dq':
      "decode_run M (ALPHABET ! (unat val mod 91) # ALPHABET ! (unat val div 91) # enc_chars xs q' nb') dq db out =
         decode_run M (enc_chars xs q' nb') dq' ((db + w) mod 8) (out @ le_bytes j dv)"
      "unat dq' = dv div 256 ^ j" "unat dq' < 2 ^ ((db + w) mod 8)"
      using decode_run_group [OF Cons.prems(3,4) w(6,5,1) valw enough] unfolding j_def dv_def by metis
    have wle: "w \<le> nb + 8" using True w(1) by auto
    note shift = div_mod_shift [OF Cons.prems(5) wle]
    have "decode_run M (enc_chars (x # xs) q nb) dq db out =
        decode_run M (enc_chars xs q' nb') dq' ((db + w) mod 8) (out @ le_bytes j dv)"
      using True g by (simp add: Let_def Q_def unat_mod unat_div flip: dq'(1))
    also have "\<dots> = Inr ((out @ le_bytes j dv) @
        le_bytes (((db + w) mod 8 + nb') div 8) (unat dq' + 2 ^ ((db + w) mod 8) * unat q') @ xs)"
    proof (rule Cons.IH)
      show "unat q' < 2 ^ nb'"
        using Q_less wle w(3,4) by (simp add: less_mult_imp_div_less power_add [symmetric])
      show "nb' \<le> 13" using w(1,4) Cons.prems(2) by auto
      show "((db + w) mod 8 + nb') mod 8 = 0" using shift(2) by (simp add: w(4))
      show "length (out @ le_bytes j dv) + ((db + w) mod 8 + nb') div 8 + length xs \<le> M"
        using Cons.prems(6) shift(1) by (simp add: w(4) j_def)
    qed (use dq' in simp_all)
    also have "\<dots> = Inr (out @ le_bytes (Suc k) (unat dq + 2 ^ db * unat Q) @ xs)"
      using le_bytes_group [OF j_def, of "((db + w) mod 8 + nb') div 8" "unat dq" "unat Q"] shift(1)
      by (simp add: dv_def dq'(2) w(2-4) j_def k_def del: le_bytes.simps)
    finally show ?thesis by (simp add: snoc [unfolded k_def] k_def del: le_bytes.simps enc_chars.simps)
  qed
qed

lemma enc_chars_alphabet:
  "unat q < 2 ^ nb \<Longrightarrow> nb \<le> 13 \<Longrightarrow> set (enc_chars xs q nb) \<subseteq> set ALPHABET"
proof (induction xs arbitrary: q nb)
  case Nil
  have "(2::nat) ^ nb \<le> 2 ^ 13" using Nil.prems(2) by (intro power_increasing) auto
  then have "unat q < 91 * 91" using Nil.prems(1) by simp
  then have "unat q div 91 < 91" by (rule less_mult_imp_div_less)
  then show ?case by (auto simp: unat_mod unat_div)
next
  case (Cons x xs)
  define Q where "Q = q OR push_bit nb (ucast x)"
  have Q_less: "unat Q < 2 ^ (nb + 8)"
    unfolding Q_def using Cons.prems by (intro encode_push)
  show ?case
  proof (cases "13 < nb + 8")
    case False
    then show ?thesis
      using Cons.IH [of Q "nb + 8"] Q_less by (simp add: Let_def Q_def)
  next
    case True
    obtain val q' nb' where g: "encode_group Q (nb + 8) = (val, q', nb')"
      by (cases "encode_group Q (nb + 8)") auto
    obtain w where w: "w \<in> {13, 14}" "unat val = unat Q mod 2 ^ w" "unat q' = unat Q div 2 ^ w"
      "nb' = nb + 8 - w" "(88 < unat val mod 8192) = (w = 13)" "unat val < 8281"
      using encode_group_cases [OF g Q_less] by metis
    have wle: "w \<le> nb + 8" using True w(1) by auto
    have "unat q' < 2 ^ nb'"
      using Q_less wle w(3,4) by (simp add: less_mult_imp_div_less power_add [symmetric])
    moreover have "nb' \<le> 13" using w(1,4) Cons.prems(2) by auto
    moreover have "unat val div 91 < 91" using w(6) by (simp add: less_mult_imp_div_less)
    ultimately show ?thesis
      using True g Cons.IH [of q' nb'] by (auto simp: Let_def Q_def unat_mod unat_div)
  qed
qed

lemma tail_nb_ge_7:
  fixes q :: u32
  assumes "unat q < 2 ^ nb" "90 < q"
  shows "7 \<le> nb"
proof (rule ccontr)
  assume "\<not> 7 \<le> nb"
  then have "(2::nat) ^ nb \<le> 2 ^ 6" by (intro power_increasing) auto
  with assms show False by (simp add: word_less_nat_alt)
qed

lemma enc_chars_length:
  "unat q < 2 ^ nb \<Longrightarrow> nb \<le> 13 \<Longrightarrow>
     13 * length (enc_chars xs q nb) \<le> 2 * (nb + 8 * length xs) + 12"
proof (induction xs arbitrary: q nb)
  case Nil
  then show ?case using tail_nb_ge_7 [of q nb] by auto
next
  case (Cons x xs)
  define Q where "Q = q OR push_bit nb (ucast x)"
  have Q_less: "unat Q < 2 ^ (nb + 8)"
    unfolding Q_def using Cons.prems by (intro encode_push)
  show ?case
  proof (cases "13 < nb + 8")
    case False
    then show ?thesis
      using Cons.IH [of Q "nb + 8"] Q_less by (simp add: Let_def Q_def)
  next
    case True
    obtain val q' nb' where g: "encode_group Q (nb + 8) = (val, q', nb')"
      by (cases "encode_group Q (nb + 8)") auto
    obtain w where w: "w \<in> {13, 14}" "unat q' = unat Q div 2 ^ w" "nb' = nb + 8 - w"
      using encode_group_cases [OF g Q_less] by metis
    have wle: "w \<le> nb + 8" using True w(1) by auto
    have "unat q' < 2 ^ nb'"
      using Q_less wle w(2,3) by (simp add: less_mult_imp_div_less power_add [symmetric])
    then have "13 * length (enc_chars xs q' nb') \<le> 2 * (nb' + 8 * length xs) + 12"
      using w(1,3) Cons.prems(2) by (intro Cons.IH) auto
    then show ?thesis
      using True g w(1,3) by (auto simp: Let_def Q_def)
  qed
qed

lemma decode_run_filter:
  "decode_loop M cs q nb v out = decode_loop M (filter (\<lambda>c. c \<in> set ALPHABET) cs) q nb v out"
proof (induction cs arbitrary: q nb v out)
  case (Cons c cs)
  have IH: "decode_loop M (filter (\<lambda>c. c \<in> set ALPHABET) cs) = decode_loop M cs"
    by (intro ext) (rule Cons.IH [symmetric])
  show ?case
  proof (cases "c \<in> set ALPHABET")
    case True
    then have "filter (\<lambda>c. c \<in> set ALPHABET) (c # cs) = c # filter (\<lambda>c. c \<in> set ALPHABET) cs"
      by simp
    then show ?thesis
      unfolding decode_loop.simps IH by (simp only: decode_loop.simps IH)
  next
    case False
    then show ?thesis
      using Cons.IH [of q nb v out] by (simp add: DECODE_TABLE_invalid)
  qed
qed simp

lemma decode_loop_bound:
  assumes "length out \<le> M"
  shows "case decode_loop M cs q nb v out of
      Inl o' \<Rightarrow> length o' \<le> M
    | Inr (_, _, _, o') \<Rightarrow> length o' \<le> M"
  using assms
proof (induction cs arbitrary: q nb v out)
  case (Cons c cs)
  show ?case
  proof (cases "DECODE_TABLE ! unat c = - 1 \<or> v = None")
    case True
    with Cons.IH [OF Cons.prems] show ?thesis by (elim disjE) (simp_all add: Let_def)
  next
    case False
    then obtain n where v: "v = Some n" by auto
    define n' where "n' = n + nat (DECODE_TABLE ! unat c) * 91"
    define fl where "fl = decode_flush M (q OR push_bit nb (of_nat n'))
      (nb + (if 88 < n' mod 8192 then 13 else 14)) out"
    have loop: "decode_loop M (c # cs) q nb v out =
        (case fl of Inl out \<Rightarrow> Inl out | Inr (q, nb, out) \<Rightarrow> decode_loop M cs q nb None out)"
      using False by (simp only: decode_loop.simps v Let_def fl_def n'_def option.simps) simp
    have "case fl of Inl o' \<Rightarrow> length o' \<le> M | Inr (_, _, o') \<Rightarrow> length o' \<le> M"
      unfolding fl_def by (rule decode_flush_bound [OF Cons.prems])
    then show ?thesis
      unfolding loop using Cons.IH by (cases fl) auto
  qed
qed simp

section \<open>The text codec of the mesh transport\<close>

definition b91_enc :: "bytes \<Rightarrow> nat \<Rightarrow> bytes option" where
  "b91_enc xs M =
     (let r = Base91_encode (Some xs) False M in if 0 < fst r then Some (snd r) else None)"

definition b91_dec :: "bytes \<Rightarrow> nat \<Rightarrow> bytes option" where
  "b91_dec mem M =
     (let r = Base91_decode (Some mem) False M in
      if 0 < fst r then Some (take (fst r) (snd r)) else None)"

lemma b91_enc_SomeD:
  assumes "b91_enc xs M = Some t"
  shows "t = enc_chars xs 0 0 @ [0]" "length (enc_chars xs 0 0) < M" "xs \<noteq> []"
    "c_str t = enc_chars xs 0 0"
proof -
  obtain n where n: "Base91_encode (Some xs) False M = (n, t)" "0 < n"
    using assms by (cases "Base91_encode (Some xs) False M") (auto simp: b91_enc_def Let_def split: if_splits)
  then have "0 < M" by (cases M) (auto simp: Base91_encode_def)
  with n show t: "t = enc_chars xs 0 0 @ [0]" and less: "length (enc_chars xs 0 0) < M"
    using Base91_encode_success [OF n(1)] by auto
  show "xs \<noteq> []" using Base91_encode_success [OF n(1)] n(2) \<open>0 < M\<close> by auto
  have "0 \<notin> set (enc_chars xs 0 0)"
    using enc_chars_alphabet [of 0 0 xs] ALPHABET_safe by force
  then show "c_str t = enc_chars xs 0 0" by (simp add: t c_str_terminated_append)
qed

lemma encodedSize_fits: "length (enc_chars xs 0 0) < encodedSize (length xs)"
  using enc_chars_length [of 0 0 xs]
  by (simp add: encodedSize_def less_eq_div_iff_mult_less_eq less_Suc_eq_le mult.commute)

lemma Base91_decode_c_str: "Base91_decode (Some mem) b M = Base91_decode (Some (c_str mem)) b M"
  by (simp add: Base91_decode_def c_str_ident)

lemma Base91_decode_enc_chars:
  assumes "xs \<noteq> []" "length xs \<le> M"
  shows "Base91_decode (Some (enc_chars xs 0 0 @ 0 # rest)) False M = (length xs, xs)"
proof -
  have "0 < M" using assms by (cases xs) auto
  have "0 \<notin> set (enc_chars xs 0 0)"
    using enc_chars_alphabet [of 0 0 xs] ALPHABET_safe by force
  then have mem: "c_str (enc_chars xs 0 0 @ 0 # rest) = enc_chars xs 0 0"
    by (rule c_str_terminated_append)
  have run: "decode_run M (enc_chars xs 0 0) 0 0 [] = Inr xs"
    using assms(2) decode_enc_chars [of 0 0 0 0 "[]" xs M] by simp
  have "Base91_decode (Some (enc_chars xs 0 0 @ 0 # rest)) False M =
      (case decode_run M (enc_chars xs 0 0) 0 0 [] of Inl out \<Rightarrow> (0, out) | Inr out \<Rightarrow> (length out, out))"
    using \<open>0 < M\<close> by (auto simp: Base91_decode_def decode_run_def mem split: sum.splits)
  then show ?thesis by (simp add: run)
qed

interpretation b91: text_codec b91_enc b91_dec encodedSize
proof
  fix xs :: bytes and M assume "xs \<noteq> []" "encodedSize (length xs) \<le> M"
  moreover from this have "length (enc_chars xs 0 0) < M"
    using encodedSize_fits [of xs] by simp
  moreover have "enc_chars xs 0 0 \<noteq> []"
    by (rule enc_chars_not_Nil) (simp_all add: \<open>xs \<noteq> []\<close>)
  ultimately show "b91_enc xs M \<noteq> None"
    by (simp add: b91_enc_def Base91_encode_enough)
next
  fix xs M t assume t: "b91_enc xs M = Some t"
  show "t = c_str t @ [0] \<and> length t \<le> M"
    using b91_enc_SomeD [OF t] by simp
  fix M' rest assume "length xs \<le> M'"
  then show "b91_dec (t @ rest) M' = Some xs"
    using b91_enc_SomeD [OF t] by (simp add: b91_dec_def Base91_decode_enc_chars)
next
  show "b91_dec mem M = b91_dec (c_str mem) M" for mem M
    unfolding b91_dec_def by (subst Base91_decode_c_str) simp
qed

section \<open>Properties\<close>

text \<open>C1: what \<open>encode\<close> puts in its buffer, \<open>decode\<close> gives back, byte for byte, for every
  non-empty input and whatever follows the terminator in memory.\<close>

theorem base91_roundtrip:
  assumes "Base91_encode (Some xs) False M = (n, buf)" "0 < n" "length xs \<le> M'"
  shows "Base91_decode (Some (buf @ rest)) False M' = (length xs, xs)"
proof -
  have "b91_enc xs M = Some buf"
    using assms(1,2) by (simp add: b91_enc_def)
  note t = b91_enc_SomeD [OF this]
  show ?thesis
    using Base91_decode_enc_chars [OF t(3) assms(3)] by (simp add: t(1))
qed

theorem base91_roundtrip_witness:
  "Base91_decode (Some (snd (Base91_encode (Some [0x0B, 0, 0xFF, 7]) False 32) @ [1, 2])) False 4
     = (4, [0x0B, 0, 0xFF, 7])"
proof -
  have enc: "Base91_encode (Some [0x0B, 0, 0xFF, 7]) False 32 =
      (5, snd (Base91_encode (Some [0x0B, 0, 0xFF, 7]) False 32))"
    by code_simp
  show ?thesis using base91_roundtrip [OF enc, of 4] by simp
qed

text \<open>the encoded text is printable ASCII without space, quotes and backslash, and its
  only NUL is the terminator, so \<open>strlen\<close>-based messaging transports it whole.\<close>

theorem base91_text_safe:
  assumes "Base91_encode (Some xs) False M = (n, buf)" "0 < n"
  shows "c_str buf = butlast buf \<and> length (c_str buf) = n \<and>
     (\<forall>c \<in> set (c_str buf). 32 < c \<and> c < 127 \<and> c \<noteq> 34 \<and> c \<noteq> 39 \<and> c \<noteq> 92)"
proof -
  have "b91_enc xs M = Some buf"
    using assms by (simp add: b91_enc_def)
  note t = b91_enc_SomeD [OF this]
  have "0 < M" using t(2) by simp
  then have n: "n = length (enc_chars xs 0 0)"
    using Base91_encode_success [OF assms(1)] assms(2) by auto
  have "\<forall>c \<in> set (enc_chars xs 0 0). 32 < c \<and> c < 127 \<and> c \<notin> {34, 39, 92}"
    using subsetD [OF enc_chars_alphabet [of 0 0 xs]] ALPHABET_safe by simp
  then show ?thesis by (simp add: t(4) n) (simp add: t(1))
qed

theorem base91_text_safe_witness:
  "length (c_str (snd (Base91_encode (Some [0x0B, 0]) False 32))) = 3"
proof -
  have enc: "Base91_encode (Some [0x0B, 0]) False 32 = (3, snd (Base91_encode (Some [0x0B, 0]) False 32))"
    by code_simp
  show ?thesis using base91_text_safe [OF enc zero_less_numeral] by blast
qed

text \<open>a buffer of \<open>encodedSize(inputLen)\<close> bytes is always large enough: encoding a
  non-empty input into it succeeds.\<close>

theorem base91_encodedSize_enough:
  assumes "xs \<noteq> []" "encodedSize (length xs) \<le> M"
  shows "0 < fst (Base91_encode (Some xs) False M) \<and>
     fst (Base91_encode (Some xs) False M) < encodedSize (length xs)"
proof -
  have "length (enc_chars xs 0 0) < M"
    using encodedSize_fits [of xs] assms(2) by simp
  moreover have "enc_chars xs 0 0 \<noteq> []"
    by (rule enc_chars_not_Nil) (simp_all add: assms(1))
  ultimately show ?thesis
    using encodedSize_fits [of xs] by (simp add: Base91_encode_enough)
qed

theorem base91_encodedSize_enough_witness:
  "0 < fst (Base91_encode (Some (replicate 120 7)) False 149)"
  using base91_encodedSize_enough [of "replicate 120 7" 149] by (simp add: encodedSize_def)

text \<open>neither routine writes past the size it is given, on success or failure, and the
  length it returns is one it has written.\<close>

theorem base91_in_bounds:
  "length (snd (Base91_encode input null M)) \<le> M \<and>
   fst (Base91_encode input null M) \<le> length (snd (Base91_encode input null M)) \<and>
   length (snd (Base91_decode input null M)) \<le> M \<and>
   fst (Base91_decode input null M) \<le> length (snd (Base91_decode input null M))"
proof -
  have enc: "length (snd (Base91_encode input null M)) \<le> M \<and>
      fst (Base91_encode input null M) \<le> length (snd (Base91_encode input null M))"
  proof (cases "input = None \<or> null \<or> M = 0")
    case True
    then show ?thesis by (auto simp: Base91_encode_def split: option.splits)
  next
    case False
    then obtain xs where xs: "input = Some xs" "\<not> null" "0 < M" by auto
    show ?thesis
      using Base91_encode_enough [of xs M] encode_run_short [of "[]" M xs 0 0] Base91_encode_run [of M xs] xs
      by (cases "length (enc_chars xs 0 0) < M") auto
  qed
  have "length (snd (Base91_decode input null M)) \<le> M \<and>
      fst (Base91_decode input null M) \<le> length (snd (Base91_decode input null M))"
  proof (cases "input = None \<or> null \<or> M = 0")
    case True
    then show ?thesis by (auto simp: Base91_decode_def split: option.splits)
  next
    case False
    then obtain mem where "input = Some mem" "\<not> null" "0 < M" by auto
    then show ?thesis
      using decode_loop_bound [of "[]" M "c_str mem" 0 0 None]
      by (auto simp: Base91_decode_def decode_finish_def split: sum.splits option.splits prod.splits)
  qed
  with enc show ?thesis by blast
qed

text \<open>\<open>decode\<close> ignores every character outside the alphabet: such noise in the text
  changes nothing.\<close>

theorem base91_decode_skips_noise:
  "filter (\<lambda>c. c \<in> set ALPHABET) (c_str mem) = filter (\<lambda>c. c \<in> set ALPHABET) (c_str mem') \<Longrightarrow>
     Base91_decode (Some mem) False M = Base91_decode (Some mem') False M"
  using decode_run_filter [of M "c_str mem"] decode_run_filter [of M "c_str mem'"]
  by (simp add: Base91_decode_def)

theorem base91_decode_skips_noise_witness:
  "Base91_decode (Some (str ''A B'')) False 9 = Base91_decode (Some (str ''AB'')) False 9"
  by (rule base91_decode_skips_noise) (simp add: ALPHABET_list str_def c_str_def)

section \<open>A size estimate that is too small\<close>

text \<open>28 zero bytes encode to 32 characters, which \<open>decode\<close> refuses to decode into a
  buffer of \<open>decodedSize(32)\<close> bytes: pairs of characters may carry 14 bits, not 13.
  Eight characters \<open>A\<close> carry seven zero bytes.\<close>

lemma DECODE_TABLE_A: "DECODE_TABLE ! 65 = 0"
  by (simp add: DECODE_TABLE_def)

lemma decode_loop_A:
  "decode_loop M (65 # 65 # cs) 0 nb None out =
     (case decode_flush M 0 (nb + 14) out of
        Inl out \<Rightarrow> Inl out
      | Inr (q, nb, out) \<Rightarrow> decode_loop M cs q nb None out)"
  by (simp add: Let_def DECODE_TABLE_A)

lemma decode_flush_zero:
  "decode_flush M 0 nb out =
     (if 8 \<le> nb then
        (if M \<le> length out then Inl out else decode_flush M 0 (nb - 8) (out @ [0]))
      else Inr (0, nb, out))"
  by (subst decode_flush.simps) simp

lemma decode_loop_8A:
  "length out + 7 \<le> M \<Longrightarrow>
     decode_loop M (65 # 65 # 65 # 65 # 65 # 65 # 65 # 65 # cs) 0 0 None out =
     decode_loop M cs 0 0 None (out @ [0, 0, 0, 0, 0, 0, 0])"
  "M = length out + 6 \<Longrightarrow>
     decode_loop M (65 # 65 # 65 # 65 # 65 # 65 # 65 # 65 # cs) 0 0 None out =
     Inl (out @ [0, 0, 0, 0, 0, 0])"
  by (simp_all add: decode_loop_A decode_flush_zero del: decode_loop.simps(2))

lemma base91_decodedSize_too_small:
  "Base91_encode (Some (replicate 28 0)) False 64 = (32, replicate 32 65 @ [0]) \<and>
   Base91_decode (Some (replicate 32 65 @ [0])) False 28 = (28, replicate 28 0) \<and>
   Base91_decode (Some (replicate 32 65 @ [0])) False (decodedSize 32) = (0, replicate 27 0)"
proof -
  have enc: "Base91_encode (Some (replicate 28 0)) False 64 = (32, replicate 32 65 @ [0])"
    by code_simp
  have cstr: "c_str (replicate 32 (65 :: u8) @ [0]) = [65, 65, 65, 65, 65, 65, 65, 65, 65, 65, 65, 65, 65, 65, 65, 65, 65, 65, 65, 65, 65, 65, 65, 65, 65, 65, 65, 65, 65, 65, 65, 65]"
    by code_simp
  have zeros: "replicate 28 (0 :: u8) = [0, 0, 0, 0, 0, 0, 0, 0, 0, 0, 0, 0, 0, 0, 0, 0, 0, 0, 0, 0, 0, 0, 0, 0, 0, 0, 0, 0]" "replicate 27 (0 :: u8) = [0, 0, 0, 0, 0, 0, 0, 0, 0, 0, 0, 0, 0, 0, 0, 0, 0, 0, 0, 0, 0, 0, 0, 0, 0, 0, 0]"
    by code_simp+
  show ?thesis
    unfolding Base91_decode_def decodedSize_def zeros(2)
    by (simp only: enc simp_thms) (simp add: zeros cstr decode_loop_8A decode_finish_def del: decode_loop.simps(2))
qed

end
