(* ===== verification/NodeHelpers.thy ===== *)
theory NodeHelpers
  imports Wdp Base91
begin

text \<open>
  The helpers of the mesh node in \<^verbatim>\<open>src/main.cpp\<close> that keep no state: decimal and hexadecimal
  numbers, the node id in front of a message, the check of a datagram's header, and the file of
  contacts with its records of 140 bytes.  A contact has the fields the program reads and writes;
  the rest of the structure belongs to the mesh library.
\<close>

section \<open>Numbers\<close>

fun node_atoi :: "u32 \<Rightarrow> bytes \<Rightarrow> u32" where
  "node_atoi n [] = n"
| "node_atoi n (c # sp) = (if 48 \<le> c \<and> c \<le> 57 then node_atoi (n * 10 + ucast (c - 48)) sp else n)"

definition is_hex :: "u8 \<Rightarrow> bool" where
  "is_hex c \<longleftrightarrow> (48 \<le> c \<and> c \<le> 57) \<or> (97 \<le> c \<and> c \<le> 102) \<or> (65 \<le> c \<and> c \<le> 70)"

definition isValidHex :: "bytes \<Rightarrow> nat \<Rightarrow> bool" where
  "isValidHex s len = list_all is_hex (take len s)"

definition hexToNibble :: "u8 \<Rightarrow> u8" where
  "hexToNibble c =
     (if 48 \<le> c \<and> c \<le> 57 then c - 48
      else if 97 \<le> c \<and> c \<le> 102 then c - 97 + 10
      else if 65 \<le> c \<and> c \<le> 70 then c - 65 + 10
      else 0)"

text \<open>The bytes written to \<open>out\<close>; their number is the value returned.\<close>

definition hexDecode :: "bytes \<Rightarrow> nat \<Rightarrow> nat \<Rightarrow> bytes" where
  "hexDecode hex hexLen outMaxLen =
     (let byteLen = hexLen div 2; byteLen = (if byteLen > outMaxLen then outMaxLen else byteLen) in
      map (\<lambda>i. push_bit 4 (hexToNibble (hex ! (i * 2))) OR hexToNibble (hex ! (i * 2 + 1))) [0..<byteLen])"

definition hexChars :: bytes where "hexChars = str ''0123456789abcdef''"

definition hex_pair :: "u8 \<Rightarrow> bytes" where
  "hex_pair b = [hexChars ! unat (drop_bit 4 b AND 0x0F), hexChars ! unat (b AND 0x0F)]"

definition hexEncode :: "bytes \<Rightarrow> bytes" where
  "hexEncode data = List.concat (map hex_pair data) @ [0]"

text \<open>The id of a sender: the first four bytes of its key, \<open>"%02x%02x%02x%02x"\<close>.\<close>

definition node_id :: "bytes \<Rightarrow> bytes" where
  "node_id pub_key = List.concat (map hex_pair (take 4 pub_key))"

text \<open>The key prefix an id stands for; what the id is too short for stays as the stack had it.\<close>

definition target_prefix :: "bytes \<Rightarrow> bytes \<Rightarrow> bytes" where
  "target_prefix stack recipientId =
     (let charAt = (\<lambda>i. if i < length recipientId then recipientId ! i else 0) in
      map (\<lambda>i. if i * 2 < length recipientId
               then push_bit 4 (hexToNibble (charAt (i * 2))) OR hexToNibble (charAt (i * 2 + 1))
               else stack ! i) [0..<4])"

section \<open>The header check\<close>

definition isValidWDPMessage :: "bytes \<Rightarrow> bool" where
  "isValidWDPMessage data =
     (if length data < 7 then False
      else
        let headerLen = data ! 0 in
        if headerLen \<noteq> 0x06 \<and> headerLen \<noteq> 0x0B then False
        else if length data < unat headerLen + 1 then False
        else if headerLen = 0x06 then
          (if data ! 1 \<noteq> 0x05 then False
           else if data ! 2 \<noteq> 0x04 then False
           else if be16 (data ! 3) (data ! 4) = 0 \<or> be16 (data ! 5) (data ! 6) = 0 then False
           else True)
        else
          (if data ! 1 \<noteq> 0x00 \<or> data ! 2 \<noteq> 0x03 then False
           else
             let totalParts = data ! 4; currentPart = data ! 5 in
             if totalParts = 0 \<or> currentPart = 0 \<or> currentPart > totalParts then False
             else if data ! 6 \<noteq> 0x05 \<or> data ! 7 \<noteq> 0x04 then False
             else if be16 (data ! 8) (data ! 9) = 0 \<or> be16 (data ! 10) (data ! 11) = 0 then False
             else True))"

section \<open>The file of contacts\<close>

record ContactInfo =
  ci_pub_key :: bytes
  ci_name :: bytes
  ci_type :: u8
  ci_flags :: u8
  ci_out_path_len :: u8
  ci_last_advert_timestamp :: u32
  ci_out_path :: bytes
  ci_lastmod :: u32

definition le32 :: "u32 \<Rightarrow> bytes" where
  "le32 v = [ucast v, ucast (drop_bit 8 v), ucast (drop_bit 16 v), ucast (drop_bit 24 v)]"

definition of_le32 :: "bytes \<Rightarrow> u32" where
  "of_le32 b = ucast (b ! 0) OR push_bit 8 (ucast (b ! 1)) OR push_bit 16 (ucast (b ! 2)) OR push_bit 24 (ucast (b ! 3))"

text \<open>The fields of a record in the order they are written: \<open>unused\<close> and \<open>reserved\<close> are zero.\<close>

definition contact_fields :: "ContactInfo \<Rightarrow> bytes list" where
  "contact_fields c =
     [ci_pub_key c, ci_name c, [ci_type c], [ci_flags c], [0], le32 0, [ci_out_path_len c],
      le32 (ci_last_advert_timestamp c), ci_out_path c]"

text \<open>A write into a file system with room for \<open>room\<close> bytes of this file: what it holds then, and
  whether everything was written.\<close>

definition file_write :: "nat \<Rightarrow> bytes \<Rightarrow> bytes \<Rightarrow> bool \<times> bytes" where
  "file_write room disk x = (length disk + length x \<le> room, disk @ take (room - length disk) x)"

fun write_fields :: "nat \<Rightarrow> bytes list \<Rightarrow> bytes \<Rightarrow> bool \<times> bytes" where
  "write_fields room [] disk = (True, disk)"
| "write_fields room (x # xs) disk =
     (case file_write room disk x of
        (ok, disk) \<Rightarrow> if ok then write_fields room xs disk else (False, disk))"

fun write_contacts :: "nat \<Rightarrow> ContactInfo list \<Rightarrow> bytes \<Rightarrow> bytes" where
  "write_contacts room [] disk = disk"
| "write_contacts room (c # cs) disk =
     (case write_fields room (contact_fields c) disk of
        (success, disk) \<Rightarrow> if success then write_contacts room cs disk else disk)"

definition saveContacts :: "nat \<Rightarrow> ContactInfo list \<Rightarrow> bytes" where
  "saveContacts room cs = write_contacts room cs []"

text \<open>Reading: \<open>None\<close> when the file ends inside the record.\<close>

fun read_fields :: "nat list \<Rightarrow> bytes \<Rightarrow> (bytes list \<times> bytes) option" where
  "read_fields [] disk = Some ([], disk)"
| "read_fields (n # ns) disk =
     (if length disk < n then None
      else map_option (\<lambda>(xs, rest). (take n disk # xs, rest)) (read_fields ns (drop n disk)))"

definition contact_sizes :: "nat list" where
  "contact_sizes = [32, 32, 1, 1, 1, 4, 1, 4, 64]"

definition contact_of :: "bytes list \<Rightarrow> ContactInfo" where
  "contact_of xs =
     \<lparr>ci_pub_key = xs ! 0, ci_name = xs ! 1, ci_type = hd (xs ! 2), ci_flags = hd (xs ! 3),
      ci_out_path_len = hd (xs ! 6), ci_last_advert_timestamp = of_le32 (xs ! 7), ci_out_path = xs ! 8,
      ci_lastmod = 0\<rparr>"

lemma read_fields_length: "read_fields ns disk = Some (xs, rest) \<Longrightarrow> length disk = sum_list ns + length rest"
  by (induction ns arbitrary: disk xs) (fastforce split: if_splits)+

lemma contact_sizes_sum: "sum_list contact_sizes = 140"
  by (simp add: contact_sizes_def)

function loadContacts :: "(ContactInfo \<Rightarrow> 'b \<Rightarrow> bool \<times> 'b) \<Rightarrow> bytes \<Rightarrow> 'b \<Rightarrow> 'b" where
  "loadContacts addContact disk b =
     (case read_fields contact_sizes disk of
        None \<Rightarrow> b
      | Some (xs, rest) \<Rightarrow>
          (case addContact (contact_of xs) b of
             (added, b) \<Rightarrow> if added then loadContacts addContact rest b else b))"
  by pat_completeness auto

termination loadContacts
  by (relation "measure (\<lambda>(add, disk, b). length disk)")
    (auto simp: contact_sizes_sum dest!: read_fields_length)

declare loadContacts.simps [simp del]


section \<open>Hexadecimal text\<close>

lemma hexChars_digit:
  assumes "n < 16"
  shows "hexToNibble (hexChars ! n) = of_nat n \<and> is_hex (hexChars ! n)"
proof -
  have "list_all (\<lambda>n. hexToNibble (hexChars ! n) = of_nat n \<and> is_hex (hexChars ! n)) [0..<16]"
    by code_simp
  with assms show ?thesis by (simp add: list_all_iff)
qed

lemma low_nibble: "unat (b AND 0x0F :: u8) < 16"
proof -
  have "b AND 0x0F < (16 :: u8)"
    using and_mask_less' [of 4 b] by (simp add: mask_eq_exp_minus_1)
  then show ?thesis by (simp add: word_less_nat_alt)
qed

lemma nibbles_join: "push_bit 4 (drop_bit 4 b AND 0x0F) OR (b AND 0x0F) = (b :: u8)"
proof -
  have m: "0x0F = (mask 4 :: u8)" by (simp add: mask_eq_exp_minus_1)
  show ?thesis unfolding m by (rule bit_word_eqI) (auto simp: bit_simps)
qed

lemma hex_pair_decode:
  "push_bit 4 (hexToNibble (hex_pair b ! 0)) OR hexToNibble (hex_pair b ! 1) = b"
proof -
  have "hexToNibble (hex_pair b ! 0) = drop_bit 4 b AND 0x0F" "hexToNibble (hex_pair b ! 1) = b AND 0x0F"
    using hexChars_digit [OF low_nibble [of "drop_bit 4 b"]] hexChars_digit [OF low_nibble [of b]]
    by (simp_all add: hex_pair_def)
  then show ?thesis by (simp only: nibbles_join)
qed

lemma hex_pair_chars: "length (hex_pair b) = 2" "c \<in> set (hex_pair b) \<Longrightarrow> is_hex c"
  using hexChars_digit [OF low_nibble [of "drop_bit 4 b"]] hexChars_digit [OF low_nibble [of b]]
  by (auto simp: hex_pair_def)

lemma hex_text_chars:
  "length (List.concat (map hex_pair d)) = 2 * length d"
  "c \<in> set (List.concat (map hex_pair d)) \<Longrightarrow> is_hex c"
  using hex_pair_chars by (induction d) auto

lemma hex_text_nth:
  "i < length d \<Longrightarrow> List.concat (map hex_pair d) ! (i * 2) = hex_pair (d ! i) ! 0"
  "i < length d \<Longrightarrow> List.concat (map hex_pair d) ! (i * 2 + 1) = hex_pair (d ! i) ! 1"
proof (induction d arbitrary: i)
  case (Cons b d)
  {
    case 1
    then show ?case
      using Cons.IH(1) [of "i - 1"] by (cases i) (auto simp: nth_append hex_pair_chars)
  next
    case 2
    then show ?case
      using Cons.IH(2) [of "i - 1"] by (cases i) (auto simp: nth_append hex_pair_chars)
  }
qed auto

lemma hexDecode_text:
  "hexDecode (List.concat (map hex_pair d) @ rest) (2 * length d) M = take M d"
proof (rule nth_equalityI)
  fix i assume "i < length (hexDecode (List.concat (map hex_pair d) @ rest) (2 * length d) M)"
  then have i: "i < length d" "i < M" by (auto simp: hexDecode_def Let_def split: if_splits)
  then have "i * 2 + 1 < 2 * length d" by linarith
  then show "hexDecode (List.concat (map hex_pair d) @ rest) (2 * length d) M ! i = take M d ! i"
    using i hex_pair_decode [of "d ! i"]
    by (simp add: hexDecode_def Let_def nth_append hex_text_chars hex_text_nth del: One_nat_def)
qed (simp add: hexDecode_def Let_def min_def)

theorem hex_roundtrip:
  "hexDecode (hexEncode d) (2 * length d) M = take M d \<and>
   isValidHex (hexEncode d) (2 * length d) \<and> length (hexEncode d) = 2 * length d + 1"
  by (auto simp: hexEncode_def hexDecode_text isValidHex_def hex_text_chars list_all_iff)

text \<open>A node id is the text of the first four bytes of the key.\<close>

lemma node_id_text: "4 \<le> length pk \<Longrightarrow> length (node_id pk) = 8" "list_all is_hex (node_id pk)"
  by (auto simp: node_id_def hex_text_chars list_all_iff)

lemma node_id_prefix:
  assumes "4 \<le> length pk"
  shows "hexDecode (node_id pk) 8 4 = take 4 pk" "target_prefix stack (node_id pk) = take 4 pk"
proof -
  show dec: "hexDecode (node_id pk) 8 4 = take 4 pk"
    using hexDecode_text [of "take 4 pk" "[]" 4] assms by (simp add: node_id_def)
  have "target_prefix stack (node_id pk) = hexDecode (node_id pk) 8 4"
    using node_id_text(1) [OF assms] by (simp add: target_prefix_def hexDecode_def)
  with dec show "target_prefix stack (node_id pk) = take 4 pk" by simp
qed

lemma node_id_valid: "4 \<le> length pk \<Longrightarrow> isValidHex (node_id pk) (length (node_id pk))"
  by (simp add: isValidHex_def node_id_text)

lemma hex_not_nul: "is_hex c \<Longrightarrow> c \<noteq> 0"
  by (auto simp: is_hex_def)

section \<open>What the header check accepts\<close>

lemma bytes_of_be16 [simp]: "hi8 (be16 a b) = a" "lo8 (be16 a b) = b"
proof -
  have m: "0xFF = (mask 8 :: u16)" by (simp add: mask_eq_exp_minus_1)
  show "hi8 (be16 a b) = a"
    unfolding be16_def hi8_def m
    by (rule bit_word_eqI) (auto simp: bit_simps dest: bit_imp_le_length)
  show "lo8 (be16 a b) = b"
    unfolding be16_def lo8_def m by (rule bit_word_eqI) (auto simp: bit_simps)
qed

lemma simple_is_valid: "s \<noteq> 0 \<Longrightarrow> d \<noteq> 0 \<Longrightarrow> isValidWDPMessage (simple_message s d x)"
  by (simp add: simple_message_def isValidWDPMessage_def)

lemma concat_is_valid:
  "s \<noteq> 0 \<Longrightarrow> d \<noteq> 0 \<Longrightarrow> 0 < p \<Longrightarrow> p \<le> n \<Longrightarrow> isValidWDPMessage (concat_message r n p s d x)"
  by (auto simp: concat_message_def isValidWDPMessage_def Let_def)

lemma list_prefix: "n \<le> length xs \<Longrightarrow> xs = map ((!) xs) [0..<n] @ drop n xs"
  by (metis append_take_drop_id take_map map_nth take_upt plus_nat.add_0 )

lemma seven_bytes: "7 \<le> length m \<Longrightarrow> m = [m ! 0, m ! 1, m ! 2, m ! 3, m ! 4, m ! 5, m ! 6] @ drop 7 m"
  using list_prefix [of 7 m] by (simp add: upt_rec eval_nat_numeral)

lemma twelve_bytes:
  "12 \<le> length m \<Longrightarrow>
     m = [m ! 0, m ! 1, m ! 2, m ! 3, m ! 4, m ! 5, m ! 6, m ! 7, m ! 8, m ! 9, m ! 10, m ! 11] @ drop 12 m"
  using list_prefix [of 12 m] by (simp add: upt_rec eval_nat_numeral)

text \<open>The check accepts exactly the messages the routing code can have built: a simple header with two
  ports that are not zero, or a concatenated one with such ports and a part number between one and
  the number of parts, in front of any payload.\<close>

theorem valid_messages:
  "isValidWDPMessage m \<longleftrightarrow>
     (\<exists>s d x. s \<noteq> 0 \<and> d \<noteq> 0 \<and> m = simple_message s d x) \<or>
     (\<exists>r n p s d x. s \<noteq> 0 \<and> d \<noteq> 0 \<and> 0 < p \<and> p \<le> n \<and> m = concat_message r n p s d x)"
proof
  assume valid: "isValidWDPMessage m"
  then have len: "7 \<le> length m" by (auto simp: isValidWDPMessage_def split: if_splits)
  show "(\<exists>s d x. s \<noteq> 0 \<and> d \<noteq> 0 \<and> m = simple_message s d x) \<or>
     (\<exists>r n p s d x. s \<noteq> 0 \<and> d \<noteq> 0 \<and> 0 < p \<and> p \<le> n \<and> m = concat_message r n p s d x)"
  proof (cases "m ! 0 = 0x06")
    case True
    then have v: "m ! 1 = 5" "m ! 2 = 4" "be16 (m ! 5) (m ! 6) \<noteq> 0" "be16 (m ! 3) (m ! 4) \<noteq> 0"
      using valid by (auto simp: isValidWDPMessage_def split: if_splits)
    have "m = simple_message (be16 (m ! 5) (m ! 6)) (be16 (m ! 3) (m ! 4)) (drop 7 m)"
      unfolding simple_message_def bytes_of_be16
      by (rule seven_bytes [OF len, unfolded True v(1,2)])
    with v show ?thesis by blast
  next
    case False
    then have head: "m ! 0 = 0x0B" and len: "12 \<le> length m"
      using valid by (auto simp: isValidWDPMessage_def Let_def split: if_splits)
    have v: "m ! 1 = 0" "m ! 2 = 3" "m ! 6 = 5" "m ! 7 = 4"
      using valid head by (auto simp: isValidWDPMessage_def Let_def split: if_splits)
    have "m = concat_message (m ! 3) (m ! 4) (m ! 5) (be16 (m ! 10) (m ! 11)) (be16 (m ! 8) (m ! 9)) (drop 12 m)"
      unfolding concat_message_def bytes_of_be16
      by (rule twelve_bytes [OF len, unfolded head v])
    moreover have "be16 (m ! 10) (m ! 11) \<noteq> 0 \<and> be16 (m ! 8) (m ! 9) \<noteq> 0 \<and> 0 < m ! 5 \<and> m ! 5 \<le> m ! 4"
      using valid head by (auto simp: isValidWDPMessage_def Let_def word_gt_0 split: if_splits)
    ultimately show ?thesis by blast
  qed
qed (auto intro: simple_is_valid concat_is_valid)

lemma wdp_messages_valid:
  assumes "m \<in> set (wdp_messages now s d data)" "length data \<le> 27540" "s \<noteq> 0" "d \<noteq> 0"
  shows "isValidWDPMessage m"
proof (cases "length data \<le> maxPayloadSimple")
  case True
  with assms show ?thesis by (simp add: wdp_messages_def simple_is_valid)
next
  case False
  have n: "count_parts (length data) \<le> 255" using assms(2) by (simp add: count_parts_def)
  obtain p where p: "1 \<le> p" "p \<le> count_parts (length data)"
    and m: "m = part_message (ucast (now AND 0xFF)) s d data p"
    using assms(1) False
    by (auto simp: wdp_messages_parts maxPayload_simps less_Suc_eq_le simp del: upt_Suc)
  have "(of_nat p :: u8) \<le> of_nat (count_parts (length data))" "0 < (of_nat p :: u8)"
    using p n by (simp_all add: word_le_nat_alt word_less_nat_alt unat_of_nat)
  then show ?thesis
    unfolding m part_message_def by (intro concat_is_valid assms)
qed

section \<open>The file of contacts\<close>

definition contact_ok :: "ContactInfo \<Rightarrow> bool" where
  "contact_ok c \<longleftrightarrow> length (ci_pub_key c) = 32 \<and> length (ci_name c) = 32 \<and> length (ci_out_path c) = 64"

fun add_contacts :: "(ContactInfo \<Rightarrow> 'b \<Rightarrow> bool \<times> 'b) \<Rightarrow> ContactInfo list \<Rightarrow> 'b \<Rightarrow> 'b" where
  "add_contacts add [] b = b"
| "add_contacts add (c # cs) b = (case add c b of (added, b) \<Rightarrow> if added then add_contacts add cs b else b)"

lemma le32_back [simp]: "of_le32 (le32 v) = v"
proof (rule bit_word_eqI)
  fix n assume "n < LENGTH(32)"
  then show "bit (of_le32 (le32 v)) n = bit v n"
    by (cases "24 \<le> n"; cases "16 \<le> n") (auto simp: of_le32_def le32_def bit_simps)
qed

lemma write_fields_eq:
  "length disk \<le> room \<Longrightarrow> write_fields room xs disk =
     (length disk + length (List.concat xs) \<le> room, take room (disk @ List.concat xs))"
  by (induction xs arbitrary: disk) (auto simp: file_write_def)

definition contact_record :: "ContactInfo \<Rightarrow> bytes" where
  "contact_record c = List.concat (contact_fields c)"

lemma length_contact_record: "contact_ok c \<Longrightarrow> length (contact_record c) = 140"
  by (simp add: contact_ok_def contact_record_def contact_fields_def le32_def)

lemma write_contacts_eq:
  "length disk \<le> room \<Longrightarrow>
     write_contacts room cs disk = take room (disk @ List.concat (map contact_record cs))"
  by (induction cs arbitrary: disk) (auto simp: write_fields_eq contact_record_def)

lemma read_fields_append:
  "map length xs = ns \<Longrightarrow> read_fields ns (List.concat xs @ rest) = Some (xs, rest)"
  by (induction xs arbitrary: ns) auto

lemma read_record:
  assumes "contact_ok c"
  shows "read_fields contact_sizes (contact_record c @ rest) = Some (contact_fields c, rest)"
  unfolding contact_record_def
  by (rule read_fields_append) (use assms in \<open>simp add: contact_fields_def contact_sizes_def contact_ok_def le32_def\<close>)

lemma contact_of_fields: "contact_of (contact_fields c) = c\<lparr>ci_lastmod := 0\<rparr>"
  by (simp add: contact_of_def contact_fields_def)

lemma load_short: "length disk < 140 \<Longrightarrow> loadContacts add disk b = b"
  using read_fields_length [of contact_sizes disk]
  by (subst loadContacts.simps) (auto simp: contact_sizes_sum split: option.split)

lemma load_records:
  assumes "\<forall>c \<in> set cs. contact_ok c"
  shows "loadContacts add (take room (List.concat (map contact_record cs))) b =
     add_contacts add (map (\<lambda>c. c\<lparr>ci_lastmod := 0\<rparr>) (take (room div 140) cs)) b"
  using assms
proof (induction cs arbitrary: room b)
  case (Cons c cs)
  note len = length_contact_record [of c] and ok = Cons.prems
  show ?case
  proof (cases "140 \<le> room")
    case True
    then have "take room (List.concat (map contact_record (c # cs))) =
        contact_record c @ take (room - 140) (List.concat (map contact_record cs))"
      using ok len by simp
    moreover have "room div 140 = Suc ((room - 140) div 140)"
      using True by (simp add: le_div_geq)
    ultimately show ?thesis
      using ok Cons.IH [of "room - 140"]
      by (subst loadContacts.simps) (auto simp: read_record contact_of_fields split: prod.splits)
  qed (use ok len in \<open>simp add: load_short\<close>)
qed (simp add: load_short)

text \<open>What the node reads back after a restart is what it had saved: the contacts in their order, all
  fields kept (the time of modification becomes zero), as many as the file system had room for
  whole records, until the table takes no more.  A record that was cut off is not read.\<close>

theorem contacts_roundtrip:
  assumes "\<forall>c \<in> set cs. contact_ok c"
  shows "loadContacts addContact (saveContacts room cs) b =
     add_contacts addContact (map (\<lambda>c. c\<lparr>ci_lastmod := 0\<rparr>) (take (room div 140) cs)) b"
  using load_records [OF assms] by (simp add: saveContacts_def write_contacts_eq)

definition sample_contact :: "u8 \<Rightarrow> ContactInfo" where
  "sample_contact x =
     \<lparr>ci_pub_key = replicate 32 x, ci_name = str ''Proxy'' @ replicate 27 0, ci_type = 1, ci_flags = 0,
      ci_out_path_len = 2, ci_last_advert_timestamp = 0x12345678, ci_out_path = replicate 64 7, ci_lastmod = 9\<rparr>"

lemma sample_contact_ok: "contact_ok (sample_contact x)"
  by (simp add: contact_ok_def sample_contact_def)

theorem contacts_roundtrip_witness:
  "loadContacts (\<lambda>c b. (True, b @ [c])) (saveContacts 300 [sample_contact 1, sample_contact 2, sample_contact 3]) [] =
     [(sample_contact 1)\<lparr>ci_lastmod := 0\<rparr>, (sample_contact 2)\<lparr>ci_lastmod := 0\<rparr>]"
  using contacts_roundtrip [of "[sample_contact 1, sample_contact 2, sample_contact 3]" "\<lambda>c b. (True, b @ [c])" 300 "[]"]
  by (simp add: sample_contact_ok)

end
