(* ===== verification/ProxyGateway.thy ===== *)
theory ProxyGateway
  imports Wdp
begin

text \<open>
  The WDP gateway of the proxy node, \<^verbatim>\<open>src/mode_proxy.h\<close>: reassembly of datagrams that
  arrive over the mesh, the table of pending UDP connections, forwarding to the WAP box and
  routing of its answers.  A handler returns the new gateway and what it does in order
  (\<open>proxy_action\<close>).  The result None stands for a read outside the reassembly buffer.

  The clock \<^verbatim>\<open>millis()\<close> is an argument; a call of a handler reads one value, except \<open>loop\<close>,
  which waits for the radio between its readings.  What the UDP library answers is the record
  \<open>udp_env\<close> and the argument \<open>recv\<close> of \<open>loop\<close>.  Strings of node ids are byte lists.
\<close>

section \<open>State\<close>

record PendingConnection =
  pc_active :: bool
  pc_clientSourcePort :: u16
  pc_wapboxPort :: u16
  pc_meshRecipient :: bytes
  pc_timestamp :: u32
  pc_udpSocket :: "u16 option"

record WDPGateway =
  gw_wapBoxHost :: bytes
  gw_wapBoxPort :: u16
  gw_pendingConnections :: "PendingConnection list"
  gw_concatMessages :: "ConcatMessage list"
  gw_callback :: bool

text \<open>\<open>Udp_Begin i p\<close> binds the socket of slot \<open>i\<close> to port \<open>p\<close>; \<open>Udp_Send i ip p x\<close> sends \<open>x\<close> from it.\<close>

datatype proxy_action =
    Udp_Stop nat
  | Udp_Begin nat u16
  | Udp_Send nat u32 u16 bytes
  | Mesh_Send bytes bytes

text \<open>The result of \<^verbatim>\<open>WiFiUDP::begin\<close> for a port and of \<^verbatim>\<open>IPAddress::fromString\<close>.\<close>

record udp_env =
  ue_begin :: "u16 \<Rightarrow> bool"
  ue_fromString :: "bytes \<Rightarrow> u32 option"


text \<open>The constructor sets the flags only; \<open>mem\<close> and \<open>cmem\<close> are what the arrays held before.\<close>

definition WDPGateway_init ::
  "bytes \<Rightarrow> u16 \<Rightarrow> PendingConnection list \<Rightarrow> ConcatMessage list \<Rightarrow> WDPGateway" where
  "WDPGateway_init host port mem cmem =
     \<lparr>gw_wapBoxHost = host, gw_wapBoxPort = port,
      gw_pendingConnections = map (\<lambda>c. c\<lparr>pc_active := False\<rparr>) mem,
      gw_concatMessages = map (\<lambda>c. c\<lparr>cm_active := False\<rparr>) cmem, gw_callback = False\<rparr>"

definition gateway_begin :: "WDPGateway \<Rightarrow> WDPGateway" where
  "gateway_begin gw = gw\<lparr>gw_callback := True\<rparr>"

definition clearPendingConnection :: "nat \<Rightarrow> PendingConnection \<Rightarrow> PendingConnection \<times> proxy_action list" where
  "clearPendingConnection i conn =
     (\<lparr>pc_active = False, pc_clientSourcePort = 0, pc_wapboxPort = 0, pc_meshRecipient = [],
       pc_timestamp = 0, pc_udpSocket = None\<rparr>, [Udp_Stop i])"

section \<open>From the mesh to the WAP box\<close>

text \<open>Finding or opening a slot.  Opening one leaves \<open>partSizes\<close> and \<open>lastUpdate\<close> as they are.\<close>

definition proxy_slot :: slot_fun where
  "proxy_slot now from refNum totalParts udh table =
     (case find_slot cm_active concat_key (refNum, from) table of
        Some i \<Rightarrow> Some (i, table)
      | None \<Rightarrow>
          (case first_index (\<lambda>c. \<not> cm_active c) table of
             None \<Rightarrow> None
           | Some i \<Rightarrow>
               Some (i, table[i := (table ! i)
                 \<lparr>cm_active := True, cm_refNum := refNum, cm_totalParts := totalParts, cm_receivedParts := 0,
                  cm_sourcePort := udh_source udh, cm_destPort := udh_dest udh, cm_senderMeshId := from,
                  cm_partReceived := replicate 16 0, cm_data := replicate 2048 0\<rparr>])))"

definition pc_key :: "PendingConnection \<Rightarrow> u16 \<times> bytes" where
  "pc_key c = (pc_clientSourcePort c, pc_meshRecipient c)"

definition forwardToWAPBox ::
  "udp_env \<Rightarrow> u32 \<Rightarrow> bytes \<Rightarrow> u16 \<Rightarrow> u16 \<Rightarrow> bytes \<Rightarrow> WDPGateway \<Rightarrow> WDPGateway \<times> proxy_action list" where
  "forwardToWAPBox env now from srcPort dstPort payload gw =
     (let conns = gw_pendingConnections gw in
      case find_slot pc_active pc_key (srcPort, from) conns of
        Some i \<Rightarrow>
          (gw\<lparr>gw_pendingConnections := conns[i := (conns ! i)\<lparr>pc_timestamp := now\<rparr>]\<rparr>, [])
      | None \<Rightarrow>
          (case first_index (\<lambda>c. \<not> pc_active c \<or> now - pc_timestamp c > 60000) conns of
             None \<Rightarrow> (gw, [])
           | Some slot \<Rightarrow>
               (gw\<lparr>gw_pendingConnections := conns[slot :=
                    \<lparr>pc_active = True, pc_clientSourcePort = srcPort, pc_wapboxPort = dstPort,
                     pc_meshRecipient = from, pc_timestamp = now,
                     pc_udpSocket = (if ue_begin env srcPort then Some srcPort else None)\<rparr>]\<rparr>,
                [Udp_Stop slot, Udp_Begin slot srcPort] @
                (case ue_fromString env (gw_wapBoxHost gw) of
                   Some wapIP \<Rightarrow> [Udp_Send slot wapIP dstPort payload]
                 | None \<Rightarrow> []))))"

definition handleIncomingMesh ::
  "udp_env \<Rightarrow> u32 \<Rightarrow> bytes \<Rightarrow> bytes \<Rightarrow> WDPGateway \<Rightarrow> (WDPGateway \<times> proxy_action list) option" where
  "handleIncomingMesh env now from data gw =
     (if length data < 7 then Some (gw, [])
      else case parseConcatUDH data of
        Some hdr \<Rightarrow>
          (case concat_step proxy_slot now from hdr (drop 12 data) (gw_concatMessages gw) of
             (table, None) \<Rightarrow> Some (gw\<lparr>gw_concatMessages := table\<rparr>, [])
           | (table, Some c) \<Rightarrow>
               (if length (cm_data c) < concat_size c then None
                else Some (forwardToWAPBox env now (cm_senderMeshId c) (cm_sourcePort c) (cm_destPort c)
                       (take (concat_size c) (cm_data c)) (gw\<lparr>gw_concatMessages := table\<rparr>))))
      | None \<Rightarrow>
          (case parseUDH data of
             None \<Rightarrow> Some (gw, [])
           | Some udh \<Rightarrow>
               Some (forwardToWAPBox env now from (udh_source udh) (udh_dest udh) (drop 7 data) gw)))"

section \<open>From the WAP box to the mesh\<close>

definition sendWDPViaMesh :: "bool \<Rightarrow> u32 \<Rightarrow> bytes \<Rightarrow> u16 \<Rightarrow> u16 \<Rightarrow> bytes \<Rightarrow> proxy_action list" where
  "sendWDPViaMesh callback now to srcPort dstPort data =
     (if callback then map (Mesh_Send to) (wdp_messages now srcPort dstPort data) else [])"

text \<open>\<open>recv i\<close>: the packet waiting on the socket of slot \<open>i\<close>, with the port it comes from and the
  time its answer is sent at.\<close>

definition recv_step ::
  "bool \<Rightarrow> (u32 \<times> u16 \<times> bytes) option \<Rightarrow> nat \<Rightarrow> PendingConnection \<Rightarrow> PendingConnection \<times> proxy_action list" where
  "recv_step callback packet i conn =
     (if \<not> pc_active conn then (conn, [])
      else case packet of
        None \<Rightarrow> (conn, [])
      | Some (now, remotePort, pkt) \<Rightarrow>
          (let buffer = take 1500 pkt in
           if buffer = [] then (conn, [])
           else
             (case clearPendingConnection i conn of (conn', stop) \<Rightarrow>
                (conn', sendWDPViaMesh callback now (pc_meshRecipient conn) remotePort
                   (pc_clientSourcePort conn) buffer @ stop))))"

definition expire_step :: "u32 \<Rightarrow> nat \<Rightarrow> PendingConnection \<Rightarrow> PendingConnection \<times> proxy_action list" where
  "expire_step now i conn =
     (if pc_active conn \<and> now - pc_timestamp conn > 60000 then clearPendingConnection i conn
      else (conn, []))"

definition expire_concat :: "u32 \<Rightarrow> ConcatMessage \<Rightarrow> ConcatMessage" where
  "expire_concat now c =
     (if cm_active c \<and> now - cm_lastUpdate c > 30000 then clearConcatMessage c else c)"

text \<open>A loop over the slots: \<open>f\<close> at each index, the actions in order.\<close>

fun for_slots ::
  "(nat \<Rightarrow> PendingConnection \<Rightarrow> PendingConnection \<times> proxy_action list) \<Rightarrow> nat \<Rightarrow> PendingConnection list
     \<Rightarrow> PendingConnection list \<times> proxy_action list" where
  "for_slots f i [] = ([], [])"
| "for_slots f i (c # cs) =
     (case f i c of (c', acts) \<Rightarrow>
        (case for_slots f (Suc i) cs of (cs', rest) \<Rightarrow> (c' # cs', acts @ rest)))"

definition gateway_loop ::
  "(nat \<Rightarrow> (u32 \<times> u16 \<times> bytes) option) \<Rightarrow> u32 \<Rightarrow> WDPGateway \<Rightarrow> WDPGateway \<times> proxy_action list" where
  "gateway_loop recv now gw =
     (case for_slots (\<lambda>i. recv_step (gw_callback gw) (recv i) i) 0 (gw_pendingConnections gw) of
        (conns, answers) \<Rightarrow>
          (case for_slots (expire_step now) 0 conns of
             (conns, stops) \<Rightarrow>
               (gw\<lparr>gw_pendingConnections := conns,
                   gw_concatMessages := map (expire_concat now) (gw_concatMessages gw)\<rparr>,
                answers @ stops)))"

text \<open>The functions outside the class act on a gateway that may not exist yet.\<close>

definition proxy_init ::
  "bytes \<Rightarrow> u16 \<Rightarrow> PendingConnection list \<Rightarrow> ConcatMessage list \<Rightarrow> WDPGateway option" where
  "proxy_init host port mem cmem = Some (WDPGateway_init host port mem cmem)"

definition proxy_begin :: "WDPGateway option \<Rightarrow> WDPGateway option" where
  "proxy_begin gw = map_option gateway_begin gw"

definition proxy_handleIncomingMesh ::
  "udp_env \<Rightarrow> u32 \<Rightarrow> bytes \<Rightarrow> bytes \<Rightarrow> WDPGateway option \<Rightarrow> (WDPGateway option \<times> proxy_action list) option" where
  "proxy_handleIncomingMesh env now from data gw =
     (case gw of
        None \<Rightarrow> Some (None, [])
      | Some g \<Rightarrow>
          (case handleIncomingMesh env now from data g of
             None \<Rightarrow> None
           | Some (g', acts) \<Rightarrow> Some (Some g', acts)))"

definition proxy_loop ::
  "(nat \<Rightarrow> (u32 \<times> u16 \<times> bytes) option) \<Rightarrow> u32 \<Rightarrow> WDPGateway option \<Rightarrow> WDPGateway option \<times> proxy_action list" where
  "proxy_loop recv now gw =
     (case gw of
        None \<Rightarrow> (None, [])
      | Some g \<Rightarrow> (case gateway_loop recv now g of (g', acts) \<Rightarrow> (Some g', acts)))"

section \<open>Reassembly and forwarding\<close>

interpretation proxy_reassembly: reassembler proxy_slot 2048
proof
  fix refNum totalParts :: u8 and sender :: bytes and table :: "ConcatMessage list"
    and i :: nat and now :: u32 and udh :: UDH
  assume "find_slot cm_active concat_key (refNum, sender) table = None"
    "first_index (\<lambda>c. \<not> cm_active c) table = Some i" "slots_sized 2048 table"
  then show "\<exists>c. proxy_slot now sender refNum totalParts udh table = Some (i, table[i := c]) \<and>
      opened_for 2048 sender refNum totalParts udh c"
    by (auto simp: proxy_slot_def opened_for_def slots_sized_def dest!: first_index_SomeD)
qed (auto simp: proxy_slot_def)


text \<open>A sequence of messages from one sender.\<close>

fun proxy_run ::
  "udp_env \<Rightarrow> bytes \<Rightarrow> (u32 \<times> bytes) list \<Rightarrow> WDPGateway \<Rightarrow> (WDPGateway \<times> proxy_action list) option" where
  "proxy_run env from [] gw = Some (gw, [])"
| "proxy_run env from ((now, data) # ms) gw =
     (case handleIncomingMesh env now from data gw of
        None \<Rightarrow> None
      | Some (gw1, acts) \<Rightarrow>
          (case proxy_run env from ms gw1 of
             None \<Rightarrow> None
           | Some (gw2, rest) \<Rightarrow> Some (gw2, acts @ rest)))"

lemma proxy_run_append:
  "proxy_run env from ms gw = Some (gw1, acts) \<Longrightarrow>
   proxy_run env from (ms @ ms') gw =
     (case proxy_run env from ms' gw1 of None \<Rightarrow> None | Some (gw2, rest) \<Rightarrow> Some (gw2, acts @ rest))"
proof (induction ms arbitrary: gw acts)
  case Nil
  then show ?case by (auto split: option.splits)
next
  case (Cons m ms)
  obtain now data where m: "m = (now, data)" by (cases m)
  from Cons.prems obtain g a r where
    h: "handleIncomingMesh env now from data gw = Some (g, a)" and
    r: "proxy_run env from ms g = Some (gw1, r)" "acts = a @ r"
    by (auto simp: m split: option.splits prod.splits)
  show ?case by (auto simp: m h Cons.IH [OF r(1)] r(2) split: option.splits)
qed

lemma handle_concat_message:
  "handleIncomingMesh env now from (concat_message r n p s d x) gw =
     (case concat_step proxy_slot now from (r, n, p, concat_header s d) x (gw_concatMessages gw) of
        (table, None) \<Rightarrow> Some (gw\<lparr>gw_concatMessages := table\<rparr>, [])
      | (table, Some c) \<Rightarrow>
          (if length (cm_data c) < concat_size c then None
           else Some (forwardToWAPBox env now (cm_senderMeshId c) (cm_sourcePort c) (cm_destPort c)
                  (take (concat_size c) (cm_data c)) (gw\<lparr>gw_concatMessages := table\<rparr>))))"
  by (simp add: handleIncomingMesh_def parse_concat_message)

lemma proxy_run_quiet:
  "concat_run proxy_slot from (part_sequence r (concat_header s d) msg ps) (gw_concatMessages gw) = (t, []) \<Longrightarrow>
   proxy_run env from (map (\<lambda>(now, p). (now, part_message r s d msg p)) ps) gw =
     Some (gw\<lparr>gw_concatMessages := t\<rparr>, [])"
proof (induction ps arbitrary: gw)
  case Nil
  then show ?case by (simp add: part_sequence_def)
next
  case (Cons np ps)
  obtain now p where np: "np = (now, p)" by (cases np)
  let ?n = "of_nat (count_parts (length msg)) :: u8"
  obtain t1 r1 where st: "concat_step proxy_slot now from (r, ?n, of_nat p, concat_header s d)
      (part_payload msg p) (gw_concatMessages gw) = (t1, r1)" by fastforce
  have "r1 = None" "concat_run proxy_slot from (part_sequence r (concat_header s d) msg ps) t1 = (t, [])"
    using Cons.prems by (auto simp: np part_sequence_def st split: prod.splits option.splits)
  then have "proxy_run env from (map (\<lambda>(now, p). (now, part_message r s d msg p)) ps)
      (gw\<lparr>gw_concatMessages := t1\<rparr>) = Some (gw\<lparr>gw_concatMessages := t1, gw_concatMessages := t\<rparr>, [])"
    using Cons.IH [of "gw\<lparr>gw_concatMessages := t1\<rparr>"] by simp
  then show ?case
    using st \<open>r1 = None\<close> by (simp add: np part_message_def handle_concat_message)
qed

lemma messages_are_parts:
  assumes "snd ` set ms \<subseteq> f ` A"
  shows "\<exists>ps. ms = map (\<lambda>(now, p). (now, f p)) ps \<and> snd ` set ps \<subseteq> A"
  using assms
proof (induction ms)
  case (Cons m ms)
  then obtain ps where ps: "ms = map (\<lambda>(now, p). (now, f p)) ps" "snd ` set ps \<subseteq> A" by auto
  obtain p where "p \<in> A" "snd m = f p" using Cons.prems by auto
  then have "m # ms = map (\<lambda>(now, p). (now, f p)) ((fst m, p) # ps)" "snd ` set ((fst m, p) # ps) \<subseteq> A"
    using ps by (auto simp: prod_eq_iff)
  then show ?case by (intro exI conjI)
qed simp


text \<open>C3: A datagram of 114 to 1728 bytes that a sender split with \<open>wdp_messages\<close> reaches the WAP box
  whole and once: whatever order its messages arrive in and however often they are repeated,
  nothing is sent while one is missing, and the message that completes it opens a connection for
  the client's port and sends exactly the datagram to the address and port it was meant for.
  The reassembly slot is free again.\<close>

theorem proxy_forwards_datagram:
  assumes long: "113 < length data" and len: "length data \<le> 1728"
    and fresh: "find_slot cm_active concat_key (ucast (t AND 0xFF), from) (gw_concatMessages gw) = None"
    and free: "first_index (\<lambda>c. \<not> cm_active c) (gw_concatMessages gw) = Some i"
    and sized: "slots_sized 2048 (gw_concatMessages gw)"
    and conn: "find_slot pc_active pc_key (srcPort, from) (gw_pendingConnections gw) = None"
    and slot: "first_index (\<lambda>c. \<not> pc_active c \<or> now - pc_timestamp c > 60000) (gw_pendingConnections gw) = Some j"
    and ip: "ue_fromString env (gw_wapBoxHost gw) = Some wapIP"
    and all: "insert m (snd ` set ms) = set (wdp_messages t srcPort dstPort data)" and new: "m \<notin> snd ` set ms"
  shows "\<exists>gw'. proxy_run env from ms gw = Some (gw', []) \<and>
    gw_pendingConnections gw' = gw_pendingConnections gw \<and>
    (\<exists>gw''. handleIncomingMesh env now from m gw' =
       Some (gw'', [Udp_Stop j, Udp_Begin j srcPort, Udp_Send j wapIP dstPort data]) \<and>
      \<not> cm_active (gw_concatMessages gw'' ! i) \<and>
      (\<forall>k. k \<noteq> i \<longrightarrow> gw_concatMessages gw'' ! k = gw_concatMessages gw ! k))"
proof -
  let ?r = "ucast (t AND 0xFF) :: u8" and ?n = "count_parts (length data)"
  let ?f = "part_message ?r srcPort dstPort data" and ?hdr = "concat_header srcPort dstPort"
  obtain ps where ps: "ms = map (\<lambda>(now, p). (now, ?f p)) ps" "snd ` set ps \<subseteq> {1..?n}"
    using messages_are_parts [OF messages_subset [OF long all]] by blast
  have "snd ` set ms = ?f ` snd ` set ps" by (force simp: ps(1))
  from datagram_parts [OF long len all new this ps(2)]
  obtain p where p: "1 \<le> p" "p \<le> 16" "m = ?f p" and pn: "p \<notin> snd ` set ps"
    and cover: "snd ` set (ps @ [(now, p)]) = {1..?n}" by blast
  obtain tab c where run: "concat_run proxy_slot from (part_sequence ?r ?hdr data ps) (gw_concatMessages gw) = (tab, [])"
    and step: "concat_step proxy_slot now from (?r, of_nat ?n, of_nat p, ?hdr) (part_payload data p) tab =
      ((gw_concatMessages gw)[i := clearConcatMessage c], Some c)"
    and c: "same_header from ?r ?hdr c" "concat_size c \<le> length (cm_data c)"
      "take (concat_size c) (cm_data c) = data"
    using proxy_reassembly.run_complete [OF fresh free sized len cover pn] by blast
  have "proxy_run env from ms gw = Some (gw\<lparr>gw_concatMessages := tab\<rparr>, [])"
    unfolding ps(1) by (rule proxy_run_quiet [OF run])
  moreover have "handleIncomingMesh env now from m (gw\<lparr>gw_concatMessages := tab\<rparr>) =
      Some (forwardToWAPBox env now from srcPort dstPort data
        (gw\<lparr>gw_concatMessages := (gw_concatMessages gw)[i := clearConcatMessage c]\<rparr>))"
    using c by (simp add: p(3) part_message_def handle_concat_message step same_header_def)
  moreover have "i < length (gw_concatMessages gw)" using free by (auto dest: first_index_SomeD)
  ultimately show ?thesis
    using conn slot ip by (simp add: forwardToWAPBox_def Let_def clearConcatMessage_def)
qed

section \<open>Repeated requests\<close>

lemma forward_pending:
  assumes "find_slot pc_active pc_key (srcPort, from) (gw_pendingConnections gw) = Some i"
  shows "forwardToWAPBox env now from srcPort dstPort payload gw =
    (gw\<lparr>gw_pendingConnections := (gw_pendingConnections gw)
       [i := (gw_pendingConnections gw ! i)\<lparr>pc_timestamp := now\<rparr>]\<rparr>, [])"
    "find_slot pc_active pc_key (srcPort, from) ((gw_pendingConnections gw)
       [i := (gw_pendingConnections gw ! i)\<lparr>pc_timestamp := now\<rparr>]) = Some i"
  using assms by (auto simp: forwardToWAPBox_def Let_def find_slot_def first_index_same pc_key_def)

lemma forward_opens:
  assumes "forwardToWAPBox env now from srcPort dstPort payload gw = (gw', acts)" "acts \<noteq> []"
  shows "\<exists>i. find_slot pc_active pc_key (srcPort, from) (gw_pendingConnections gw') = Some i"
proof (cases "find_slot pc_active pc_key (srcPort, from) (gw_pendingConnections gw)")
  case None
  then obtain i where i: "first_index (\<lambda>c. \<not> pc_active c \<or> now - pc_timestamp c > 60000)
      (gw_pendingConnections gw) = Some i"
    using assms by (auto simp: forwardToWAPBox_def Let_def split: option.splits)
  define conn where "conn = \<lparr>pc_active = True, pc_clientSourcePort = srcPort, pc_wapboxPort = dstPort,
    pc_meshRecipient = from, pc_timestamp = now,
    pc_udpSocket = (if ue_begin env srcPort then Some srcPort else None)\<rparr>"
  have "gw_pendingConnections gw' = (gw_pendingConnections gw)[i := conn]"
    using None i assms(1) by (auto simp: forwardToWAPBox_def Let_def conn_def)
  moreover have "find_slot pc_active pc_key (srcPort, from) ((gw_pendingConnections gw)[i := conn]) = Some i"
    unfolding find_slot_def
    by (rule first_index_upd)
      (use None i in \<open>auto simp: find_slot_def conn_def pc_key_def dest: first_index_SomeD\<close>)
  ultimately show ?thesis by simp
qed (use assms forward_pending(1) in auto)

text \<open>A client that repeats a request while its connection is pending does not cause a second
  datagram: once a message has been forwarded, every repetition only renews the time of the
  connection, whatever the time and however often.\<close>

theorem proxy_ignores_repetitions:
  assumes "handleIncomingMesh env now from (simple_message srcPort dstPort data) gw = Some (gw1, acts)"
    and "acts \<noteq> []"
  shows "\<exists>gw2. proxy_run env from (map (\<lambda>t. (t, simple_message srcPort dstPort data)) ts) gw1 = Some (gw2, []) \<and>
    gw_concatMessages gw2 = gw_concatMessages gw1 \<and>
    (\<exists>i. find_slot pc_active pc_key (srcPort, from) (gw_pendingConnections gw1) = Some i \<and>
      gw_pendingConnections gw2 = (gw_pendingConnections gw1)
        [i := (gw_pendingConnections gw1 ! i)
           \<lparr>pc_timestamp := last (pc_timestamp (gw_pendingConnections gw1 ! i) # ts)\<rparr>])"
proof -
  have handle: "handleIncomingMesh env t from (simple_message srcPort dstPort data) g =
      Some (forwardToWAPBox env t from srcPort dstPort data g)" for t g
    by (simp add: handleIncomingMesh_def parse_simple_message)
  have "forwardToWAPBox env now from srcPort dstPort data gw = (gw1, acts)"
    using assms(1) by (simp add: handle)
  from forward_opens [OF this assms(2)]
  obtain i where "find_slot pc_active pc_key (srcPort, from) (gw_pendingConnections gw1) = Some i" ..
  then show ?thesis
  proof (induction ts arbitrary: gw1)
    case Nil
    then show ?case by simp
  next
    case (Cons t ts)
    define g where "g = gw1\<lparr>gw_pendingConnections := (gw_pendingConnections gw1)
      [i := (gw_pendingConnections gw1 ! i)\<lparr>pc_timestamp := t\<rparr>]\<rparr>"
    have f: "forwardToWAPBox env t from srcPort dstPort data gw1 = (g, [])"
      "find_slot pc_active pc_key (srcPort, from) (gw_pendingConnections g) = Some i"
      using forward_pending [OF Cons.prems] by (auto simp: g_def)
    have "i < length (gw_pendingConnections gw1)"
      using Cons.prems by (auto simp: find_slot_def dest: first_index_SomeD)
    then have "gw_pendingConnections g ! i = (gw_pendingConnections gw1 ! i)\<lparr>pc_timestamp := t\<rparr>"
      "(gw_pendingConnections g)[i := x] = (gw_pendingConnections gw1)[i := x]"
      "gw_concatMessages g = gw_concatMessages gw1" for x
      by (simp_all add: g_def)
    then show ?case
      using Cons.IH [OF f(2)] f(2) Cons.prems by (auto simp: handle f(1))
  qed
qed

section \<open>The invariant of the gateway\<close>




















section \<open>The loop\<close>

lemma for_slots_eq:
  "for_slots f k cs =
     (map (\<lambda>i. fst (f (k + i) (cs ! i))) [0..<length cs],
      List.concat (map (\<lambda>i. snd (f (k + i) (cs ! i))) [0..<length cs]))"
proof (induction cs arbitrary: k)
  case (Cons c cs)
  have "[0..<length (c # cs)] = 0 # map Suc [0..<length cs]"
    by (simp add: map_Suc_upt upt_conv_Cons del: upt_Suc)
  then show ?case
    by (simp add: Cons.IH comp_def split: prod.split)
qed simp

text \<open>The slot has an answer waiting.\<close>

definition answered :: "(u32 \<times> u16 \<times> bytes) option \<Rightarrow> PendingConnection \<Rightarrow> bool" where
  "answered packet conn \<longleftrightarrow>
     pc_active conn \<and> (case packet of None \<Rightarrow> False | Some (t, port, pkt) \<Rightarrow> pkt \<noteq> [])"

definition expired :: "u32 \<Rightarrow> PendingConnection \<Rightarrow> bool" where
  "expired now conn \<longleftrightarrow> pc_active conn \<and> now - pc_timestamp conn > 60000"

definition answer :: "bool \<Rightarrow> (u32 \<times> u16 \<times> bytes) option \<Rightarrow> PendingConnection \<Rightarrow> proxy_action list" where
  "answer callback packet conn =
     (case packet of
        None \<Rightarrow> []
      | Some (t, port, pkt) \<Rightarrow>
          (if pc_active conn \<and> pkt \<noteq> []
           then sendWDPViaMesh callback t (pc_meshRecipient conn) port (pc_clientSourcePort conn) (take 1500 pkt)
           else []))"

definition to_mesh :: "proxy_action \<Rightarrow> bool" where
  "to_mesh a \<longleftrightarrow> (case a of Mesh_Send _ _ \<Rightarrow> True | _ \<Rightarrow> False)"

lemma to_mesh_simps [simp]:
  "to_mesh (Mesh_Send x y)" "\<not> to_mesh (Udp_Stop i)" "\<not> to_mesh (Udp_Begin i p)" "\<not> to_mesh (Udp_Send i q p z)"
  by (simp_all add: to_mesh_def)

lemma filter_mesh_send [simp]: "filter to_mesh (sendWDPViaMesh cb t to s d x) = sendWDPViaMesh cb t to s d x"
  by (auto simp: sendWDPViaMesh_def filter_id_conv)

lemma recv_step_eq:
  "recv_step cb packet i conn =
     (if answered packet conn
      then (fst (clearPendingConnection i conn), answer cb packet conn @ [Udp_Stop i]) else (conn, []))"
  by (auto simp: recv_step_def answered_def answer_def clearPendingConnection_def Let_def split: option.splits)

lemma expire_step_eq:
  "expire_step now i conn =
     (if expired now conn then (fst (clearPendingConnection i conn), [Udp_Stop i]) else (conn, []))"
  by (auto simp: expire_step_def expired_def clearPendingConnection_def)


lemma expired_cleared [simp]: "\<not> expired now (fst (clearPendingConnection i conn))"
  by (simp add: expired_def clearPendingConnection_def)

text \<open>A slot after the loop.\<close>

lemma gateway_loop_slots:
  assumes "gateway_loop recv now gw = (gw', acts)"
  shows "length (gw_pendingConnections gw') = length (gw_pendingConnections gw)"
    "i < length (gw_pendingConnections gw) \<Longrightarrow> gw_pendingConnections gw' ! i =
       (let c = gw_pendingConnections gw ! i in
        if answered (recv i) c \<or> expired now c then fst (clearPendingConnection i c) else c)"
    "gw_concatMessages gw' = map (expire_concat now) (gw_concatMessages gw)"
  using assms by (auto simp: gateway_loop_def for_slots_eq recv_step_eq expire_step_eq Let_def clearPendingConnection_def)


text \<open>C14: No connection outlives 60 seconds without a request and no datagram 30 seconds without a part
  (the clock may wrap), and what is younger and unanswered is left as it was.\<close>

theorem gateway_loop_expires:
  assumes "gateway_loop recv now gw = (gw', acts)"
  shows "(\<forall>i < length (gw_pendingConnections gw).
      (let c = gw_pendingConnections gw ! i; c' = gw_pendingConnections gw' ! i in
       (pc_active c' \<longrightarrow> now - pc_timestamp c' \<le> 60000) \<and>
       (now - pc_timestamp c \<le> 60000 \<and> \<not> answered (recv i) c \<longrightarrow> c' = c)))
    \<and> (\<forall>i < length (gw_concatMessages gw).
      (let c = gw_concatMessages gw ! i; c' = gw_concatMessages gw' ! i in
       (cm_active c' \<longrightarrow> now - cm_lastUpdate c' \<le> 30000) \<and>
       (now - cm_lastUpdate c \<le> 30000 \<longrightarrow> c' = c)))"
  using gateway_loop_slots [OF assms]
  by (auto simp: Let_def expired_def expire_concat_def clearPendingConnection_def clearConcatMessage_def not_le)



section \<open>Concrete runs\<close>

definition unused_connection :: PendingConnection where
  "unused_connection =
     \<lparr>pc_active = False, pc_clientSourcePort = 0, pc_wapboxPort = 0, pc_meshRecipient = [],
      pc_timestamp = 0, pc_udpSocket = None\<rparr>"

definition unused_slot :: "nat \<Rightarrow> u16 \<Rightarrow> ConcatMessage" where
  "unused_slot cap partSize =
     \<lparr>cm_active = False, cm_refNum = 0, cm_totalParts = 0, cm_receivedParts = 0,
      cm_partReceived = replicate 16 0, cm_data = replicate cap 0, cm_partSizes = replicate 16 partSize,
      cm_sourcePort = 0, cm_destPort = 0, cm_senderMeshId = [], cm_lastUpdate = 0\<rparr>"

text \<open>A gateway in memory whose part sizes hold \<open>partSize\<close>, and a network where every call succeeds.\<close>

definition new_gateway :: "u16 \<Rightarrow> WDPGateway" where
  "new_gateway partSize =
     gateway_begin (WDPGateway_init [] 9200 (replicate 8 unused_connection) (replicate 4 (unused_slot 2048 partSize)))"

definition open_env :: udp_env where
  "open_env = \<lparr>ue_begin = (\<lambda>_. True), ue_fromString = (\<lambda>_. Some 1)\<rparr>"

lemma new_gateway_simps [simp]:
  "gw_pendingConnections (new_gateway q) = replicate 8 unused_connection"
  "gw_concatMessages (new_gateway q) = replicate 4 (unused_slot 2048 q)"
  "gw_wapBoxHost (new_gateway q) = []" "gw_callback (new_gateway q)"
  by (simp_all add: new_gateway_def gateway_begin_def WDPGateway_init_def unused_connection_def unused_slot_def)

lemma new_gateway_tables:
  "find_slot cm_active concat_key k (replicate 4 (unused_slot c q)) = None"
  "first_index (\<lambda>c. \<not> cm_active c) (replicate 4 (unused_slot c q)) = Some 0"
  "find_slot pc_active pc_key k' (replicate 8 unused_connection) = None"
  "first_index (\<lambda>c. pc_active c \<longrightarrow> X c) (replicate 8 unused_connection) = Some 0"
  "slots_sized c (replicate 4 (unused_slot c q))"
  by (simp_all add: find_slot_def first_index_replicate unused_slot_def unused_connection_def slots_sized_def)

theorem proxy_forwards_datagram_witness:
  "\<exists>gw'. proxy_run open_env [1] [(5, concat_message 0 2 2 1024 9200 (replicate 6 7))] (new_gateway 0) = Some (gw', []) \<and>
    (\<exists>gw''. handleIncomingMesh open_env 6 [1] (concat_message 0 2 1 1024 9200 (replicate 108 7)) gw' =
       Some (gw'', [Udp_Stop 0, Udp_Begin 0 1024, Udp_Send 0 1 9200 (replicate 114 7)]))"
proof -
  have msgs: "wdp_messages 0 1024 9200 (replicate 114 7) =
      [concat_message 0 2 1 1024 9200 (replicate 108 7), concat_message 0 2 2 1024 9200 (replicate 6 7)]"
    by (simp add: wdp_messages_def Let_def count_parts_def part_payload_eq upt_rec)
  show ?thesis
    using proxy_forwards_datagram [of "replicate 114 7" 0 "[1]" "new_gateway 0" 0 1024 6 0 open_env 1
        "concat_message 0 2 1 1024 9200 (replicate 108 7)"
        "[(5, concat_message 0 2 2 1024 9200 (replicate 6 7))]" 9200]
    by (auto simp: msgs new_gateway_tables open_env_def concat_message_def)
qed

theorem proxy_ignores_repetitions_witness:
  "\<exists>gw1. handleIncomingMesh open_env 6 [1] (simple_message 1024 9200 [7]) (new_gateway 0) =
      Some (gw1, [Udp_Stop 0, Udp_Begin 0 1024, Udp_Send 0 1 9200 [7]]) \<and>
    (\<exists>gw2. proxy_run open_env [1] (map (\<lambda>t. (t, simple_message 1024 9200 [7])) [8, 70000]) gw1 = Some (gw2, []))"
proof -
  have "\<exists>gw1. handleIncomingMesh open_env 6 [1] (simple_message 1024 9200 [7]) (new_gateway 0) =
      Some (gw1, [Udp_Stop 0, Udp_Begin 0 1024, Udp_Send 0 1 9200 [7]])"
    by (simp add: handleIncomingMesh_def parse_simple_message forwardToWAPBox_def Let_def new_gateway_tables open_env_def)
  then obtain gw1 where gw1: "handleIncomingMesh open_env 6 [1] (simple_message 1024 9200 [7]) (new_gateway 0) =
      Some (gw1, [Udp_Stop 0, Udp_Begin 0 1024, Udp_Send 0 1 9200 [7]])" ..
  from proxy_ignores_repetitions [OF this, of "[8, 70000]"] gw1 show ?thesis by blast
qed


theorem gateway_loop_expires_witness:
  "gw_concatMessages (fst (gateway_loop (\<lambda>_. None) 30000 (new_gateway 0))) ! 3 = unused_slot 2048 0"
  using gateway_loop_expires [OF prod.collapse [symmetric], where gw = "new_gateway 0" and recv = "\<lambda>_. None" and now = 30000]
  by (simp add: Let_def unused_slot_def)


text \<open>C19: Without cleared memory that fails: the constructor leaves \<open>partSizes\<close> as it was and opening a
  slot does not reset it, so two short messages (part 1 of 2, then part 5 under the same reference number)
  complete a datagram whose second size was never written, and the gateway reads past the buffer.\<close>

theorem stale_part_size_overread:
  "proxy_run open_env [1] [(5, concat_message 7 2 1 1024 9200 [x]), (6, concat_message 7 5 5 1024 9200 [y])]
     (new_gateway 0xFFFF) = None"
proof -
  define c1 where "c1 = store_part 5 1 [x] ((unused_slot 2048 0xFFFF)
    \<lparr>cm_active := True, cm_refNum := 7, cm_totalParts := 2, cm_receivedParts := 0,
     cm_sourcePort := 1024, cm_destPort := 9200, cm_senderMeshId := [1],
     cm_partReceived := replicate 16 0, cm_data := replicate 2048 0\<rparr>)"
  have acc: "accepts_part 1 [x] (unused_slot 2048 0xFFFF)"
    by (simp add: accepts_part_def unused_slot_def)
  have c1: "cm_active c1" "concat_key c1 = (7, [1])" "cm_totalParts c1 = 2" "cm_receivedParts c1 = 1"
    "cm_partReceived c1 = (replicate 16 0)[0 := 1]" "cm_partSizes c1 = (replicate 16 0xFFFF)[0 := 1]"
    "length (cm_data c1) = 2048"
    by (simp_all add: c1_def store_part_def accepts_part_def unused_slot_def Let_def concat_key_def length_write_at)
  define c2 where "c2 = store_part 6 5 [y] c1"
  have c2: "cm_totalParts c2 = 2" "cm_receivedParts c2 = 2" "length (cm_data c2) = 2048"
    "cm_partSizes c2 = (replicate 16 0xFFFF)[0 := 1, 4 := 1]"
    using c1 by (simp_all add: c2_def store_part_def accepts_part_def Let_def length_write_at)
  have "concat_size c2 = 65536"
    using c2 by (simp add: concat_size_def upt_rec)
  have "handleIncomingMesh open_env 5 [1] (concat_message 7 2 1 1024 9200 [x]) (new_gateway 0xFFFF) =
      Some ((new_gateway 0xFFFF)\<lparr>gw_concatMessages := (replicate 4 (unused_slot 2048 0xFFFF))[0 := c1]\<rparr>, [])"
    using c1(3,4)
    by (simp add: handle_concat_message concat_step_def proxy_slot_def new_gateway_tables c1_def [symmetric]
        Let_def concat_complete_def)
  moreover have "find_slot cm_active concat_key (7, [1]) ((replicate 4 (unused_slot 2048 0xFFFF))[0 := c1]) = Some 0"
    unfolding find_slot_def by (rule first_index_upd) (use c1 new_gateway_tables in \<open>auto simp: find_slot_def\<close>)
  ultimately show ?thesis
    using c2 \<open>concat_size c2 = 65536\<close>
    by (simp add: handle_concat_message concat_step_def proxy_slot_def c2_def [symmetric] Let_def
        concat_complete_def)
qed

end
