(* ===== verification/WspTypes.thy ===== *)
theory WspTypes
  imports MapPrelude
begin

text \<open>
  \<^verbatim>\<open>lib/wap/wap_types.h\<close>: the WSP enumerations with their assigned numbers, and the
  \<open>HTTPResponse\<close> structure.  A character array of the structure is the C string it holds
  (its bytes before the first NUL); a pointer into the PDU is \<^term>\<open>None\<close> when null and
  otherwise the bytes from there to the end of the PDU.
\<close>

section \<open>Enumerations\<close>

text \<open>WSP PDU types.\<close>

datatype WSPPduType =
    WSP_PDU_CONNECT
  | WSP_PDU_CONNECT_REPLY
  | WSP_PDU_REDIRECT
  | WSP_PDU_REPLY
  | WSP_PDU_DISCONNECT
  | WSP_PDU_PUSH
  | WSP_PDU_CONFIRMED_PUSH
  | WSP_PDU_SUSPEND
  | WSP_PDU_RESUME

primrec pdu_code :: "WSPPduType \<Rightarrow> u8" where
    "pdu_code WSP_PDU_CONNECT = 0x01"
  | "pdu_code WSP_PDU_CONNECT_REPLY = 0x02"
  | "pdu_code WSP_PDU_REDIRECT = 0x03"
  | "pdu_code WSP_PDU_REPLY = 0x04"
  | "pdu_code WSP_PDU_DISCONNECT = 0x05"
  | "pdu_code WSP_PDU_PUSH = 0x06"
  | "pdu_code WSP_PDU_CONFIRMED_PUSH = 0x07"
  | "pdu_code WSP_PDU_SUSPEND = 0x08"
  | "pdu_code WSP_PDU_RESUME = 0x09"

text \<open>GET and POST method subtypes.\<close>

datatype WSPGetSubtype =
    WSP_GET
  | WSP_OPTIONS
  | WSP_HEAD
  | WSP_DELETE
  | WSP_TRACE

primrec get_code :: "WSPGetSubtype \<Rightarrow> u8" where
    "get_code WSP_GET = 0x00"
  | "get_code WSP_OPTIONS = 0x01"
  | "get_code WSP_HEAD = 0x02"
  | "get_code WSP_DELETE = 0x03"
  | "get_code WSP_TRACE = 0x04"

text \<open>POST method subtypes.\<close>

datatype WSPPostSubtype =
    WSP_POST
  | WSP_PUT

primrec post_code :: "WSPPostSubtype \<Rightarrow> u8" where
    "post_code WSP_POST = 0x00"
  | "post_code WSP_PUT = 0x01"

text \<open>Well-known header fields.\<close>

datatype (plugins only: code) WSPHeaderCode =
    WSP_HEADER_ACCEPT
  | WSP_HEADER_ACCEPT_CHARSET
  | WSP_HEADER_ACCEPT_ENCODING
  | WSP_HEADER_ACCEPT_LANGUAGE
  | WSP_HEADER_ACCEPT_RANGES
  | WSP_HEADER_AGE
  | WSP_HEADER_ALLOW
  | WSP_HEADER_AUTHORIZATION
  | WSP_HEADER_CACHE_CONTROL
  | WSP_HEADER_CONNECTION
  | WSP_HEADER_CONTENT_BASE
  | WSP_HEADER_CONTENT_ENCODING
  | WSP_HEADER_CONTENT_LANGUAGE
  | WSP_HEADER_CONTENT_LENGTH
  | WSP_HEADER_CONTENT_LOCATION
  | WSP_HEADER_CONTENT_MD5
  | WSP_HEADER_CONTENT_RANGE
  | WSP_HEADER_CONTENT_TYPE
  | WSP_HEADER_DATE
  | WSP_HEADER_ETAG
  | WSP_HEADER_EXPIRES
  | WSP_HEADER_FROM
  | WSP_HEADER_HOST
  | WSP_HEADER_IF_MODIFIED_SINCE
  | WSP_HEADER_IF_MATCH
  | WSP_HEADER_IF_NONE_MATCH
  | WSP_HEADER_IF_RANGE
  | WSP_HEADER_IF_UNMODIFIED_SINCE
  | WSP_HEADER_LOCATION
  | WSP_HEADER_LAST_MODIFIED
  | WSP_HEADER_MAX_FORWARDS
  | WSP_HEADER_PRAGMA
  | WSP_HEADER_PROXY_AUTHENTICATE
  | WSP_HEADER_PROXY_AUTHORIZATION
  | WSP_HEADER_PUBLIC
  | WSP_HEADER_RANGE
  | WSP_HEADER_REFERER
  | WSP_HEADER_RETRY_AFTER
  | WSP_HEADER_SERVER
  | WSP_HEADER_TRANSFER_ENCODING
  | WSP_HEADER_UPGRADE
  | WSP_HEADER_USER_AGENT
  | WSP_HEADER_VARY
  | WSP_HEADER_VIA
  | WSP_HEADER_WARNING
  | WSP_HEADER_WWW_AUTHENTICATE
  | WSP_HEADER_CONTENT_DISPOSITION
  | WSP_HEADER_X_WAP_APPLICATION_ID
  | WSP_HEADER_X_WAP_CONTENT_URI
  | WSP_HEADER_X_WAP_INITIATOR_URI
  | WSP_HEADER_ACCEPT_APPLICATION
  | WSP_HEADER_BEARER_INDICATION
  | WSP_HEADER_PUSH_FLAG
  | WSP_HEADER_PROFILE
  | WSP_HEADER_PROFILE_DIFF
  | WSP_HEADER_PROFILE_WARNING
  | WSP_HEADER_EXPECT
  | WSP_HEADER_TE
  | WSP_HEADER_TRAILER
  | WSP_HEADER_ENCODING_VERSION

primrec header_code :: "WSPHeaderCode \<Rightarrow> u8" where
    "header_code WSP_HEADER_ACCEPT = 0x00"
  | "header_code WSP_HEADER_ACCEPT_CHARSET = 0x01"
  | "header_code WSP_HEADER_ACCEPT_ENCODING = 0x02"
  | "header_code WSP_HEADER_ACCEPT_LANGUAGE = 0x03"
  | "header_code WSP_HEADER_ACCEPT_RANGES = 0x04"
  | "header_code WSP_HEADER_AGE = 0x05"
  | "header_code WSP_HEADER_ALLOW = 0x06"
  | "header_code WSP_HEADER_AUTHORIZATION = 0x07"
  | "header_code WSP_HEADER_CACHE_CONTROL = 0x08"
  | "header_code WSP_HEADER_CONNECTION = 0x09"
  | "header_code WSP_HEADER_CONTENT_BASE = 0x0A"
  | "header_code WSP_HEADER_CONTENT_ENCODING = 0x0B"
  | "header_code WSP_HEADER_CONTENT_LANGUAGE = 0x0C"
  | "header_code WSP_HEADER_CONTENT_LENGTH = 0x0D"
  | "header_code WSP_HEADER_CONTENT_LOCATION = 0x0E"
  | "header_code WSP_HEADER_CONTENT_MD5 = 0x0F"
  | "header_code WSP_HEADER_CONTENT_RANGE = 0x10"
  | "header_code WSP_HEADER_CONTENT_TYPE = 0x11"
  | "header_code WSP_HEADER_DATE = 0x12"
  | "header_code WSP_HEADER_ETAG = 0x13"
  | "header_code WSP_HEADER_EXPIRES = 0x14"
  | "header_code WSP_HEADER_FROM = 0x15"
  | "header_code WSP_HEADER_HOST = 0x16"
  | "header_code WSP_HEADER_IF_MODIFIED_SINCE = 0x17"
  | "header_code WSP_HEADER_IF_MATCH = 0x18"
  | "header_code WSP_HEADER_IF_NONE_MATCH = 0x19"
  | "header_code WSP_HEADER_IF_RANGE = 0x1A"
  | "header_code WSP_HEADER_IF_UNMODIFIED_SINCE = 0x1B"
  | "header_code WSP_HEADER_LOCATION = 0x1C"
  | "header_code WSP_HEADER_LAST_MODIFIED = 0x1D"
  | "header_code WSP_HEADER_MAX_FORWARDS = 0x1E"
  | "header_code WSP_HEADER_PRAGMA = 0x1F"
  | "header_code WSP_HEADER_PROXY_AUTHENTICATE = 0x20"
  | "header_code WSP_HEADER_PROXY_AUTHORIZATION = 0x21"
  | "header_code WSP_HEADER_PUBLIC = 0x22"
  | "header_code WSP_HEADER_RANGE = 0x23"
  | "header_code WSP_HEADER_REFERER = 0x24"
  | "header_code WSP_HEADER_RETRY_AFTER = 0x25"
  | "header_code WSP_HEADER_SERVER = 0x26"
  | "header_code WSP_HEADER_TRANSFER_ENCODING = 0x27"
  | "header_code WSP_HEADER_UPGRADE = 0x28"
  | "header_code WSP_HEADER_USER_AGENT = 0x29"
  | "header_code WSP_HEADER_VARY = 0x2A"
  | "header_code WSP_HEADER_VIA = 0x2B"
  | "header_code WSP_HEADER_WARNING = 0x2C"
  | "header_code WSP_HEADER_WWW_AUTHENTICATE = 0x2D"
  | "header_code WSP_HEADER_CONTENT_DISPOSITION = 0x2E"
  | "header_code WSP_HEADER_X_WAP_APPLICATION_ID = 0x2F"
  | "header_code WSP_HEADER_X_WAP_CONTENT_URI = 0x30"
  | "header_code WSP_HEADER_X_WAP_INITIATOR_URI = 0x31"
  | "header_code WSP_HEADER_ACCEPT_APPLICATION = 0x32"
  | "header_code WSP_HEADER_BEARER_INDICATION = 0x33"
  | "header_code WSP_HEADER_PUSH_FLAG = 0x34"
  | "header_code WSP_HEADER_PROFILE = 0x35"
  | "header_code WSP_HEADER_PROFILE_DIFF = 0x36"
  | "header_code WSP_HEADER_PROFILE_WARNING = 0x37"
  | "header_code WSP_HEADER_EXPECT = 0x38"
  | "header_code WSP_HEADER_TE = 0x39"
  | "header_code WSP_HEADER_TRAILER = 0x3A"
  | "header_code WSP_HEADER_ENCODING_VERSION = 0x47"

text \<open>Well-known content types.\<close>

datatype (plugins only: code) WSPContentTypeCode =
    WSP_CT_ANY
  | WSP_CT_TEXT_ANY
  | WSP_CT_TEXT_HTML
  | WSP_CT_TEXT_PLAIN
  | WSP_CT_TEXT_X_HDML
  | WSP_CT_TEXT_X_TTML
  | WSP_CT_TEXT_X_VCALENDAR
  | WSP_CT_TEXT_X_VCARD
  | WSP_CT_TEXT_VND_WAP_WML
  | WSP_CT_TEXT_VND_WAP_WMLSCRIPT
  | WSP_CT_APP_VND_WAP_CATC
  | WSP_CT_MULTIPART_ANY
  | WSP_CT_MULTIPART_MIXED
  | WSP_CT_MULTIPART_FORM
  | WSP_CT_MULTIPART_BYTERANGES
  | WSP_CT_MULTIPART_ALT
  | WSP_CT_APP_ANY
  | WSP_CT_APP_JAVA_VM
  | WSP_CT_APP_X_WWW_FORM
  | WSP_CT_APP_X_HDMLC
  | WSP_CT_APP_VND_WAP_WMLC
  | WSP_CT_APP_VND_WAP_WMLSCRIPTC
  | WSP_CT_IMAGE_ANY
  | WSP_CT_IMAGE_GIF
  | WSP_CT_IMAGE_JPEG
  | WSP_CT_IMAGE_TIFF
  | WSP_CT_IMAGE_PNG
  | WSP_CT_IMAGE_VND_WAP_WBMP
  | WSP_CT_APP_XML
  | WSP_CT_TEXT_XML
  | WSP_CT_APP_VND_WAP_WBXML
  | WSP_CT_APP_XHTML_XML
  | WSP_CT_TEXT_CSS
  | WSP_CT_APP_OCTET_STREAM

primrec ct_code :: "WSPContentTypeCode \<Rightarrow> u8" where
    "ct_code WSP_CT_ANY = 0x00"
  | "ct_code WSP_CT_TEXT_ANY = 0x01"
  | "ct_code WSP_CT_TEXT_HTML = 0x02"
  | "ct_code WSP_CT_TEXT_PLAIN = 0x03"
  | "ct_code WSP_CT_TEXT_X_HDML = 0x04"
  | "ct_code WSP_CT_TEXT_X_TTML = 0x05"
  | "ct_code WSP_CT_TEXT_X_VCALENDAR = 0x06"
  | "ct_code WSP_CT_TEXT_X_VCARD = 0x07"
  | "ct_code WSP_CT_TEXT_VND_WAP_WML = 0x08"
  | "ct_code WSP_CT_TEXT_VND_WAP_WMLSCRIPT = 0x09"
  | "ct_code WSP_CT_APP_VND_WAP_CATC = 0x0A"
  | "ct_code WSP_CT_MULTIPART_ANY = 0x0B"
  | "ct_code WSP_CT_MULTIPART_MIXED = 0x0C"
  | "ct_code WSP_CT_MULTIPART_FORM = 0x0D"
  | "ct_code WSP_CT_MULTIPART_BYTERANGES = 0x0E"
  | "ct_code WSP_CT_MULTIPART_ALT = 0x0F"
  | "ct_code WSP_CT_APP_ANY = 0x10"
  | "ct_code WSP_CT_APP_JAVA_VM = 0x11"
  | "ct_code WSP_CT_APP_X_WWW_FORM = 0x12"
  | "ct_code WSP_CT_APP_X_HDMLC = 0x13"
  | "ct_code WSP_CT_APP_VND_WAP_WMLC = 0x14"
  | "ct_code WSP_CT_APP_VND_WAP_WMLSCRIPTC = 0x15"
  | "ct_code WSP_CT_IMAGE_ANY = 0x1C"
  | "ct_code WSP_CT_IMAGE_GIF = 0x1D"
  | "ct_code WSP_CT_IMAGE_JPEG = 0x1E"
  | "ct_code WSP_CT_IMAGE_TIFF = 0x1F"
  | "ct_code WSP_CT_IMAGE_PNG = 0x20"
  | "ct_code WSP_CT_IMAGE_VND_WAP_WBMP = 0x21"
  | "ct_code WSP_CT_APP_XML = 0x27"
  | "ct_code WSP_CT_TEXT_XML = 0x28"
  | "ct_code WSP_CT_APP_VND_WAP_WBXML = 0x29"
  | "ct_code WSP_CT_APP_XHTML_XML = 0x3B"
  | "ct_code WSP_CT_TEXT_CSS = 0x3D"
  | "ct_code WSP_CT_APP_OCTET_STREAM = 0x5A"

section \<open>The assigned numbers are distinct\<close>

definition all_headers :: "WSPHeaderCode list" where
  "all_headers =
    [WSP_HEADER_ACCEPT, WSP_HEADER_ACCEPT_CHARSET, WSP_HEADER_ACCEPT_ENCODING,
     WSP_HEADER_ACCEPT_LANGUAGE, WSP_HEADER_ACCEPT_RANGES, WSP_HEADER_AGE, WSP_HEADER_ALLOW,
     WSP_HEADER_AUTHORIZATION, WSP_HEADER_CACHE_CONTROL, WSP_HEADER_CONNECTION,
     WSP_HEADER_CONTENT_BASE, WSP_HEADER_CONTENT_ENCODING, WSP_HEADER_CONTENT_LANGUAGE,
     WSP_HEADER_CONTENT_LENGTH, WSP_HEADER_CONTENT_LOCATION, WSP_HEADER_CONTENT_MD5,
     WSP_HEADER_CONTENT_RANGE, WSP_HEADER_CONTENT_TYPE, WSP_HEADER_DATE, WSP_HEADER_ETAG,
     WSP_HEADER_EXPIRES, WSP_HEADER_FROM, WSP_HEADER_HOST, WSP_HEADER_IF_MODIFIED_SINCE,
     WSP_HEADER_IF_MATCH, WSP_HEADER_IF_NONE_MATCH, WSP_HEADER_IF_RANGE,
     WSP_HEADER_IF_UNMODIFIED_SINCE, WSP_HEADER_LOCATION, WSP_HEADER_LAST_MODIFIED,
     WSP_HEADER_MAX_FORWARDS, WSP_HEADER_PRAGMA, WSP_HEADER_PROXY_AUTHENTICATE,
     WSP_HEADER_PROXY_AUTHORIZATION, WSP_HEADER_PUBLIC, WSP_HEADER_RANGE, WSP_HEADER_REFERER,
     WSP_HEADER_RETRY_AFTER, WSP_HEADER_SERVER, WSP_HEADER_TRANSFER_ENCODING, WSP_HEADER_UPGRADE,
     WSP_HEADER_USER_AGENT, WSP_HEADER_VARY, WSP_HEADER_VIA, WSP_HEADER_WARNING,
     WSP_HEADER_WWW_AUTHENTICATE, WSP_HEADER_CONTENT_DISPOSITION,
     WSP_HEADER_X_WAP_APPLICATION_ID, WSP_HEADER_X_WAP_CONTENT_URI,
     WSP_HEADER_X_WAP_INITIATOR_URI, WSP_HEADER_ACCEPT_APPLICATION, WSP_HEADER_BEARER_INDICATION,
     WSP_HEADER_PUSH_FLAG, WSP_HEADER_PROFILE, WSP_HEADER_PROFILE_DIFF,
     WSP_HEADER_PROFILE_WARNING, WSP_HEADER_EXPECT, WSP_HEADER_TE, WSP_HEADER_TRAILER,
     WSP_HEADER_ENCODING_VERSION]"

definition all_content_types :: "WSPContentTypeCode list" where
  "all_content_types =
    [WSP_CT_ANY, WSP_CT_TEXT_ANY, WSP_CT_TEXT_HTML, WSP_CT_TEXT_PLAIN, WSP_CT_TEXT_X_HDML,
     WSP_CT_TEXT_X_TTML, WSP_CT_TEXT_X_VCALENDAR, WSP_CT_TEXT_X_VCARD, WSP_CT_TEXT_VND_WAP_WML,
     WSP_CT_TEXT_VND_WAP_WMLSCRIPT, WSP_CT_APP_VND_WAP_CATC, WSP_CT_MULTIPART_ANY,
     WSP_CT_MULTIPART_MIXED, WSP_CT_MULTIPART_FORM, WSP_CT_MULTIPART_BYTERANGES,
     WSP_CT_MULTIPART_ALT, WSP_CT_APP_ANY, WSP_CT_APP_JAVA_VM, WSP_CT_APP_X_WWW_FORM,
     WSP_CT_APP_X_HDMLC, WSP_CT_APP_VND_WAP_WMLC, WSP_CT_APP_VND_WAP_WMLSCRIPTC,
     WSP_CT_IMAGE_ANY, WSP_CT_IMAGE_GIF, WSP_CT_IMAGE_JPEG, WSP_CT_IMAGE_TIFF, WSP_CT_IMAGE_PNG,
     WSP_CT_IMAGE_VND_WAP_WBMP, WSP_CT_APP_XML, WSP_CT_TEXT_XML, WSP_CT_APP_VND_WAP_WBXML,
     WSP_CT_APP_XHTML_XML, WSP_CT_TEXT_CSS, WSP_CT_APP_OCTET_STREAM]"

lemma in_all_headers: "h \<in> set all_headers"
  by (cases h) (simp_all add: all_headers_def)

lemma in_all_content_types: "c \<in> set all_content_types"
  by (cases c) (simp_all add: all_content_types_def)

lemma header_code_inj: "inj header_code"
proof (rule inj_onI)
  fix x y :: WSPHeaderCode
  assume "header_code x = header_code y"
  moreover have "distinct (map header_code all_headers)"
    by (simp add: all_headers_def)
  ultimately show "x = y"
    using in_all_headers by (auto simp: distinct_map dest: inj_onD)
qed

lemma ct_code_inj: "inj ct_code"
proof (rule inj_onI)
  fix x y :: WSPContentTypeCode
  assume "ct_code x = ct_code y"
  moreover have "distinct (map ct_code all_content_types)"
    by (simp add: all_content_types_def)
  ultimately show "x = y"
    using in_all_content_types by (auto simp: distinct_map dest: inj_onD)
qed

text \<open>Header fields and content types are ordered by their numbers.\<close>

instantiation WSPHeaderCode :: linorder
begin

definition less_eq_WSPHeaderCode :: "WSPHeaderCode \<Rightarrow> WSPHeaderCode \<Rightarrow> bool" where
  "less_eq_WSPHeaderCode x y = (header_code x \<le> header_code y)"

definition less_WSPHeaderCode :: "WSPHeaderCode \<Rightarrow> WSPHeaderCode \<Rightarrow> bool" where
  "less_WSPHeaderCode x y = (header_code x < header_code y)"

instance
  by standard
    (auto simp: less_eq_WSPHeaderCode_def less_WSPHeaderCode_def dest: injD [OF header_code_inj])

end

instantiation WSPContentTypeCode :: linorder
begin

definition less_eq_WSPContentTypeCode :: "WSPContentTypeCode \<Rightarrow> WSPContentTypeCode \<Rightarrow> bool" where
  "less_eq_WSPContentTypeCode x y = (ct_code x \<le> ct_code y)"

definition less_WSPContentTypeCode :: "WSPContentTypeCode \<Rightarrow> WSPContentTypeCode \<Rightarrow> bool" where
  "less_WSPContentTypeCode x y = (ct_code x < ct_code y)"

instance
  by standard
    (auto simp: less_eq_WSPContentTypeCode_def less_WSPContentTypeCode_def dest: injD [OF ct_code_inj])

end

text \<open>Every number fits the seven bits a short-integer leaves, so setting the high bit
  is reversible.\<close>

lemma header_code_7bit: "header_code h < 128"
  by (cases h) simp_all

lemma ct_code_7bit: "ct_code c < 128"
  by (cases c) simp_all

section \<open>The decoded response\<close>

record HTTPResponse =
  statusCode :: int
  statusText :: bytes
  contentType :: bytes
  contentLength :: nat
  server :: bytes
  date :: bytes
  location :: bytes
  body :: "bytes option"
  bodyLen :: nat
  wspStatus :: u8
  rawHeaders :: "bytes option"
  rawHeadersLen :: nat

text \<open>\<open>memset(response, 0, sizeof(HTTPResponse))\<close>\<close>

definition zero_response :: HTTPResponse where
  "zero_response =
     \<lparr>statusCode = 0, statusText = [], contentType = [], contentLength = 0, server = [],
      date = [], location = [], body = None, bodyLen = 0, wspStatus = 0,
      rawHeaders = None, rawHeadersLen = 0\<rparr>"

end
