(* ===== verification/WapRequest.thy ===== *)
theory WapRequest
  imports WspTypes Codecs
begin

text \<open>
  \<^verbatim>\<open>lib/wap/wap_request.cpp\<close>: uintvars, the header builders, the GET request PDU, the WSP
  status table and the reply parser.  A builder returns its return value and the bytes it has
  written at the start of its output buffer (a failing one may have written some).  A pointer
  argument that the code tests against null is an option, or a flag when it is only written
  through.  Sizes of objects in memory are \<^typ>\<open>nat\<close>; a length decoded from the wire is a
  \<^typ>\<open>u32\<close> and added with wrap-around.
\<close>

section \<open>Uintvars\<close>

function encodeUintvar_loop :: "u32 \<Rightarrow> bytes \<Rightarrow> bytes" where
  "encodeUintvar_loop value temp =
     (if 0 < value \<and> length temp < 5
      then encodeUintvar_loop (drop_bit 7 value) (temp @ [ucast (value AND 0x7F) OR 0x80])
      else temp)"
  by pat_completeness auto

termination encodeUintvar_loop
  by (relation "measure (\<lambda>(value, temp). 5 - length temp)") auto

declare encodeUintvar_loop.simps [simp del]

definition encodeUintvar :: "u32 \<Rightarrow> nat \<Rightarrow> nat \<times> bytes" where
  "encodeUintvar value outBufferSize =
     (let temp = encodeUintvar_loop (drop_bit 7 value) [ucast (value AND 0x7F)] in
      if outBufferSize < length temp then (0, [])
      else (length temp, rev temp))"

text \<open>\<open>data\<close> holds the \<open>len\<close> bytes; the result is the number of bytes consumed and the
  value stored, \<^term>\<open>None\<close> for a return of 0.\<close>

fun decodeUintvar_loop :: "nat \<Rightarrow> u32 \<Rightarrow> bytes \<Rightarrow> (nat \<times> u32) option" where
  "decodeUintvar_loop i value [] = None"
| "decodeUintvar_loop i value (b # bs) =
     (if i < 5 then
        (let value = push_bit 7 value OR ucast (b AND 0x7F) in
         if b AND 0x80 = 0 then Some (i + 1, value)
         else decodeUintvar_loop (i + 1) value bs)
      else None)"

definition decodeUintvar :: "bytes \<Rightarrow> bool \<Rightarrow> (nat \<times> u32) option" where
  "decodeUintvar data outValue_null =
     (if data = [] \<or> outValue_null then None else decodeUintvar_loop 0 0 data)"

section \<open>Header builders\<close>

text \<open>\<open>*hostEnd && *hostEnd != ':' && *hostEnd != '/' && *hostEnd != '?'\<close>; the loop over
  \<^term>\<open>c_str\<close> stops at the NUL by itself.\<close>

definition is_host_char :: "u8 \<Rightarrow> bool" where
  "is_host_char c = (c \<noteq> 58 \<and> c \<noteq> 47 \<and> c \<noteq> 63)"

definition skip_protocol :: "bytes \<Rightarrow> bytes" where
  "skip_protocol url =
     (if take 7 url = str ''http://'' then drop 7 url
      else if take 8 url = str ''https://'' then drop 8 url
      else url)"

definition extractHostFromUrl :: "bytes option \<Rightarrow> bool \<Rightarrow> nat \<Rightarrow> bytes option" where
  "extractHostFromUrl url hostBuffer_null hostBufferSize =
     (case url of
        None \<Rightarrow> None
      | Some mem \<Rightarrow>
          if hostBuffer_null \<or> hostBufferSize = 0 then None
          else
            let host = takeWhile is_host_char (skip_protocol (c_str mem)) in
            if length host = 0 \<or> hostBufferSize \<le> length host then None
            else Some (host @ [0]))"

definition createHostHeader :: "bytes option \<Rightarrow> bool \<Rightarrow> nat \<Rightarrow> nat \<times> bytes" where
  "createHostHeader host out_null outBufferSize =
     (case host of
        None \<Rightarrow> (0, [])
      | Some mem \<Rightarrow>
          if out_null then (0, [])
          else
            let hostLen = length (c_str mem); needed = 1 + hostLen + 1 in
            if outBufferSize < needed then (0, [])
            else (needed, [header_code WSP_HEADER_HOST OR 0x80] @ c_str mem @ [0]))"

definition createUserAgentHeader :: "bytes option \<Rightarrow> bool \<Rightarrow> nat \<Rightarrow> nat \<times> bytes" where
  "createUserAgentHeader userAgent out_null outBufferSize =
     (case userAgent of
        None \<Rightarrow> (0, [])
      | Some mem \<Rightarrow>
          if out_null then (0, [])
          else
            let uaLen = length (c_str mem); needed = 1 + uaLen + 1 in
            if outBufferSize < needed then (0, [])
            else (needed, [header_code WSP_HEADER_USER_AGENT OR 0x80] @ c_str mem @ [0]))"

definition createAcceptHeader :: "u8 \<Rightarrow> bool \<Rightarrow> nat \<Rightarrow> nat \<times> bytes" where
  "createAcceptHeader contentTypeCode out_null outBufferSize =
     (if out_null \<or> outBufferSize < 2 then (0, [])
      else (2, [header_code WSP_HEADER_ACCEPT OR 0x80, contentTypeCode OR 0x80]))"

definition createAcceptCharsetHeader :: "u16 \<Rightarrow> bool \<Rightarrow> nat \<Rightarrow> nat \<times> bytes" where
  "createAcceptCharsetHeader charsetCode out_null outBufferSize =
     (if out_null then (0, [])
      else if outBufferSize \<le> 0 then (0, [])
      else
        let out = [header_code WSP_HEADER_ACCEPT_CHARSET OR 0x80] in
        if charsetCode \<le> 127 then
          (if outBufferSize \<le> 1 then (0, out)
           else (2, out @ [ucast (charsetCode OR 0x80)]))
        else
          (if outBufferSize < 1 + 2 then (0, out)
           else (3, out @ [0x01, ucast (charsetCode AND 0xFF)])))"

text \<open>\<open>pos += create...(&outBuffer[pos], outBufferSize - pos)\<close>: the bytes below the new
  position.\<close>

definition add_header :: "bytes \<Rightarrow> nat \<times> bytes \<Rightarrow> bytes" where
  "add_header out r = out @ take (fst r) (snd r)"

definition accept_into :: "nat \<Rightarrow> WSPContentTypeCode \<Rightarrow> bytes \<Rightarrow> bytes" where
  "accept_into outBufferSize ct out =
     (if length out + 2 \<le> outBufferSize
      then add_header out (createAcceptHeader (ct_code ct) False (outBufferSize - length out))
      else out)"

definition charset_into :: "nat \<Rightarrow> u16 \<Rightarrow> bytes \<Rightarrow> bytes" where
  "charset_into outBufferSize cs out =
     (if length out + 2 \<le> outBufferSize
      then add_header out (createAcceptCharsetHeader cs False (outBufferSize - length out))
      else out)"

definition createAcceptAllHeaders :: "bool \<Rightarrow> nat \<Rightarrow> nat \<times> bytes" where
  "createAcceptAllHeaders out_null outBufferSize =
     (if out_null then (0, [])
      else
        let out = accept_into outBufferSize WSP_CT_APP_VND_WAP_WMLC [];
            out = accept_into outBufferSize WSP_CT_APP_VND_WAP_WMLSCRIPTC out;
            out = accept_into outBufferSize WSP_CT_IMAGE_VND_WAP_WBMP out;
            out = accept_into outBufferSize WSP_CT_TEXT_PLAIN out;
            out = charset_into outBufferSize 106 out;
            out = charset_into outBufferSize 4 out
        in (length out, out))"

section \<open>The GET request PDU\<close>

definition GET_PDU_TYPE :: u8 where "GET_PDU_TYPE = 0x40"

definition REPLY_PDU_TYPE :: u8 where "REPLY_PDU_TYPE = 0x04"

text \<open>\<open>headers\<close> is the header pointer with its \<open>headersLen\<close> bytes.\<close>

definition createGetRequestWithHeaders ::
  "bytes option \<Rightarrow> u8 \<Rightarrow> bytes option \<Rightarrow> nat \<Rightarrow> bool \<Rightarrow> nat \<Rightarrow> nat \<times> bytes" where
  "createGetRequestWithHeaders uri transactionId headers headersLen out_null outBufferSize =
     (case uri of
        None \<Rightarrow> (0, [])
      | Some mem \<Rightarrow>
          if out_null then (0, [])
          else
            let uriLen = length (c_str mem) in
            if uriLen = 0 then (0, [])
            else
              let maxNeeded = 1 + 1 + 5 + uriLen + headersLen in
              if outBufferSize < maxNeeded then (0, [])
              else
                let out = [transactionId, GET_PDU_TYPE OR get_code WSP_GET];
                    (uintvarLen, v) = encodeUintvar (of_nat uriLen) (outBufferSize - length out)
                in
                  if uintvarLen = 0 then (0, out)
                  else
                    let out = out @ v in
                    if outBufferSize < length out + uriLen then (0, out)
                    else
                      let out = out @ c_str mem in
                      (case headers of
                         None \<Rightarrow> (length out, out)
                       | Some hs \<Rightarrow>
                           if 0 < headersLen then
                             (if outBufferSize < length out + headersLen then (0, out)
                              else (length out + headersLen, out @ take headersLen hs))
                           else (length out, out)))"

definition createGetRequest :: "bytes option \<Rightarrow> u8 \<Rightarrow> bool \<Rightarrow> nat \<Rightarrow> bool \<Rightarrow> nat \<times> bytes" where
  "createGetRequest uri transactionId out_null outBufferSize addHostHeader =
     (let headers =
        (if addHostHeader then
           (case extractHostFromUrl uri False 64 of
              None \<Rightarrow> []
            | Some host \<Rightarrow> add_header [] (createHostHeader (Some host) False 128))
         else []);
        headers = add_header headers
          (createUserAgentHeader (Some (str ''MAP/1.0'' @ [0])) False (128 - length headers));
        headers = add_header headers (createAcceptAllHeaders False (128 - length headers))
      in createGetRequestWithHeaders uri transactionId (Some headers) (length headers)
           out_null outBufferSize)"

section \<open>Status codes\<close>

definition wsp_status_table :: "(u8 \<times> int) list" where
  "wsp_status_table =
    [(0x10, 100), (0x11, 101),
     (0x20, 200), (0x21, 201), (0x22, 202), (0x23, 203), (0x24, 204), (0x25, 205), (0x26, 206),
     (0x30, 300), (0x31, 301), (0x32, 302), (0x33, 303), (0x34, 304), (0x35, 305), (0x37, 307),
     (0x40, 400), (0x41, 401), (0x42, 402), (0x43, 403), (0x44, 404), (0x45, 405), (0x46, 406),
     (0x47, 407), (0x48, 408), (0x49, 409), (0x4A, 410), (0x4B, 411), (0x4C, 412), (0x4D, 413),
     (0x4E, 414), (0x4F, 415), (0x50, 416), (0x51, 417),
     (0x60, 500), (0x61, 501), (0x62, 502), (0x63, 503), (0x64, 504), (0x65, 505)]"

definition wspStatusToHttp :: "u8 \<Rightarrow> int" where
  "wspStatusToHttp status_byte =
     (case map_of wsp_status_table status_byte of Some status \<Rightarrow> status | None \<Rightarrow> 500)"

section \<open>The reply parser\<close>

text \<open>
  \<open>data\<close> holds the \<open>len\<close> bytes.  The first component is what is stored in \<open>*outStatus\<close>, the
  second the body pointer (the bytes from it to the end) and length of a successful parse.
  \<open>pos + headersLen\<close> is a 32-bit sum.
\<close>

definition parseReplyPDU :: "bytes option \<Rightarrow> int option \<times> (bytes option \<times> nat) option" where
  "parseReplyPDU data =
     (case data of
        None \<Rightarrow> (None, None)
      | Some d \<Rightarrow>
          if length d < 3 then (None, None)
          else if d ! 0 \<noteq> REPLY_PDU_TYPE then (None, None)
          else
            let status = Some (wspStatusToHttp (d ! 1)) in
            (case decodeUintvar (drop 2 d) False of
               None \<Rightarrow> (status, None)
             | Some (uintvarBytes, headersLen) \<Rightarrow>
                 let pos = of_nat (2 + uintvarBytes); len = of_nat (length d) in
                 if len < pos + headersLen then (status, None)
                 else
                   let pos = pos + headersLen in
                   (status,
                    Some (if pos < len then Some (drop (unat pos) d) else None,
                          if pos < len then unat (len - pos) else 0))))"

section \<open>Uintvar lemmas\<close>

text \<open>Reference: the continuation bytes of \<open>w\<close>, low group first, at most \<open>n\<close> of them.\<close>

fun more_groups :: "nat \<Rightarrow> u32 \<Rightarrow> bytes" where
  "more_groups 0 w = []"
| "more_groups (Suc n) w =
     (if 0 < w then (ucast (w AND 0x7F) OR 0x80) # more_groups n (drop_bit 7 w) else [])"

lemma length_more_groups: "length (more_groups n w) \<le> n"
  by (induction n arbitrary: w) auto

lemma bit_0x80: "bit (0x80 :: u8) n \<longleftrightarrow> n = 7" "bit (0x80 :: u32) n \<longleftrightarrow> n = 7"
  "bit (0x80 :: int) n \<longleftrightarrow> n = 7"
proof -
  have "(0x80 :: u8) = 2 ^ 7" "(0x80 :: u32) = 2 ^ 7" "(0x80 :: int) = 2 ^ 7" by simp_all
  then show "bit (0x80 :: u8) n \<longleftrightarrow> n = 7" "bit (0x80 :: u32) n \<longleftrightarrow> n = 7"
    "bit (0x80 :: int) n \<longleftrightarrow> n = 7"
    by (simp_all only: bit_exp_iff) auto
qed

lemma encodeUintvar_loop_groups:
  "n + length temp = 5 \<Longrightarrow> encodeUintvar_loop w temp = temp @ more_groups n w"
proof (induction n arbitrary: w temp)
  case (Suc n)
  then show ?case
    by (subst encodeUintvar_loop.simps) auto
qed (subst encodeUintvar_loop.simps, simp)

lemma group_low_bits:
  fixes w :: u32
  shows "ucast ((ucast (w AND 0x7F) OR 0x80 :: u8) AND 0x7F) = w AND 0x7F"
    and "ucast ((ucast (w AND 0x7F) :: u8) AND 0x7F) = w AND 0x7F"
    and "(ucast (w AND 0x7F) OR 0x80 :: u8) AND 0x80 \<noteq> 0"
    and "(ucast (w AND 0x7F) :: u8) AND 0x80 = 0"
    and "push_bit 7 (drop_bit 7 w) OR (w AND 0x7F) = w"
proof -
  have m: "0x7F = (mask 7 :: u32)" "0x7F = (mask 7 :: u8)"
    by (simp_all add: mask_eq_exp_minus_1)
  show "ucast ((ucast (w AND 0x7F) OR 0x80 :: u8) AND 0x7F) = w AND 0x7F"
    unfolding m by (rule bit_word_eqI) (auto simp: bit_simps bit_0x80)
  show "ucast ((ucast (w AND 0x7F) :: u8) AND 0x7F) = w AND 0x7F"
    unfolding m by (rule bit_word_eqI) (auto simp: bit_simps bit_0x80)
  show "(ucast (w AND 0x7F) OR 0x80 :: u8) AND 0x80 \<noteq> 0"
  proof
    assume "(ucast (w AND 0x7F) OR 0x80 :: u8) AND 0x80 = 0"
    then have "bit ((ucast (w AND 0x7F) OR 0x80 :: u8) AND 0x80) 7 = bit (0 :: u8) 7"
      by simp
    then show False unfolding m by (simp add: bit_simps bit_0x80)
  qed
  show "(ucast (w AND 0x7F) :: u8) AND 0x80 = 0"
    unfolding m by (rule bit_word_eqI) (auto simp: bit_simps bit_0x80)
  show "push_bit 7 (drop_bit 7 w) OR (w AND 0x7F) = w"
    unfolding m by (rule bit_word_eqI) (auto simp: bit_simps bit_0x80)
qed

lemma drop_bit_7_less:
  fixes w :: u32
  assumes "unat w < 2 ^ (7 * Suc n)"
  shows "unat (drop_bit 7 w) < 2 ^ (7 * n)"
proof -
  have "(2 :: nat) ^ (7 * Suc n) = 2 ^ (7 * n) * 2 ^ 7"
    by (simp only: mult_Suc_right add.commute [of 7] power_add)
  then show ?thesis
    using assms by (simp only: unat_drop_bit_div less_mult_imp_div_less)
qed

lemma decode_groups:
  "i + n \<le> 5 \<Longrightarrow> unat w < 2 ^ (7 * n) \<Longrightarrow>
     decodeUintvar_loop i 0 (rev (more_groups n w) @ ds) =
     decodeUintvar_loop (i + length (more_groups n w)) w ds"
proof (induction n arbitrary: w ds)
  case 0
  then have "w = 0" by (simp add: unat_eq_zero)
  then show ?case by simp
next
  case (Suc n)
  show ?case
  proof (cases "0 < w")
    case True
    let ?b = "ucast (w AND 0x7F) OR 0x80 :: u8"
    have i: "i + length (more_groups n (drop_bit 7 w)) < 5"
      using Suc.prems(1) length_more_groups [of n "drop_bit 7 w"] by linarith
    have "decodeUintvar_loop i 0 (rev (more_groups (Suc n) w) @ ds) =
        decodeUintvar_loop (i + length (more_groups n (drop_bit 7 w))) (drop_bit 7 w) (?b # ds)"
      using True Suc.IH [of "drop_bit 7 w" "?b # ds"] Suc.prems drop_bit_7_less by simp
    then show ?thesis
      using True i by (simp add: Let_def group_low_bits)
  next
    case False
    then have "w = 0" by (simp only: word_gt_0 not_not)
    then show ?thesis by simp
  qed
qed

text \<open>What \<open>encodeUintvar\<close> writes when the buffer is large enough.\<close>

definition uintvar :: "u32 \<Rightarrow> bytes" where
  "uintvar v = rev (more_groups 4 (drop_bit 7 v)) @ [ucast (v AND 0x7F)]"

lemma length_uintvar: "0 < length (uintvar v)" "length (uintvar v) \<le> 5" "uintvar v \<noteq> []"
  using length_more_groups [of 4 "drop_bit 7 v"] by (auto simp: uintvar_def)

lemma encodeUintvar_eq:
  "encodeUintvar v outBufferSize =
     (if outBufferSize < length (uintvar v) then (0, []) else (length (uintvar v), uintvar v))"
  by (simp add: encodeUintvar_def encodeUintvar_loop_groups [of 4] uintvar_def Let_def)

lemma decode_uintvar [simp]: "decodeUintvar (uintvar v @ ds) False = Some (length (uintvar v), v)"
proof -
  let ?g = "more_groups 4 (drop_bit 7 v)"
  have "unat (drop_bit 7 v) < 2 ^ (7 * 4)"
    using unsigned_less [where 'a = nat, of v] by (simp add: unat_drop_bit_div less_mult_imp_div_less)
  then have "decodeUintvar_loop 0 0 (uintvar v @ ds) =
      decodeUintvar_loop (length ?g) (drop_bit 7 v) (ucast (v AND 0x7F) # ds)"
    by (simp add: uintvar_def decode_groups)
  also have "\<dots> = Some (length (uintvar v), v)"
    using length_more_groups [of 4 "drop_bit 7 v"]
    by (simp add: uintvar_def Let_def group_low_bits del: more_groups.simps)
  finally show ?thesis
    by (simp add: decodeUintvar_def length_uintvar)
qed

lemma decodeUintvar_loop_consumed:
  "decodeUintvar_loop i value ds = Some (k, v) \<Longrightarrow> i < k \<and> k \<le> 5 \<and> k \<le> i + length ds"
proof (induction ds arbitrary: i "value")
  case (Cons b ds)
  show ?case
  proof (cases "i < 5 \<and> b AND 0x80 \<noteq> 0")
    case True
    with Cons.prems have "decodeUintvar_loop (i + 1) (push_bit 7 value OR ucast (b AND 0x7F)) ds = Some (k, v)"
      by (simp add: Let_def)
    from Cons.IH [OF this] show ?thesis by simp
  next
    case False
    with Cons.prems show ?thesis by (auto simp: Let_def split: if_splits)
  qed
qed simp

lemma decodeUintvar_consumed:
  "decodeUintvar ds n = Some (k, v) \<Longrightarrow> 0 < k \<and> k \<le> 5 \<and> k \<le> length ds"
  by (auto simp: decodeUintvar_def split: if_splits dest: decodeUintvar_loop_consumed)


interpretation uv: prefix_codec uintvar "\<lambda>ds. decodeUintvar ds False"
  by unfold_locales (auto simp: length_uintvar dest: decodeUintvar_consumed)

text \<open>The continuation bytes are at least 128, the last byte is not; the number of bytes is
  the number of 7-bit groups.\<close>

lemma and_0x80: "b AND 0x80 = 0 \<longleftrightarrow> b < 128" for b :: u8
proof -
  have "b AND 0x80 = 0 \<longleftrightarrow> \<not> bit b 7"
    using and_exp_eq_0_iff_not_bit [of b 7] by simp
  also have "bit b 7 \<longleftrightarrow> odd (unat b div 128)"
  proof -
    have "bit (unat b) 7 = bit b 7" by (simp add: bit_unsigned_iff)
    then show ?thesis unfolding bit_iff_odd [of "unat b"] by simp
  qed
  also have "\<dots> \<longleftrightarrow> 128 \<le> unat b"
  proof -
    have "unat b div 128 = (if 128 \<le> unat b then 1 else 0)"
      using unat_u8_less [of b] by (auto intro: div_nat_eqI)
    then show ?thesis by simp
  qed
  finally show ?thesis by (simp add: word_less_nat_alt not_le)
qed

definition uintvar_len :: "nat \<Rightarrow> nat" where
  "uintvar_len v =
     (if v < 128 then 1 else if v < 16384 then 2 else if v < 2097152 then 3
      else if v < 268435456 then 4 else 5)"

lemma length_more_groups_eq:
  "length (more_groups (Suc n) w) = (if unat w = 0 then 0 else Suc (length (more_groups n (drop_bit 7 w))))"
  by (simp add: unat_eq_zero word_gt_0)

lemma length_uintvar_eq: "length (uintvar v) = uintvar_len (unat v)"
proof -
  have four: "4 = Suc (Suc (Suc (Suc 0)))" by simp
  show ?thesis
    unfolding uintvar_def four length_append length_rev length_more_groups_eq
    by (simp add: length_more_groups_eq unat_drop_bit_div div_mult2_eq [symmetric] uintvar_len_def
        div_eq_0_iff del: more_groups.simps(2))
qed

lemma more_groups_high: "c \<in> set (more_groups n w) \<Longrightarrow> 128 \<le> c"
proof (induction n arbitrary: w)
  case (Suc n)
  then show ?case
    using group_low_bits(3) [of w] unfolding and_0x80 by (auto simp: not_less split: if_splits)
qed simp


text \<open>The decoder as a function of the continuation bits: the bytes up to the first one below
  128, if there is one among the first five, read in base 128.\<close>

definition base128 :: "bytes \<Rightarrow> nat" where
  "base128 bs = foldl (\<lambda>a b. 128 * a + unat b mod 128) 0 bs"

lemma decode_step_word:
  "push_bit 7 (of_nat a) OR ucast (b AND 0x7F) = (of_nat (128 * a + unat b mod 128) :: u32)" for b :: u8
proof -
  have m: "0x7F = (mask 7 :: u8)" by (simp add: mask_eq_exp_minus_1)
  have disj: "push_bit 7 (of_nat a) OR ucast (b AND 0x7F) = push_bit 7 (of_nat a) + (ucast (b AND 0x7F) :: u32)"
    unfolding m by (rule disjunctive_add [symmetric]) (auto simp: bit_simps)
  have hi: "push_bit 7 (of_nat a) = (of_nat (128 * a) :: u32)"
    by (simp add: push_bit_eq_mult)
  have lo: "(ucast (b AND 0x7F) :: u32) = of_nat (unat (b AND 0x7F))"
    by simp
  have low: "unat (b AND 0x7F) = unat b mod 128"
    unfolding m by (simp add: unat_and_mask_mod)
  show ?thesis by (subst disj) (simp only: hi lo low of_nat_add)
qed

lemma decodeUintvar_loop_eq:
  "decodeUintvar_loop i (of_nat a) ds =
     (let m = length (takeWhile (\<lambda>b. 128 \<le> b) ds) in
      if i + m < 5 \<and> m < length ds
      then Some (i + m + 1, of_nat (foldl (\<lambda>a b. 128 * a + unat b mod 128) a (take (Suc m) ds)))
      else None)"
proof (induction ds arbitrary: i a)
  case (Cons b ds)
  show ?case
  proof (cases "128 \<le> b")
    case True
    then have "b AND 0x80 \<noteq> 0" by (simp add: and_0x80)
    then show ?thesis
      using True Cons.IH [of "i + 1" "128 * a + unat b mod 128"]
      by (simp only: decodeUintvar_loop.simps Let_def decode_step_word) (auto simp: Let_def)
  next
    case False
    then have "b AND 0x80 = 0" by (simp add: and_0x80)
    then show ?thesis
      using False by (simp only: decodeUintvar_loop.simps Let_def decode_step_word) simp
  qed
qed simp

lemma decodeUintvar_eq:
  "decodeUintvar ds False =
     (let m = length (takeWhile (\<lambda>b. 128 \<le> b) ds) in
      if m < 5 \<and> m < length ds then Some (m + 1, of_nat (base128 (take (Suc m) ds))) else None)"
  using decodeUintvar_loop_eq [of 0 0 ds] by (auto simp: decodeUintvar_def base128_def Let_def)

section \<open>Request lemmas\<close>

text \<open>The header block of \<open>createGetRequest\<close>: 86 bytes at most, so the 128-byte buffer never
  cuts it.\<close>

definition host_of :: "bytes \<Rightarrow> bytes" where
  "host_of url = takeWhile is_host_char (skip_protocol url)"

definition request_headers :: "bool \<Rightarrow> bytes \<Rightarrow> bytes" where
  "request_headers addHost url =
     (if addHost \<and> host_of url \<noteq> [] \<and> length (host_of url) < 64
      then [0x96] @ host_of url @ [0] else []) @
     [0xA9] @ str ''MAP/1.0'' @ [0] @
     [0x80, 0x94, 0x80, 0x95, 0x80, 0xA1, 0x80, 0x83, 0x81, 0xEA, 0x81, 0x84]"

lemma length_request_headers: "length (request_headers addHost url) \<le> 86"
  by (auto simp: request_headers_def)

lemma set_host_of: "set (host_of url) \<subseteq> set url"
proof -
  have "set (skip_protocol url) \<subseteq> set url"
    by (auto simp: skip_protocol_def dest: in_set_dropD)
  then show ?thesis by (auto simp: host_of_def dest: set_takeWhileD)
qed

lemma extractHost_eq:
  "extractHostFromUrl (Some mem) False n =
     (if 0 < length (host_of (c_str mem)) \<and> length (host_of (c_str mem)) < n
      then Some (host_of (c_str mem) @ [0]) else None)"
  by (auto simp: extractHostFromUrl_def host_of_def Let_def)

lemma accept_into_eq:
  "length out + 2 \<le> n \<Longrightarrow> accept_into n ct out = out @ [0x80, ct_code ct OR 0x80]"
  by (simp add: accept_into_def add_header_def createAcceptHeader_def)

lemma charset_into_eq:
  "length out + 2 \<le> n \<Longrightarrow> c \<le> 127 \<Longrightarrow> charset_into n c out = out @ [0x81, ucast (c OR 0x80)]"
  by (simp add: charset_into_def add_header_def createAcceptCharsetHeader_def Let_def)

lemma createAcceptAllHeaders_enough:
  "12 \<le> n \<Longrightarrow> createAcceptAllHeaders False n =
     (12, [0x80, 0x94, 0x80, 0x95, 0x80, 0xA1, 0x80, 0x83, 0x81, 0xEA, 0x81, 0x84])"
  by (simp add: createAcceptAllHeaders_def accept_into_eq charset_into_eq Let_def)

lemma add_user_agent:
  "length h \<le> 119 \<Longrightarrow>
     add_header h (createUserAgentHeader (Some (str ''MAP/1.0'' @ [0])) False (128 - length h)) =
     h @ [0xA9] @ str ''MAP/1.0'' @ [0]"
proof -
  assume "length h \<le> 119"
  moreover have "c_str (str ''MAP/1.0'' @ [0]) = str ''MAP/1.0''"
    by (rule c_str_terminated_append) (simp add: str_def)
  ultimately show ?thesis by (simp add: createUserAgentHeader_def Let_def add_header_def)
qed

lemma add_accept_all:
  "length h \<le> 116 \<Longrightarrow>
     add_header h (createAcceptAllHeaders False (128 - length h)) =
     h @ [0x80, 0x94, 0x80, 0x95, 0x80, 0xA1, 0x80, 0x83, 0x81, 0xEA, 0x81, 0x84]"
  by (simp add: createAcceptAllHeaders_enough add_header_def)

lemma createGetRequest_headers:
  "createGetRequest (Some mem) tid out_null size' addHost =
     createGetRequestWithHeaders (Some mem) tid (Some (request_headers addHost (c_str mem)))
       (length (request_headers addHost (c_str mem))) out_null size'"
proof -
  let ?h = "host_of (c_str mem)"
  define h where "h = (if addHost then
        (case extractHostFromUrl (Some mem) False 64 of
           None \<Rightarrow> []
         | Some host \<Rightarrow> add_header [] (createHostHeader (Some host) False 128))
        else [])"
  have nul: "0 \<notin> set ?h" using set_host_of [of "c_str mem"] c_str_no_nul by blast
  have host: "add_header [] (createHostHeader (Some (?h @ [0])) False 128) = [0x96] @ ?h @ [0]"
    if "length ?h < 64"
    using that by (simp add: createHostHeader_def c_str_terminated_append [OF nul] add_header_def Let_def)
  have h: "h = (if addHost \<and> ?h \<noteq> [] \<and> length ?h < 64 then [0x96] @ ?h @ [0] else [])"
    using host by (auto simp: h_def extractHost_eq)
  then have len: "length h \<le> 65" by simp
  have headers: "request_headers addHost (c_str mem) = (h @ [0xA9] @ str ''MAP/1.0'' @ [0]) @
      [0x80, 0x94, 0x80, 0x95, 0x80, 0xA1, 0x80, 0x83, 0x81, 0xEA, 0x81, 0x84]"
    by (simp add: request_headers_def h)
  have "add_header h (createUserAgentHeader (Some (str ''MAP/1.0'' @ [0])) False (128 - length h)) =
      h @ [0xA9] @ str ''MAP/1.0'' @ [0]"
    by (rule add_user_agent) (use len in simp)
  moreover have "add_header (h @ [0xA9] @ str ''MAP/1.0'' @ [0])
      (createAcceptAllHeaders False (128 - length (h @ [0xA9] @ str ''MAP/1.0'' @ [0]))) =
      request_headers addHost (c_str mem)"
    unfolding headers by (rule add_accept_all) (use len in simp)
  ultimately show ?thesis
    unfolding createGetRequest_def h_def [symmetric] Let_def by (simp only:)
qed

text \<open>The complete PDU.\<close>

definition get_pdu :: "u8 \<Rightarrow> bytes \<Rightarrow> bytes \<Rightarrow> bytes" where
  "get_pdu tid url headers = [tid, 0x40] @ uintvar (of_nat (length url)) @ url @ headers"

lemma createGetRequestWithHeaders_eq:
  "createGetRequestWithHeaders (Some mem) tid (Some hs) (length hs) False outBufferSize =
     (if c_str mem = [] \<or> outBufferSize < 7 + length (c_str mem) + length hs then (0, [])
      else (length (get_pdu tid (c_str mem) hs), get_pdu tid (c_str mem) hs))"
proof (cases "c_str mem = [] \<or> outBufferSize < 7 + length (c_str mem) + length hs")
  case True
  then show ?thesis by (auto simp: createGetRequestWithHeaders_def Let_def)
next
  case False
  let ?v = "uintvar (of_nat (length (c_str mem)))"
  have v: "length ?v \<le> 5" by (rule length_uintvar)
  have enc: "encodeUintvar (of_nat (length (c_str mem))) (outBufferSize - 2) = (length ?v, ?v)"
    using False v by (auto simp: encodeUintvar_eq)
  have fits: "\<not> outBufferSize < Suc (Suc (length ?v + length (c_str mem) + length hs))"
    "\<not> outBufferSize < Suc (Suc (length ?v + length (c_str mem)))"
    using False v by linarith+
  show ?thesis
    using False v fits by (auto simp: createGetRequestWithHeaders_def Let_def enc [unfolded numeral_2_eq_2] get_pdu_def
        GET_PDU_TYPE_def length_uintvar)
qed

lemma createGetRequest_eq:
  "createGetRequest (Some mem) tid False outBufferSize addHost =
     (let hs = request_headers addHost (c_str mem) in
      if c_str mem = [] \<or> outBufferSize < 7 + length (c_str mem) + length hs then (0, [])
      else (length (get_pdu tid (c_str mem) hs), get_pdu tid (c_str mem) hs))"
  by (simp only: createGetRequest_headers createGetRequestWithHeaders_eq Let_def)

text \<open>A receiver's reading of a connectionless GET PDU.\<close>

definition read_get_pdu :: "bytes \<Rightarrow> (u8 \<times> bytes \<times> bytes) option" where
  "read_get_pdu pdu =
     (case pdu of
        tid # t # rest \<Rightarrow>
          if t = 0x40 then map_option (Pair tid) (read_field (\<lambda>ds. decodeUintvar ds False) rest) else None
      | _ \<Rightarrow> None)"

section \<open>Reply lemmas\<close>

lemma parseReplyPDU_wellformed:
  assumes "length hs < 2 ^ 32" "length d < 2 ^ 32"
    and d: "d = [0x04, st] @ uintvar (of_nat (length hs)) @ hs @ content"
  shows "parseReplyPDU (Some d) =
    (Some (wspStatusToHttp st), Some (if content = [] then None else Some content, length content))"
proof -
  let ?v = "uintvar (of_nat (length hs))"
  let ?p = "2 + length ?v"
  have u: "unat (of_nat n :: u32) = n" if "n \<le> length d" for n
    using that assms(2) by (simp add: unat_of_nat)
  have len: "length d = ?p + length hs + length content" using d by simp
  have dec: "decodeUintvar (drop 2 d) False = Some (length ?v, of_nat (length hs))"
    using d by simp
  have sum: "of_nat ?p + of_nat (length hs) = (of_nat (?p + length hs) :: u32)"
    by simp
  have cmp: "(of_nat (?p + length hs) :: u32) < of_nat (length d) \<longleftrightarrow> content \<noteq> []"
    "\<not> (of_nat (length d) :: u32) < of_nat (?p + length hs)"
    using len u [of "?p + length hs"] u [of "length d"] by (auto simp: word_less_nat_alt)
  have diff: "unat (of_nat (length d) - of_nat (?p + length hs) :: u32) = length content"
    using len u [of "length content"] by simp
  have body: "drop (?p + length hs) d = content" using d by simp
  have "\<not> length d < 3" "d ! 0 = REPLY_PDU_TYPE" "d ! 1 = st"
    using d length_uintvar(1) [of "of_nat (length hs)"] by (auto simp: REPLY_PDU_TYPE_def Suc_le_eq)
  moreover have "unat (of_nat (?p + length hs) :: u32) = ?p + length hs"
    using len by (intro u) simp
  ultimately show ?thesis
    by (simp only: parseReplyPDU_def option.case Let_def dec prod.case sum cmp diff body simp_thms if_False if_True) simp
qed

lemma parseReplyPDU_inside:
  assumes "parseReplyPDU (Some d) = (st, Some (b, n))" "length d < 2 ^ 32"
  shows "\<exists>p \<le> length d. n = length d - p \<and> b = (if p < length d then Some (drop p d) else None)"
proof -
  have "decodeUintvar (drop 2 d) False \<noteq> None"
  proof
    assume none: "decodeUintvar (drop 2 d) False = None"
    show False
      using assms(1) by (simp add: parseReplyPDU_def none split: if_split_asm)
  qed
  then obtain k hl where dec: "decodeUintvar (drop 2 d) False = Some (k, hl)"
    by auto
  have "\<not> length d < 3" "d ! 0 = REPLY_PDU_TYPE"
    using assms(1) by (auto simp: parseReplyPDU_def Let_def split: if_split_asm)
  then have parse: "(if (of_nat (length d) :: u32) < of_nat (2 + k) + hl then (Some (wspStatusToHttp (d ! 1)), None)
      else (Some (wspStatusToHttp (d ! 1)),
        Some (if of_nat (2 + k) + hl < (of_nat (length d) :: u32)
              then Some (drop (unat (of_nat (2 + k) + hl)) d) else None,
              if of_nat (2 + k) + hl < (of_nat (length d) :: u32)
              then unat (of_nat (length d) - (of_nat (2 + k) + hl)) else 0))) = (st, Some (b, n))"
    using assms(1) dec by (simp only: parseReplyPDU_def option.case Let_def prod.case simp_thms if_False)
  then have cmp: "\<not> (of_nat (length d) :: u32) < of_nat (2 + k) + hl"
    by (simp only: prod.inject option.distinct simp_thms split: if_split_asm)
  have bn: "b = (if of_nat (2 + k) + hl < (of_nat (length d) :: u32)
        then Some (drop (unat (of_nat (2 + k) + hl)) d) else None)"
      "n = (if of_nat (2 + k) + hl < (of_nat (length d) :: u32)
        then unat (of_nat (length d) - (of_nat (2 + k) + hl)) else 0)"
    using parse cmp by (simp_all only: if_False prod.inject option.inject)
  define p where "p = of_nat (2 + k) + hl"
  have u: "unat (of_nat (length d) :: u32) = length d"
    using assms(2) by (simp add: unat_of_nat)
  have "unat p \<le> length d"
    using cmp u unfolding p_def [symmetric] by (simp add: word_less_nat_alt)
  moreover have "unat (of_nat (length d) - p) = length d - unat p"
    using calculation u by (simp add: unat_sub word_le_nat_alt)
  ultimately show ?thesis
    using bn u unfolding p_def [symmetric]
    by (intro exI [of _ "unat p"]) (auto simp: word_less_nat_alt)
qed

section \<open>Properties\<close>

text \<open>a uintvar is read back exactly, whatever follows it: the decoder consumes the bytes
  the encoder wrote and returns the 32-bit value.\<close>

theorem uintvar_roundtrip:
  assumes "encodeUintvar v outBufferSize = (k, bs)" "0 < k"
  shows "decodeUintvar (bs @ rest) False = Some (k, v)"
  using assms by (auto simp: encodeUintvar_eq split: if_splits)

theorem uintvar_roundtrip_witness:
  "decodeUintvar ([0x81, 0x00] @ [9]) False = Some (2, 128)"
proof (rule uintvar_roundtrip)
  show "encodeUintvar 128 2 = (2, [0x81, 0x00])" by code_simp
qed simp

text \<open>the encoder uses one byte per started group of seven bits, five at most, and
  succeeds exactly when these fit; it never writes part of a value.\<close>

theorem uintvar_length:
  "fst (encodeUintvar v outBufferSize) =
     (if outBufferSize < uintvar_len (unat v) then 0 else uintvar_len (unat v)) \<and>
   length (snd (encodeUintvar v outBufferSize)) = fst (encodeUintvar v outBufferSize)"
  by (simp add: encodeUintvar_eq length_uintvar_eq)

text \<open>what the decoder accepts, on any bytes: the first byte below 128 must be among the
  first five and inside the data; the value is the base-128 number they spell, modulo
  \<open>2 ^ 32\<close>.\<close>

theorem uintvar_decode_spec:
  "decodeUintvar ds False =
     (let m = length (takeWhile (\<lambda>b. 128 \<le> b) ds) in
      if m < 5 \<and> m < length ds then Some (m + 1, of_nat (base128 (take (Suc m) ds))) else None)"
  by (rule decodeUintvar_eq)

text \<open>the exact outcome of \<open>createGetRequest\<close>: it fails, writing nothing, exactly for an
  empty URL or a buffer below seven bytes plus URL plus headers; otherwise it writes the
  transaction id, the GET type, the URL length, the URL and the header block, whose 86
  bytes at most never reach the end of the 128-byte header buffer.\<close>

theorem createGetRequest_spec:
  "createGetRequest (Some mem) tid False outBufferSize addHost =
     (let url = c_str mem; hs = request_headers addHost url in
      if url = [] \<or> outBufferSize < 7 + length url + length hs then (0, [])
      else (length (get_pdu tid url hs), get_pdu tid url hs)) \<and>
   length (request_headers addHost (c_str mem)) \<le> 86"
  by (simp only: createGetRequest_eq Let_def length_request_headers simp_thms)

text \<open>C7: a server that reads the PDU by its length fields recovers the transaction id, the
  URL and the headers, and the PDU lies inside the buffer.\<close>

theorem createGetRequest_roundtrip:
  assumes "createGetRequest (Some mem) tid False outBufferSize addHost = (n, pdu)" "0 < n"
    and "outBufferSize < 2 ^ 32"
  shows "read_get_pdu pdu = Some (tid, c_str mem, request_headers addHost (c_str mem)) \<and>
    n = length pdu \<and> n \<le> outBufferSize"
proof -
  let ?hs = "request_headers addHost (c_str mem)"
  have le: "7 + length (c_str mem) + length ?hs \<le> outBufferSize"
    and pdu: "pdu = get_pdu tid (c_str mem) ?hs" and n: "n = length pdu"
    using assms(1,2) by (auto simp: createGetRequest_eq Let_def split: if_splits)
  have "read_field (\<lambda>ds. decodeUintvar ds False)
      (uintvar (of_nat (length (c_str mem))) @ c_str mem @ ?hs) = Some (c_str mem, ?hs)"
    using le assms(3) by (intro uv.read_field_enc) simp
  then have "read_get_pdu pdu = Some (tid, c_str mem, ?hs)"
    by (simp add: read_get_pdu_def pdu get_pdu_def)
  moreover have "n \<le> outBufferSize"
    using le length_uintvar(2) [of "of_nat (length (c_str mem))"] by (simp add: n pdu get_pdu_def)
  ultimately show ?thesis using n by simp
qed

theorem createGetRequest_roundtrip_witness:
  "\<exists>n pdu. createGetRequest (Some (str ''http://a.b/'' @ [0])) 7 False 256 True = (n, pdu) \<and>
     read_get_pdu pdu =
       Some (7, str ''http://a.b/'', request_headers True (str ''http://a.b/''))"
proof -
  have url: "c_str (str ''http://a.b/'' @ [0]) = str ''http://a.b/''"
    by (rule c_str_terminated_append) (simp add: str_def)
  let ?hs = "request_headers True (str ''http://a.b/'')"
  have ne: "str ''http://a.b/'' \<noteq> []" by (simp add: str_def)
  have "\<not> 256 < 7 + length (str ''http://a.b/'') + length ?hs"
    using length_request_headers [of True "str ''http://a.b/''"] by simp
  with ne have eq: "createGetRequest (Some (str ''http://a.b/'' @ [0])) 7 False 256 True =
      (length (get_pdu 7 (str ''http://a.b/'') ?hs), get_pdu 7 (str ''http://a.b/'') ?hs)"
    by (simp only: createGetRequest_eq url Let_def simp_thms if_False)
  have "0 < length (get_pdu 7 (str ''http://a.b/'') ?hs)" by (simp add: get_pdu_def)
  from createGetRequest_roundtrip [OF eq this] show ?thesis
    using eq by (simp only: url) simp
qed

text \<open>every header builder stays inside the buffer size it is given, and reports no more
  than it wrote.\<close>

theorem header_builders_in_bounds:
  "(case createHostHeader host null n of (k, out) \<Rightarrow> k \<le> length out \<and> length out \<le> n) \<and>
   (case createUserAgentHeader ua null n of (k, out) \<Rightarrow> k \<le> length out \<and> length out \<le> n) \<and>
   (case createAcceptHeader ct null n of (k, out) \<Rightarrow> k \<le> length out \<and> length out \<le> n) \<and>
   (case createAcceptCharsetHeader cs null n of (k, out) \<Rightarrow> k \<le> length out \<and> length out \<le> n) \<and>
   (case extractHostFromUrl url null n of None \<Rightarrow> True | Some out \<Rightarrow> length out \<le> n)"
  by (auto simp: createHostHeader_def createUserAgentHeader_def createAcceptHeader_def
      createAcceptCharsetHeader_def extractHostFromUrl_def Let_def split: option.splits)

text \<open>a well-formed reply PDU (type, status, length-prefixed headers, body) is parsed into
  its HTTP status and its body; the body pointer is null exactly for an empty body.\<close>

theorem parseReplyPDU_spec:
  assumes "length hs < 2 ^ 32" "length d < 2 ^ 32"
    and "d = [0x04, st] @ uintvar (of_nat (length hs)) @ hs @ content"
  shows "parseReplyPDU (Some d) =
    (Some (wspStatusToHttp st), Some (if content = [] then None else Some content, length content))"
  by (rule parseReplyPDU_wellformed [OF assms])

theorem parseReplyPDU_spec_witness:
  "parseReplyPDU (Some [0x04, 0x20, 0x02, 0x94, 0x00, 1, 2, 3]) = (Some 200, Some (Some [1, 2, 3], 3))"
proof -
  have "[0x04, 0x20, 0x02, 0x94, 0x00, 1, 2, 3] =
      [0x04, 0x20] @ uintvar (of_nat (length [0x94, 0x00 :: u8])) @ [0x94, 0x00] @ [1, 2, 3 :: u8]"
    by code_simp
  from parseReplyPDU_spec [OF _ _ this] show ?thesis
    by (simp add: wspStatusToHttp_def wsp_status_table_def)
qed

text \<open>whatever the PDU claims about its header length, an accepted parse returns a suffix
  of the PDU and its length.\<close>

theorem parseReplyPDU_body_inside:
  assumes "parseReplyPDU (Some d) = (st, Some (b, n))" "length d < 2 ^ 32"
  shows "\<exists>p \<le> length d. n = length d - p \<and> b = (if p < length d then Some (drop p d) else None)"
  by (rule parseReplyPDU_inside [OF assms])

theorem parseReplyPDU_body_inside_witness:
  "\<exists>p \<le> 8. (3 :: nat) = 8 - p \<and>
     Some [1, 2, 3] = (if p < 8 then Some (drop p [0x04, 0x20, 0x02, 0x94, 0x00, 1, 2, 3 :: u8]) else None)"
proof -
  have "[0x04, 0x20, 0x02, 0x94, 0x00, 1, 2, 3] =
      [0x04, 0x20] @ uintvar (of_nat (length [0x94, 0x00 :: u8])) @ [0x94, 0x00] @ [1, 2, 3 :: u8]"
    by code_simp
  from parseReplyPDU_wellformed [OF _ _ this]
  have p: "parseReplyPDU (Some [0x04, 0x20, 0x02, 0x94, 0x00, 1, 2, 3]) =
      (Some (wspStatusToHttp 0x20), Some (Some [1, 2, 3], 3))"
    by simp
  have len: "length [0x04, 0x20, 0x02, 0x94, 0x00, 1, 2, 3 :: u8] = 8" by simp
  show ?thesis using parseReplyPDU_body_inside [OF p] unfolding len by simp
qed

text \<open>The table by nibbles.\<close>

definition status_of_nibbles :: "nat \<Rightarrow> nat \<Rightarrow> int" where
  "status_of_nibbles hi lo =
     (if hi = 1 \<and> lo < 2 \<or> hi = 2 \<and> lo < 7 \<or> hi = 3 \<and> lo < 8 \<and> lo \<noteq> 6 \<or> hi = 4
      then 100 * int hi + int lo
      else if hi = 5 \<and> lo < 2 then 416 + int lo
      else if hi = 6 \<and> lo < 6 then 500 + int lo
      else 500)"

lemma status_table_entries:
  "list_all (\<lambda>(w, s). s = status_of_nibbles (unat w div 16) (unat w mod 16)) wsp_status_table"
  by (simp add: wsp_status_table_def status_of_nibbles_def)

lemma status_outside_table:
  assumes "w \<notin> fst ` set wsp_status_table"
  shows "status_of_nibbles (unat w div 16) (unat w mod 16) = 500"
proof -
  have "unat w \<notin> unat ` fst ` set wsp_status_table"
    using assms by (auto simp: image_iff word_unat_eq_iff)
  then have out: "unat w \<notin> {16, 17} \<union> {32..38} \<union> ({48..55} - {54}) \<union> {64..81} \<union> {96..101}"
    by (simp add: wsp_status_table_def atLeastAtMost_upt upt_conv_Cons)
  define hi lo where "hi = unat w div 16" and "lo = unat w mod 16"
  then have w: "unat w = 16 * hi + lo" "lo < 16" by simp_all
  from out w have n: "16 * hi + lo \<notin> {16, 17}" "16 * hi + lo \<notin> {32..38}"
    "16 * hi + lo \<notin> {48..55} - {54}" "16 * hi + lo \<notin> {64..81}" "16 * hi + lo \<notin> {96..101}"
    by (simp_all only: Un_iff de_Morgan_disj simp_thms)
  have "\<not> (hi = 1 \<and> lo < 2)" using n(1) by auto
  moreover have "\<not> (hi = 2 \<and> lo < 7)" using n(2) by auto
  moreover have "\<not> (hi = 3 \<and> lo < 8 \<and> lo \<noteq> 6)" using n(3) by auto
  moreover have "hi \<noteq> 4" using n(4) w(2) by auto
  moreover have "\<not> (hi = 5 \<and> lo < 2)" using n(4) by auto
  moreover have "\<not> (hi = 6 \<and> lo < 6)" using n(5) by auto
  ultimately show ?thesis
    unfolding hi_def [symmetric] lo_def [symmetric] status_of_nibbles_def by (simp only: simp_thms if_False)
qed

text \<open>the status table follows the nibbles: below \<open>0x50\<close> the class digit and the detail,
  \<open>0x50\<close> and \<open>0x51\<close> continue the 4xx class, \<open>0x60\<close> starts the 5xx class, and everything not
  in the table is 500; the result is always an HTTP status from 100 to 505.\<close>

theorem wspStatus_classes:
  "wspStatusToHttp s = status_of_nibbles (unat s div 16) (unat s mod 16) \<and>
   100 \<le> wspStatusToHttp s \<and> wspStatusToHttp s \<le> 505"
proof -
  have "wspStatusToHttp s = status_of_nibbles (unat s div 16) (unat s mod 16)"
  proof (cases "map_of wsp_status_table s")
    case None
    then have out: "s \<notin> fst ` set wsp_status_table" by (simp add: map_of_eq_None_iff)
    show ?thesis
      by (simp only: wspStatusToHttp_def None option.case status_outside_table [OF out])
  next
    case (Some v)
    then show ?thesis
      using status_table_entries map_of_SomeD [OF Some]
      by (auto simp: wspStatusToHttp_def list_all_iff)
  qed
  moreover have "unat s mod 16 < 16" by simp
  ultimately show ?thesis by (auto simp: status_of_nibbles_def)
qed

section \<open>A header length that wraps\<close>

text \<open>A five-byte length of \<open>2 ^ 32 - 1\<close> passes the check \<open>pos + headersLen > len\<close>: the 32-bit
  sum wraps to \<open>pos - 1\<close>, and the body starts inside the length field.\<close>

lemma parseReplyPDU_wraps:
  "parseReplyPDU (Some [0x04, 0x20, 0x8F, 0xFF, 0xFF, 0xFF, 0x7F]) = (Some 200, Some (Some [0x7F], 1))"
  by code_simp

end
