(* ===== verification/WapResponse.thy ===== *)
theory WapResponse
  imports WapRequest
begin

text \<open>
  \<^verbatim>\<open>lib/wap/wap_response.cpp\<close>: the text tables, the header parser, the reply decoder and the
  HTTP formatter.  The header parser reads memory through a bounds-checked read: the bytes
  given to it are the object the pointer points into, and a read outside is \<^term>\<open>None\<close> (an
  out-of-bounds access of the program).  Positions are \<^typ>\<open>nat\<close>: they pass the end of
  an object in memory by at most 31, so they do not reach \<open>2 ^ 32\<close>; only the sum with the
  header length of the wire is taken on 32 bits.
\<close>

section \<open>Text tables\<close>

definition contentTypeTable :: "bytes list" where
  "contentTypeTable =
    [str ''*/*'', str ''text/*'', str ''text/html'', str ''text/plain'', str ''text/x-hdml'',
     str ''text/x-ttml'', str ''text/x-vCalendar'', str ''text/x-vCard'',
     str ''text/vnd.wap.wml'', str ''text/vnd.wap.wmlscript'', str ''application/vnd.wap.catc'',
     str ''multipart/*'', str ''multipart/mixed'', str ''multipart/form-data'',
     str ''multipart/byteranges'', str ''multipart/alternative'', str ''application/*'',
     str ''application/java-vm'', str ''application/x-www-form-urlencoded'',
     str ''application/x-hdmlc'', str ''application/vnd.wap.wmlc'',
     str ''application/vnd.wap.wmlscriptc'', str ''application/vnd.wap.wsic'',
     str ''application/vnd.wap.uaprof'', str ''application/vnd.wap.wtls-ca-certificate'',
     str ''application/vnd.wap.wtls-user-certificate'', str ''application/x-x509-ca-cert'',
     str ''application/x-x509-user-cert'', str ''image/*'', str ''image/gif'',
     str ''image/jpeg'', str ''image/tiff'', str ''image/png'', str ''image/vnd.wap.wbmp'',
     str ''application/vnd.wap.multipart.*'', str ''application/vnd.wap.multipart.mixed'',
     str ''application/vnd.wap.multipart.form-data'',
     str ''application/vnd.wap.multipart.byteranges'',
     str ''application/vnd.wap.multipart.alternative'', str ''application/xml'',
     str ''text/xml'', str ''application/vnd.wap.wbxml'', str ''application/x-x968-cross-cert'',
     str ''application/x-x968-ca-cert'', str ''application/x-x968-user-cert'',
     str ''text/vnd.wap.si'', str ''application/vnd.wap.sic'', str ''text/vnd.wap.sl'',
     str ''application/vnd.wap.slc'', str ''text/vnd.wap.co'', str ''application/vnd.wap.coc'',
     str ''application/vnd.wap.multipart.related'', str ''application/vnd.wap.sia'',
     str ''text/vnd.wap.connectivity-xml'', str ''application/vnd.wap.connectivity-wbxml'',
     str ''application/pkcs7-mime'', str ''application/vnd.wap.hashed-certificate'',
     str ''application/vnd.wap.signed-certificate'', str ''application/vnd.wap.cert-response'',
     str ''application/xhtml+xml'', str ''application/wml+xml'', str ''text/css'',
     str ''application/vnd.wap.mms-message'', str ''application/vnd.wap.rollover-certificate'']"

definition headerNameTable :: "bytes list" where
  "headerNameTable =
    [str ''Accept'', str ''Accept-Charset'', str ''Accept-Encoding'', str ''Accept-Language'',
     str ''Accept-Ranges'', str ''Age'', str ''Allow'', str ''Authorization'',
     str ''Cache-Control'', str ''Connection'', str ''Content-Base'', str ''Content-Encoding'',
     str ''Content-Language'', str ''Content-Length'', str ''Content-Location'',
     str ''Content-MD5'', str ''Content-Range'', str ''Content-Type'', str ''Date'',
     str ''Etag'', str ''Expires'', str ''From'', str ''Host'', str ''If-Modified-Since'',
     str ''If-Match'', str ''If-None-Match'', str ''If-Range'', str ''If-Unmodified-Since'',
     str ''Location'', str ''Last-Modified'', str ''Max-Forwards'', str ''Pragma'',
     str ''Proxy-Authenticate'', str ''Proxy-Authorization'', str ''Public'', str ''Range'',
     str ''Referer'', str ''Retry-After'', str ''Server'', str ''Transfer-Encoding'',
     str ''Upgrade'', str ''User-Agent'', str ''Vary'', str ''Via'', str ''Warning'',
     str ''WWW-Authenticate'', str ''Content-Disposition'']"

definition contentTypeToString :: "u8 \<Rightarrow> bytes" where
  "contentTypeToString code =
     (if unat code < length contentTypeTable then contentTypeTable ! unat code
      else str ''application/octet-stream'')"

definition http_status_table :: "(int \<times> bytes) list" where
  "http_status_table =
    [(100, str ''Continue''), (101, str ''Switching Protocols''), (200, str ''OK''),
     (201, str ''Created''), (202, str ''Accepted''),
     (203, str ''Non-Authoritative Information''), (204, str ''No Content''),
     (205, str ''Reset Content''), (206, str ''Partial Content''),
     (300, str ''Multiple Choices''), (301, str ''Moved Permanently''), (302, str ''Found''),
     (303, str ''See Other''), (304, str ''Not Modified''), (305, str ''Use Proxy''),
     (307, str ''Temporary Redirect''), (400, str ''Bad Request''), (401, str ''Unauthorized''),
     (402, str ''Payment Required''), (403, str ''Forbidden''), (404, str ''Not Found''),
     (405, str ''Method Not Allowed''), (406, str ''Not Acceptable''),
     (407, str ''Proxy Authentication Required''), (408, str ''Request Timeout''),
     (409, str ''Conflict''), (410, str ''Gone''), (411, str ''Length Required''),
     (412, str ''Precondition Failed''), (413, str ''Request Entity Too Large''),
     (414, str ''Request-URI Too Long''), (415, str ''Unsupported Media Type''),
     (416, str ''Requested Range Not Satisfiable''), (417, str ''Expectation Failed''),
     (500, str ''Internal Server Error''), (501, str ''Not Implemented''),
     (502, str ''Bad Gateway''), (503, str ''Service Unavailable''),
     (504, str ''Gateway Timeout''), (505, str ''HTTP Version Not Supported'')]"

definition httpStatusToText :: "int \<Rightarrow> bytes" where
  "httpStatusToText code =
     (case map_of http_status_table code of Some t \<Rightarrow> t | None \<Rightarrow> str ''Unknown'')"

section \<open>Reading the header block\<close>

definition read_at :: "bytes \<Rightarrow> nat \<Rightarrow> u8 option" where
  "read_at mem i = (if i < length mem then Some (mem ! i) else None)"

text \<open>\<open>strnlen(mem, n)\<close>, also the loop \<open>while (pos < n && mem[pos] != 0) pos++\<close>.\<close>

fun strnlen :: "bytes \<Rightarrow> nat \<Rightarrow> nat option" where
  "strnlen mem 0 = Some 0"
| "strnlen [] (Suc n) = None"
| "strnlen (c # cs) (Suc n) = (if c = 0 then Some 0 else map_option Suc (strnlen cs n))"

text \<open>The string at \<open>pos\<close> that ends before \<open>headersLen\<close>: its bytes and the position after its
  terminator.\<close>

definition read_text :: "bytes \<Rightarrow> nat \<Rightarrow> nat \<Rightarrow> (bytes \<times> nat) option" where
  "read_text mem headersLen pos =
     map_option (\<lambda>n. (take n (drop pos mem), pos + n + 1)) (strnlen (drop pos mem) (headersLen - pos))"

fun read_int :: "bytes \<Rightarrow> nat \<Rightarrow> nat \<Rightarrow> nat \<Rightarrow> u32 \<Rightarrow> (nat \<times> u32) option" where
  "read_int mem headersLen 0 pos v = Some (pos, v)"
| "read_int mem headersLen (Suc n) pos v =
     (if pos < headersLen then
        (case read_at mem pos of
           None \<Rightarrow> None
         | Some b \<Rightarrow> read_int mem headersLen n (pos + 1) (push_bit 8 v OR ucast b))
      else Some (pos, v))"

text \<open>The content type at the start of the block.  A character array keeps its old content when
  the new string does not fit.\<close>

definition set_contentType :: "u8 \<Rightarrow> HTTPResponse \<Rightarrow> HTTPResponse" where
  "set_contentType b response =
     response\<lparr>contentType := take 63 (contentTypeToString (b AND 0x7F))\<rparr>"

definition parse_content_type :: "bytes \<Rightarrow> nat \<Rightarrow> HTTPResponse \<Rightarrow> (nat \<times> HTTPResponse) option" where
  "parse_content_type mem headersLen response =
     (case read_at mem 0 of
        None \<Rightarrow> None
      | Some firstByte \<Rightarrow>
          if 0x80 \<le> firstByte then Some (1, set_contentType firstByte response)
          else if firstByte < 0x20 then
            (if 1 < headersLen then
               (case read_at mem 1 of
                  None \<Rightarrow> None
                | Some b \<Rightarrow>
                    Some (1 + unat firstByte,
                          if 0x80 \<le> b then set_contentType b response else response))
             else Some (1 + unat firstByte, response))
          else
            (case read_text mem headersLen 0 of
               None \<Rightarrow> None
             | Some (s, next) \<Rightarrow>
                 Some (next,
                       if length s < 64 then response\<lparr>contentType := s\<rparr> else response)))"

text \<open>One round of the field loop: the new position and response.  A \<open>break\<close> leaves the
  position at the end of the block.\<close>

definition parse_known_field ::
  "bytes \<Rightarrow> nat \<Rightarrow> u8 \<Rightarrow> nat \<Rightarrow> u8 \<Rightarrow> HTTPResponse \<Rightarrow> (nat \<times> HTTPResponse) option" where
  "parse_known_field mem headersLen fieldCode pos valueByte response =
     (if fieldCode = header_code WSP_HEADER_SERVER \<and> unat fieldCode < length headerNameTable then
        (if valueByte < 0x80 then
           map_option (\<lambda>(s, next).
               (next, if length s < 64 then response\<lparr>server := s\<rparr> else response))
             (read_text mem headersLen pos)
         else Some (pos + 1, response))
      else if fieldCode = header_code WSP_HEADER_LOCATION then
        (if valueByte < 0x80 then
           map_option (\<lambda>(s, next).
               (next, if length s < 256 then response\<lparr>location := s\<rparr> else response))
             (read_text mem headersLen pos)
         else Some (pos + 1, response))
      else if fieldCode = header_code WSP_HEADER_CONTENT_LENGTH then
        (if 0x80 \<le> valueByte then
           Some (pos + 1, response\<lparr>contentLength := unat (valueByte AND 0x7F)\<rparr>)
         else if valueByte < 31 then
           map_option (\<lambda>(next, v). (next, response\<lparr>contentLength := unat v\<rparr>))
             (read_int mem headersLen (unat valueByte) (pos + 1) 0)
         else Some (pos + 1, response))
      else
        (if 0x80 \<le> valueByte then Some (pos + 1, response)
         else if valueByte < 31 then Some (pos + 1 + unat valueByte, response)
         else map_option (\<lambda>(s, next). (next, response)) (read_text mem headersLen pos)))"

definition parse_text_field :: "bytes \<Rightarrow> nat \<Rightarrow> nat \<Rightarrow> HTTPResponse \<Rightarrow> (nat \<times> HTTPResponse) option" where
  "parse_text_field mem headersLen pos response =
     (case read_text mem headersLen pos of
        None \<Rightarrow> None
      | Some (s, pos) \<Rightarrow>
          if pos < headersLen then
            (case read_at mem pos of
               None \<Rightarrow> None
             | Some valueByte \<Rightarrow>
                 if 0x80 \<le> valueByte then Some (pos + 1, response)
                 else map_option (\<lambda>(s, next). (next, response)) (read_text mem headersLen pos))
          else Some (pos, response))"

definition parse_field :: "bytes \<Rightarrow> nat \<Rightarrow> nat \<Rightarrow> HTTPResponse \<Rightarrow> (nat \<times> HTTPResponse) option" where
  "parse_field mem headersLen pos response =
     (case read_at mem pos of
        None \<Rightarrow> None
      | Some fieldByte \<Rightarrow>
          if 0x80 \<le> fieldByte then
            (if headersLen \<le> pos + 1 then Some (pos + 1, response)
             else
               (case read_at mem (pos + 1) of
                  None \<Rightarrow> None
                | Some valueByte \<Rightarrow>
                    parse_known_field mem headersLen (fieldByte AND 0x7F) (pos + 1) valueByte response))
          else if fieldByte < 0x20 then Some (pos + 1, response)
          else parse_text_field mem headersLen pos response)"

lemma read_text_progress: "read_text mem n pos = Some (s, next) \<Longrightarrow> pos < next"
  by (auto simp: read_text_def)

lemma read_int_progress: "read_int mem n k pos v = Some (next, w) \<Longrightarrow> pos \<le> next"
  by (induction mem n k pos v rule: read_int.induct)
    (auto split: if_splits option.splits)

lemma parse_field_progress: "parse_field mem n pos r = Some (next, r') \<Longrightarrow> pos < next"
  by (auto simp: parse_field_def parse_known_field_def parse_text_field_def Let_def
      dest!: read_text_progress read_int_progress split: option.splits if_splits)

function parse_fields :: "bytes \<Rightarrow> nat \<Rightarrow> nat \<Rightarrow> HTTPResponse \<Rightarrow> HTTPResponse option" where
  "parse_fields mem headersLen pos response =
     (if pos < headersLen then
        (case parse_field mem headersLen pos response of
           None \<Rightarrow> None
         | Some (pos, response) \<Rightarrow> parse_fields mem headersLen pos response)
      else Some response)"
  by pat_completeness auto

termination parse_fields
  by (relation "measure (\<lambda>(mem, n, pos, r). n - pos)") (auto dest!: parse_field_progress)

declare parse_fields.simps [simp del]

text \<open>The return value of \<open>parseHeaders\<close> is always true; a null \<open>response\<close> is
  \<^term>\<open>None\<close> inside.\<close>

definition parseHeaders ::
  "bytes option \<Rightarrow> nat \<Rightarrow> HTTPResponse option \<Rightarrow> (bool \<times> HTTPResponse option) option" where
  "parseHeaders headers headersLen response =
     (case (headers, response) of
        (Some mem, Some r) \<Rightarrow>
          if headersLen = 0 then Some (True, response)
          else
            (case parse_content_type mem headersLen r of
               None \<Rightarrow> None
             | Some (pos, r) \<Rightarrow>
                 map_option (\<lambda>r. (True, Some r)) (parse_fields mem headersLen pos r))
      | _ \<Rightarrow> Some (True, response))"

section \<open>Decoding a reply\<close>

definition decode_fresh :: "HTTPResponse \<Rightarrow> HTTPResponse" where
  "decode_fresh r = (if statusCode r = 0 then zero_response else r)"

definition decode_status :: "u8 \<Rightarrow> HTTPResponse \<Rightarrow> HTTPResponse" where
  "decode_status b r =
     r\<lparr>wspStatus := b, statusCode := wspStatusToHttp b,
       statusText := take 31 (httpStatusToText (wspStatusToHttp b))\<rparr>"

text \<open>The body is everything from \<open>pos\<close> to the end of the data.\<close>

definition decode_body :: "bytes \<Rightarrow> nat \<Rightarrow> HTTPResponse \<Rightarrow> HTTPResponse" where
  "decode_body d pos r =
     (let r = r\<lparr>body := (if pos < length d then Some (drop pos d) else None),
                bodyLen := (if pos < length d then length d - pos else 0)\<rparr>
      in if contentLength r = 0 then r\<lparr>contentLength := bodyLen r\<rparr> else r)"

text \<open>
  \<open>data\<close> holds the \<open>len\<close> bytes of the PDU; \<^term>\<open>None\<close> is a read outside it.  The result is
  the return value and the response.
\<close>

definition decodeWithoutTID ::
  "bytes option \<Rightarrow> HTTPResponse option \<Rightarrow> (bool \<times> HTTPResponse option) option" where
  "decodeWithoutTID data response =
     (case (data, response) of
        (Some d, Some r) \<Rightarrow>
          if length d < 3 then Some (False, response)
          else
            let r = decode_fresh r in
            if d ! 0 \<noteq> 0x04 then Some (False, Some r)
            else
              let r = decode_status (d ! 1) r in
              (case decodeUintvar (drop 2 d) False of
                 None \<Rightarrow> Some (False, Some r)
               | Some (uintvarBytes, headersLen) \<Rightarrow>
                   let pos = 2 + uintvarBytes;
                       r = r\<lparr>rawHeaders := Some (drop pos d), rawHeadersLen := unat headersLen\<rparr>;
                       fits = (of_nat pos + headersLen \<le> of_nat (length d))
                   in if 0 < headersLen \<and> fits then
                        (case parseHeaders (Some (drop pos d)) (unat headersLen) (Some r) of
                           Some (_, Some r) \<Rightarrow>
                             Some (True, Some (decode_body d (unat (of_nat pos + headersLen)) r))
                         | _ \<Rightarrow> None)
                      else Some (True, Some (decode_body d pos r)))
      | _ \<Rightarrow> Some (False, response))"

definition decode :: "bytes option \<Rightarrow> HTTPResponse option \<Rightarrow> (bool \<times> HTTPResponse option) option" where
  "decode pdu response =
     (case (pdu, response) of
        (Some d, Some r) \<Rightarrow>
          if length d < 4 then Some (False, response)
          else decodeWithoutTID (Some (drop 1 d)) (Some zero_response)
      | _ \<Rightarrow> Some (False, response))"

section \<open>Formatting as HTTP\<close>

text \<open>\<open>%zu\<close> and \<open>%d\<close>\<close>

fun fmt_nat :: "nat \<Rightarrow> bytes" where
  "fmt_nat n = (if n < 10 then [of_nat (48 + n)] else fmt_nat (n div 10) @ [of_nat (48 + n mod 10)])"

declare fmt_nat.simps [simp del]

definition fmt_int :: "int \<Rightarrow> bytes" where
  "fmt_int i = (if i < 0 then 45 # fmt_nat (nat (- i)) else fmt_nat (nat i))"

definition crlf :: bytes where "crlf = [13, 10]"

text \<open>\<open>snprintf(&buffer[pos], bufferSize - pos, ...)\<close> and the check of its result: a text that
  does not fit with its terminator is cut and makes the function return 0.\<close>

definition emit :: "nat \<Rightarrow> bytes \<Rightarrow> bytes \<Rightarrow> bytes + bytes" where
  "emit bufferSize s out =
     (if bufferSize - length out \<le> length s
      then Inl (out @ take (bufferSize - length out - 1) s @ [0])
      else Inr (out @ s))"

definition emit_if :: "bool \<Rightarrow> nat \<Rightarrow> bytes \<Rightarrow> bytes \<Rightarrow> bytes + bytes" where
  "emit_if b bufferSize s out = (if b then emit bufferSize s out else Inr out)"

definition then_emit :: "bytes + bytes \<Rightarrow> (bytes \<Rightarrow> bytes + bytes) \<Rightarrow> bytes + bytes" where
  "then_emit r f = (case r of Inl out \<Rightarrow> Inl out | Inr out \<Rightarrow> f out)"

definition format_head :: "nat \<Rightarrow> HTTPResponse \<Rightarrow> bytes + bytes" where
  "format_head bufferSize r =
     (let r1 = emit bufferSize
            (str ''HTTP/1.1 '' @ fmt_int (statusCode r) @ str '' '' @ statusText r @ crlf) [];
          r2 = then_emit r1 (emit_if (contentType r \<noteq> []) bufferSize
            (str ''Content-Type: '' @ contentType r @ crlf));
          r3 = then_emit r2 (emit bufferSize
            (str ''Content-Length: '' @ fmt_nat (bodyLen r) @ crlf));
          r4 = then_emit r3 (emit_if (server r \<noteq> []) bufferSize
            (str ''Server: '' @ server r @ crlf));
          r5 = then_emit r4 (emit_if (location r \<noteq> []) bufferSize
            (str ''Location: '' @ location r @ crlf))
      in then_emit r5 (emit bufferSize crlf))"

text \<open>The return value and the buffer, terminator included.\<close>

definition formatAsHTTP :: "HTTPResponse option \<Rightarrow> bool \<Rightarrow> nat \<Rightarrow> nat \<times> bytes" where
  "formatAsHTTP response buffer_null bufferSize =
     (case response of
        None \<Rightarrow> (0, [])
      | Some r \<Rightarrow>
          if buffer_null \<or> bufferSize < 64 then (0, [])
          else
            (case format_head bufferSize r of
               Inl out \<Rightarrow> (0, out)
             | Inr out \<Rightarrow>
                 (case body r of
                    None \<Rightarrow> (length out, out @ [0])
                  | Some b \<Rightarrow>
                      if 0 < bodyLen r then
                        (let bodyToCopy =
                           (if bufferSize \<le> length out + bodyLen r
                            then bufferSize - length out - 1 else bodyLen r)
                         in (length out + bodyToCopy, out @ take bodyToCopy b @ [0]))
                      else (length out, out @ [0]))))"

section \<open>The tables agree with the enumerations\<close>

text \<open>The name the header file gives to each enumerated content type.\<close>

primrec ct_name :: "WSPContentTypeCode \<Rightarrow> bytes" where
    "ct_name WSP_CT_ANY = str ''*/*''"
  | "ct_name WSP_CT_TEXT_ANY = str ''text/*''"
  | "ct_name WSP_CT_TEXT_HTML = str ''text/html''"
  | "ct_name WSP_CT_TEXT_PLAIN = str ''text/plain''"
  | "ct_name WSP_CT_TEXT_X_HDML = str ''text/x-hdml''"
  | "ct_name WSP_CT_TEXT_X_TTML = str ''text/x-ttml''"
  | "ct_name WSP_CT_TEXT_X_VCALENDAR = str ''text/x-vCalendar''"
  | "ct_name WSP_CT_TEXT_X_VCARD = str ''text/x-vCard''"
  | "ct_name WSP_CT_TEXT_VND_WAP_WML = str ''text/vnd.wap.wml''"
  | "ct_name WSP_CT_TEXT_VND_WAP_WMLSCRIPT = str ''text/vnd.wap.wmlscript''"
  | "ct_name WSP_CT_APP_VND_WAP_CATC = str ''application/vnd.wap.catc''"
  | "ct_name WSP_CT_MULTIPART_ANY = str ''multipart/*''"
  | "ct_name WSP_CT_MULTIPART_MIXED = str ''multipart/mixed''"
  | "ct_name WSP_CT_MULTIPART_FORM = str ''multipart/form-data''"
  | "ct_name WSP_CT_MULTIPART_BYTERANGES = str ''multipart/byteranges''"
  | "ct_name WSP_CT_MULTIPART_ALT = str ''multipart/alternative''"
  | "ct_name WSP_CT_APP_ANY = str ''application/*''"
  | "ct_name WSP_CT_APP_JAVA_VM = str ''application/java-vm''"
  | "ct_name WSP_CT_APP_X_WWW_FORM = str ''application/x-www-form-urlencoded''"
  | "ct_name WSP_CT_APP_X_HDMLC = str ''application/x-hdmlc''"
  | "ct_name WSP_CT_APP_VND_WAP_WMLC = str ''application/vnd.wap.wmlc''"
  | "ct_name WSP_CT_APP_VND_WAP_WMLSCRIPTC = str ''application/vnd.wap.wmlscriptc''"
  | "ct_name WSP_CT_IMAGE_ANY = str ''image/*''"
  | "ct_name WSP_CT_IMAGE_GIF = str ''image/gif''"
  | "ct_name WSP_CT_IMAGE_JPEG = str ''image/jpeg''"
  | "ct_name WSP_CT_IMAGE_TIFF = str ''image/tiff''"
  | "ct_name WSP_CT_IMAGE_PNG = str ''image/png''"
  | "ct_name WSP_CT_IMAGE_VND_WAP_WBMP = str ''image/vnd.wap.wbmp''"
  | "ct_name WSP_CT_APP_XML = str ''application/xml''"
  | "ct_name WSP_CT_TEXT_XML = str ''text/xml''"
  | "ct_name WSP_CT_APP_VND_WAP_WBXML = str ''application/vnd.wap.wbxml''"
  | "ct_name WSP_CT_APP_XHTML_XML = str ''application/xhtml+xml''"
  | "ct_name WSP_CT_TEXT_CSS = str ''text/css''"
  | "ct_name WSP_CT_APP_OCTET_STREAM = str ''application/octet-stream''"

lemma contentTypeToString_ct_code: "contentTypeToString (ct_code c) = ct_name c"
  by (cases c) (simp_all add: contentTypeToString_def contentTypeTable_def)

lemma contentTypeToString_length: "length (contentTypeToString b) \<le> 63"
proof -
  have "list_all (\<lambda>t. length t \<le> 63) contentTypeTable"
    by (simp add: contentTypeTable_def)
  then show ?thesis
    by (auto simp: contentTypeToString_def list_all_length)
qed

lemma http_status_texts:
  "list_all (\<lambda>(s, t). t \<noteq> str ''Unknown'' \<and> length t \<le> 31) http_status_table"
  by (simp add: http_status_table_def str_Cons)

lemma http_status_known:
  "list_all (\<lambda>s. s \<in> set (map fst http_status_table)) (500 # map snd wsp_status_table)"
  by (simp add: wsp_status_table_def http_status_table_def)

lemma wsp_status_text:
  "httpStatusToText (wspStatusToHttp b) \<noteq> str ''Unknown'' \<and>
   length (httpStatusToText (wspStatusToHttp b)) \<le> 31"
proof -
  have "wspStatusToHttp b \<in> set (500 # map snd wsp_status_table)"
    by (force simp: wspStatusToHttp_def dest: map_of_SomeD split: option.splits)
  then have "wspStatusToHttp b \<in> set (map fst http_status_table)"
    using http_status_known [unfolded list_all_iff] by blast
  then have "wspStatusToHttp b \<in> fst ` set http_status_table"
    by (simp only: set_map)
  then obtain t where t: "map_of http_status_table (wspStatusToHttp b) = Some t"
    by (cases "map_of http_status_table (wspStatusToHttp b)") (auto simp: map_of_eq_None_iff)
  then show ?thesis
    using http_status_texts map_of_SomeD [OF t] by (auto simp: httpStatusToText_def list_all_iff)
qed

section \<open>Reads stay inside the block\<close>

lemma strnlen_inside:
  "n \<le> length mem \<Longrightarrow> strnlen mem n = Some (length (takeWhile (\<lambda>c. c \<noteq> 0) (take n mem)))"
  by (induction mem n rule: strnlen.induct) auto

lemma read_text_inside:
  "n \<le> length mem \<Longrightarrow> read_text mem n pos =
     (let s = takeWhile (\<lambda>c. c \<noteq> 0) (take (n - pos) (drop pos mem)) in Some (s, pos + length s + 1))"
proof -
  assume "n \<le> length mem"
  then have "n - pos \<le> length (drop pos mem)" by simp
  moreover have "take (length (takeWhile P xs)) ys = takeWhile P xs" if "take m ys = xs" for P m and xs ys :: bytes
    using that by (metis take_take takeWhile_eq_take length_takeWhile_le length_take min.absorb1 min.bounded_iff)
  ultimately show ?thesis
    by (simp add: read_text_def strnlen_inside Let_def)
qed

lemma read_int_inside: "n \<le> length mem \<Longrightarrow> read_int mem n k pos v \<noteq> None"
  by (induction mem n k pos v rule: read_int.induct) (auto simp: read_at_def)

lemma parse_content_type_inside:
  "0 < n \<Longrightarrow> n \<le> length mem \<Longrightarrow> parse_content_type mem n r \<noteq> None"
  by (auto simp: parse_content_type_def read_at_def read_text_inside Let_def)

lemma parse_field_inside:
  "pos < n \<Longrightarrow> n \<le> length mem \<Longrightarrow> parse_field mem n pos r \<noteq> None"
  using read_int_inside [of n mem]
  by (auto simp: parse_field_def parse_known_field_def parse_text_field_def read_at_def
      read_text_inside Let_def)

lemma parse_fields_inside: "n \<le> length mem \<Longrightarrow> parse_fields mem n pos r \<noteq> None"
proof (induction mem n pos r rule: parse_fields.induct)
  case (1 mem n pos r)
  show ?case
  proof (cases "pos < n")
    case True
    then obtain pos' r' where f: "parse_field mem n pos r = Some (pos', r')"
      using parse_field_inside [of pos n mem r] 1(2) by auto
    show ?thesis
      using 1(1) [OF True f refl] 1(2) True by (subst parse_fields.simps) (simp add: f)
  next
    case False
    then show ?thesis by (subst parse_fields.simps) simp
  qed
qed

lemma parseHeaders_inside:
  "n \<le> length mem \<Longrightarrow> \<exists>r'. parseHeaders (Some mem) n (Some r) = Some (True, Some r')"
  using parse_content_type_inside [of n mem r] parse_fields_inside [of n mem]
  by (cases "n = 0") (auto simp: parseHeaders_def split: option.splits)

section \<open>What the header parser reads\<close>

text \<open>Header fields as a sender writes them, their bytes, and their effect on the response.\<close>

datatype wsp_field =
    Server_Field bytes
  | Location_Field bytes
  | Short_Length u8
  | Long_Length bytes
  | Short_Field u8 u8
  | Octets_Field u8 bytes
  | Text_Field u8 bytes
  | Named_Field bytes bytes

definition is_text :: "bytes \<Rightarrow> bool" where
  "is_text s \<longleftrightarrow> 0 \<notin> set s \<and> (s = [] \<or> hd s < 0x80)"

definition skipped_code :: "u8 \<Rightarrow> bool" where
  "skipped_code c \<longleftrightarrow> c < 0x80 \<and>
     c \<notin> header_code ` {WSP_HEADER_SERVER, WSP_HEADER_LOCATION, WSP_HEADER_CONTENT_LENGTH}"

primrec field_ok :: "wsp_field \<Rightarrow> bool" where
  "field_ok (Server_Field s) = (is_text s \<and> length s < 64)"
| "field_ok (Location_Field s) = (is_text s \<and> length s < 256)"
| "field_ok (Short_Length v) = (v < 0x80)"
| "field_ok (Long_Length bs) = (length bs < 31)"
| "field_ok (Short_Field c v) = (skipped_code c \<and> v < 0x80)"
| "field_ok (Octets_Field c bs) = (skipped_code c \<and> length bs < 31)"
| "field_ok (Text_Field c s) = (skipped_code c \<and> is_text s \<and> s \<noteq> [] \<and> 31 \<le> hd s)"
| "field_ok (Named_Field n s) = (is_text n \<and> n \<noteq> [] \<and> 0x20 \<le> hd n \<and> is_text s)"

primrec field_bytes :: "wsp_field \<Rightarrow> bytes" where
  "field_bytes (Server_Field s) = [0xA6] @ s @ [0]"
| "field_bytes (Location_Field s) = [0x9C] @ s @ [0]"
| "field_bytes (Short_Length v) = [0x8D, v OR 0x80]"
| "field_bytes (Long_Length bs) = [0x8D, of_nat (length bs)] @ bs"
| "field_bytes (Short_Field c v) = [c OR 0x80, v OR 0x80]"
| "field_bytes (Octets_Field c bs) = [c OR 0x80, of_nat (length bs)] @ bs"
| "field_bytes (Text_Field c s) = [c OR 0x80] @ s @ [0]"
| "field_bytes (Named_Field n s) = n @ [0] @ s @ [0]"

definition be_value :: "bytes \<Rightarrow> u32" where
  "be_value bs = foldl (\<lambda>v b. push_bit 8 v OR ucast b) 0 bs"

primrec apply_field :: "wsp_field \<Rightarrow> HTTPResponse \<Rightarrow> HTTPResponse" where
  "apply_field (Server_Field s) r = r\<lparr>server := s\<rparr>"
| "apply_field (Location_Field s) r = r\<lparr>location := s\<rparr>"
| "apply_field (Short_Length v) r = r\<lparr>contentLength := unat v\<rparr>"
| "apply_field (Long_Length bs) r = r\<lparr>contentLength := unat (be_value bs)\<rparr>"
| "apply_field (Short_Field c v) r = r"
| "apply_field (Octets_Field c bs) r = r"
| "apply_field (Text_Field c s) r = r"
| "apply_field (Named_Field n s) r = r"

lemma or_0x80:
  fixes c :: u8
  assumes "c < 0x80"
  shows "0x80 \<le> c OR 0x80" and "(c OR 0x80) AND 0x7F = c"
proof -
  have m: "0x7F = (mask 7 :: u8)" by (simp add: mask_eq_exp_minus_1)
  have bit: "\<not> bit c n" if "7 \<le> n" for n
  proof
    assume "bit c n"
    moreover from this have "n < 8" using bit_imp_le_length [of c n] by simp
    ultimately have "bit c 7" using that by (cases "n = 7") auto
    then have "c AND 0x80 \<noteq> 0" using and_exp_eq_0_iff_not_bit [of c 7] by simp
    then show False using assms by (simp add: and_0x80)
  qed
  have "(c OR 0x80) AND 0x80 \<noteq> 0"
  proof
    assume "(c OR 0x80) AND 0x80 = 0"
    then have "bit ((c OR 0x80) AND 0x80) 7 = bit (0 :: u8) 7" by simp
    then show False by (simp add: bit_simps bit_0x80)
  qed
  then show "0x80 \<le> c OR 0x80" by (simp only: and_0x80 not_less)
  show "(c OR 0x80) AND 0x7F = c"
    unfolding m by (rule bit_word_eqI) (use bit in \<open>auto simp: bit_simps bit_0x80 not_le [symmetric]\<close>)
qed

lemma read_at_append [simp]: "read_at (pre @ x # xs) (length pre) = Some x"
  by (simp add: read_at_def)

lemma read_text_append:
  assumes "0 \<notin> set s" "length pre + length s < n"
  shows "read_text (pre @ s @ 0 # post) n (length pre) = Some (s, length pre + length s + 1)"
proof -
  have "strnlen (s @ 0 # post) m = Some (length s)" if "length s < m" for m
    using that assms(1)
  proof (induction s arbitrary: m)
    case Nil
    then show ?case by (cases m) auto
  next
    case (Cons a s)
    then show ?case by (cases m) auto
  qed
  then show ?thesis using assms(2) by (simp add: read_text_def)
qed

lemma read_int_append:
  "length pre + length bs \<le> n \<Longrightarrow>
     read_int (pre @ bs @ post) n (length bs) (length pre) v =
     Some (length pre + length bs, foldl (\<lambda>v b. push_bit 8 v OR ucast b) v bs)"
proof (induction bs arbitrary: pre v)
  case (Cons b bs)
  from Cons.IH [of "pre @ [b]"] Cons.prems show ?case by simp
qed simp

text \<open>One field: the parser moves past its bytes and applies its effect.\<close>

lemma small_of_nat: "n < 31 \<Longrightarrow> (of_nat n :: u8) < 31 \<and> unat (of_nat n :: u8) = n"
  by (simp add: word_less_nat_alt unat_of_nat)

lemma hd_text_less: "is_text s \<Longrightarrow> hd (s @ [0]) < 0x80"
  by (cases s) (auto simp: is_text_def)

lemma hd_append_read: "read_at (pre @ s @ 0 # post) (length pre) = Some (hd (s @ [0]))"
  by (cases s) auto

lemma known_code: "(0xA6 :: u8) AND 0x7F = header_code WSP_HEADER_SERVER"
  "(0x9C :: u8) AND 0x7F = header_code WSP_HEADER_LOCATION"
  "(0x8D :: u8) AND 0x7F = header_code WSP_HEADER_CONTENT_LENGTH"
  by simp_all

text \<open>A known field: its code byte is at \<open>length pre\<close>, its value starts at the next
  position.\<close>

lemma parse_field_known:
  assumes "0x80 \<le> cb" "length pre + 1 < n"
  shows "parse_field (pre @ cb # v # post) n (length pre) r =
    parse_known_field (pre @ cb # v # post) n (cb AND 0x7F) (length (pre @ [cb])) v r"
  using assms read_at_append [of "pre @ [cb]" v post] by (simp add: parse_field_def not_le)

lemma read_text_known:
  assumes "is_text s" "length pre + length s + 1 < n"
  shows "read_text (pre @ cb # s @ 0 # post) n (length (pre @ [cb])) =
    Some (s, length pre + length ([cb] @ s @ [0]))"
  using assms read_text_append [of s "pre @ [cb]" n post] by (simp add: is_text_def)

lemma parse_field_text_value:
  assumes "0x80 \<le> cb" "is_text s" "length pre + length s + 1 < n"
  shows "parse_field (pre @ cb # s @ 0 # post) n (length pre) r =
    parse_known_field (pre @ cb # s @ 0 # post) n (cb AND 0x7F) (length (pre @ [cb])) (hd (s @ [0])) r"
proof -
  obtain x xs where "s @ 0 # post = x # xs" "x = hd (s @ [0])" by (cases s) auto
  then show ?thesis
    using parse_field_known [OF assms(1), of pre n x xs r] assms(3) by simp
qed

lemma skipped_code_or:
  assumes "skipped_code c"
  shows "0x80 \<le> c OR 0x80" "(c OR 0x80) AND 0x7F = c"
    "c \<noteq> header_code WSP_HEADER_SERVER" "c \<noteq> header_code WSP_HEADER_LOCATION"
    "c \<noteq> header_code WSP_HEADER_CONTENT_LENGTH"
  using assms or_0x80 [of c] by (auto simp: skipped_code_def)

lemma parse_field_correct:
  assumes "field_ok f" "length pre + length (field_bytes f) \<le> n"
  shows "parse_field (pre @ field_bytes f @ post) n (length pre) r =
    Some (length pre + length (field_bytes f), apply_field f r)"
proof (cases f)
  case (Server_Field s)
  then show ?thesis
    using assms parse_field_text_value [of "0xA6" s pre n post r] read_text_known [of s pre n "0xA6" post]
      hd_text_less [of s]
    by (simp add: parse_known_field_def headerNameTable_def del: hd_append2 hd_append)
next
  case (Location_Field s)
  then show ?thesis
    using assms parse_field_text_value [of "0x9C" s pre n post r] read_text_known [of s pre n "0x9C" post]
      hd_text_less [of s]
    by (simp add: parse_known_field_def del: hd_append2 hd_append)
next
  case (Short_Length v)
  then show ?thesis
    using assms parse_field_known [of "0x8D" pre n "v OR 0x80" post r] or_0x80 [of v]
    by (simp add: parse_known_field_def)
next
  case (Long_Length bs)
  then show ?thesis
    using assms parse_field_known [of "0x8D" pre n "of_nat (length bs)" "bs @ post" r]
      small_of_nat [of "length bs"] read_int_append [of "pre @ [0x8D, of_nat (length bs)]" bs n post 0]
    by (auto simp: parse_known_field_def be_value_def word_less_nat_alt word_le_nat_alt)
next
  case (Short_Field c v)
  then show ?thesis
    using assms parse_field_known [of "c OR 0x80" pre n "v OR 0x80" post r] or_0x80 [of v]
      skipped_code_or [of c]
    by (simp add: parse_known_field_def)
next
  case (Octets_Field c bs)
  then show ?thesis
    using assms parse_field_known [of "c OR 0x80" pre n "of_nat (length bs)" "bs @ post" r]
      small_of_nat [of "length bs"] skipped_code_or [of c]
    by (auto simp: parse_known_field_def word_less_nat_alt word_le_nat_alt)
next
  case (Text_Field c s)
  then show ?thesis
    using assms parse_field_text_value [of "c OR 0x80" s pre n post r]
      read_text_known [of s pre n "c OR 0x80" post] skipped_code_or [of c]
    by (auto simp: parse_known_field_def is_text_def)
next
  case (Named_Field m s)
  then obtain x xs where m: "m = x # xs" using assms(1) by (cases m) auto
  have bytes: "pre @ field_bytes f @ post = pre @ m @ 0 # s @ 0 # post"
    by (simp add: Named_Field)
  have name: "read_text (pre @ m @ 0 # s @ 0 # post) n (length pre) = Some (m, length pre + length m + 1)"
    using assms Named_Field by (intro read_text_append) (auto simp: is_text_def)
  have first: "read_at (pre @ m @ 0 # s @ 0 # post) (length pre) = Some x"
    by (simp add: m)
  have second: "read_at (pre @ m @ 0 # s @ 0 # post) (length pre + length m + 1) = Some (hd (s @ [0]))"
    using hd_append_read [of "pre @ m @ [0]" s post] by simp
  have "read_text (pre @ m @ 0 # s @ 0 # post) n (length pre + length m + 1) =
      Some (s, length pre + length (m @ [0] @ s @ [0]))"
    using read_text_append [of s "pre @ m @ [0]" n post] assms Named_Field by (simp add: is_text_def)
  moreover have "\<not> 0x80 \<le> x" "\<not> x < 0x20" "\<not> 0x80 \<le> hd (s @ [0])" "length pre + length m + 1 < n"
    using assms Named_Field m hd_text_less [of s] by (simp_all add: is_text_def not_le not_less)
  ultimately show ?thesis
    using second unfolding bytes by (simp add: parse_field_def first parse_text_field_def name Named_Field
      del: hd_append2 hd_append)
qed

lemma parse_fields_correct:
  "list_all field_ok fs \<Longrightarrow>
     parse_fields (pre @ concat (map field_bytes fs) @ post)
       (length pre + length (concat (map field_bytes fs))) (length pre) r = Some (fold apply_field fs r)"
proof (induction fs arbitrary: pre r)
  case Nil
  then show ?case by (subst parse_fields.simps) simp
next
  case (Cons f fs)
  have ne: "0 < length (field_bytes f)" by (cases f) auto
  let ?mem = "pre @ concat (map field_bytes (f # fs)) @ post"
  let ?n = "length pre + length (concat (map field_bytes (f # fs)))"
  have "parse_field ?mem ?n (length pre) r = Some (length pre + length (field_bytes f), apply_field f r)"
    using parse_field_correct [of f pre ?n "concat (map field_bytes fs) @ post" r] Cons.prems by simp
  moreover have "parse_fields ?mem ?n (length (pre @ field_bytes f)) (apply_field f r) =
      Some (fold apply_field fs (apply_field f r))"
    using Cons.IH [of "pre @ field_bytes f" "apply_field f r"] Cons.prems by (simp add: add.assoc)
  ultimately show ?case
    using ne by (subst parse_fields.simps) simp
qed

lemma parseHeaders_correct:
  assumes "list_all field_ok fs" "b < 0x80"
  shows "parseHeaders (Some (((b OR 0x80) # concat (map field_bytes fs)) @ post))
      (length ((b OR 0x80) # concat (map field_bytes fs))) (Some r) =
    Some (True, Some (fold apply_field fs (r\<lparr>contentType := contentTypeToString b\<rparr>)))"
proof -
  have ct: "set_contentType (b OR 0x80) r = r\<lparr>contentType := contentTypeToString b\<rparr>"
    using or_0x80 [OF assms(2)] contentTypeToString_length [of b] by (simp add: set_contentType_def)
  have "read_at ((b OR 0x80) # xs) 0 = Some (b OR 0x80)" for xs
    by (simp add: read_at_def)
  then show ?thesis
    using parse_fields_correct [OF assms(1), of "[b OR 0x80]" post] or_0x80 [OF assms(2)]
    by (simp add: parseHeaders_def parse_content_type_def ct)
qed

section \<open>Decoding lemmas\<close>

lemma fold_apply_field_other:
  "statusCode (fold apply_field fs r) = statusCode r \<and> wspStatus (fold apply_field fs r) = wspStatus r \<and>
   statusText (fold apply_field fs r) = statusText r \<and> contentType (fold apply_field fs r) = contentType r"
proof (induction fs arbitrary: r)
  case (Cons f fs)
  show ?case using Cons.IH [of "apply_field f r"] by (cases f) simp_all
qed simp

lemma fold_apply_field_same:
  "server r = server r' \<Longrightarrow> location r = location r' \<Longrightarrow> contentLength r = contentLength r' \<Longrightarrow>
     server (fold apply_field fs r) = server (fold apply_field fs r') \<and>
     location (fold apply_field fs r) = location (fold apply_field fs r') \<and>
     contentLength (fold apply_field fs r) = contentLength (fold apply_field fs r')"
proof (induction fs arbitrary: r r')
  case (Cons f fs)
  show ?case
    using Cons.IH [of "apply_field f r" "apply_field f r'"] Cons.prems by (cases f) simp_all
qed simp

lemma decodeWithoutTID_body:
  assumes "length d < 2 ^ 32" "3 \<le> length d" "d ! 0 = 0x04"
    and dec: "decodeUintvar (drop 2 d) False = Some (k, hl)"
    and hl: "0 < hl" "2 + k + unat hl \<le> length d"
    and hdr: "parseHeaders (Some (drop (2 + k) d)) (unat hl)
        (Some ((decode_status (d ! 1) (decode_fresh r))
          \<lparr>rawHeaders := Some (drop (2 + k) d), rawHeadersLen := unat hl\<rparr>)) = Some (b, Some r')"
  shows "decodeWithoutTID (Some d) (Some r) = Some (True, Some (decode_body d (2 + k + unat hl) r'))"
proof -
  have u: "unat (of_nat (2 + k) + hl :: u32) = 2 + k + unat hl"
    using assms(1) hl(2) by (simp add: unat_word_ariths unat_of_nat)
  have "unat (of_nat (length d) :: u32) = length d"
    using assms(1) by (simp add: unat_of_nat)
  then have fits: "of_nat (2 + k) + hl \<le> (of_nat (length d) :: u32)"
    unfolding word_le_nat_alt u using hl(2) by simp
  have "\<not> length d < 3" using assms(2) by simp
  then show ?thesis
    unfolding decodeWithoutTID_def prod.case option.case Let_def dec
    by (simp only: assms(3) fits hl(1) hdr u option.case prod.case simp_thms if_True if_False)
qed

lemma decodeWithoutTID_no_oob:
  assumes "length d < 2 ^ 32"
    and wrap: "\<And>k hl. decodeUintvar (drop 2 d) False = Some (k, hl) \<Longrightarrow> 2 + k + unat hl < 2 ^ 32"
  shows "decodeWithoutTID (Some d) (Some r) \<noteq> None"
proof (cases "decodeUintvar (drop 2 d) False")
  case None
  then show ?thesis by (simp add: decodeWithoutTID_def Let_def del: not_None_eq)
next
  case (Some p)
  then obtain k hl where dec: "decodeUintvar (drop 2 d) False = Some (k, hl)" by (cases p) auto
  have "unat (of_nat (2 + k) + hl :: u32) = 2 + k + unat hl"
    using wrap [OF dec] by (simp add: unat_word_ariths unat_of_nat)
  moreover have "unat (of_nat (length d) :: u32) = length d"
    using assms(1) by (simp add: unat_of_nat)
  ultimately have "(of_nat (2 + k) + hl \<le> (of_nat (length d) :: u32)) = (2 + k + unat hl \<le> length d)"
    unfolding word_le_nat_alt by simp
  then have inside: "unat hl \<le> length (drop (2 + k) d)" if "of_nat (2 + k) + hl \<le> (of_nat (length d) :: u32)"
    using that by simp
  show ?thesis
  proof (cases "0 < hl \<and> of_nat (2 + k) + hl \<le> (of_nat (length d) :: u32)")
    case True
    obtain r' where "parseHeaders (Some (drop (2 + k) d)) (unat hl)
        (Some ((decode_status (d ! 1) (decode_fresh r))
          \<lparr>rawHeaders := Some (drop (2 + k) d), rawHeadersLen := unat hl\<rparr>)) = Some (True, Some r')"
      using parseHeaders_inside [OF inside] True by blast
    then show ?thesis
      unfolding decodeWithoutTID_def prod.case option.case Let_def dec
      by (simp only: option.case prod.case option.distinct simp_thms split: if_split)
  next
    case False
    then show ?thesis
      unfolding decodeWithoutTID_def prod.case option.case Let_def dec
      by (simp only: if_False option.distinct simp_thms split: if_split)
  qed
qed

section \<open>Formatting lemmas\<close>

definition http_head :: "HTTPResponse \<Rightarrow> bytes" where
  "http_head r =
     (((((str ''HTTP/1.1 '' @ fmt_int (statusCode r) @ str '' '' @ statusText r @ crlf) @
     (if contentType r \<noteq> [] then str ''Content-Type: '' @ contentType r @ crlf else [])) @
     (str ''Content-Length: '' @ fmt_nat (bodyLen r) @ crlf)) @
     (if server r \<noteq> [] then str ''Server: '' @ server r @ crlf else [])) @
     (if location r \<noteq> [] then str ''Location: '' @ location r @ crlf else [])) @
     crlf"

text \<open>\<open>emitted n r h\<close>: \<open>r\<close> is the outcome of emitting \<open>h\<close> into \<open>n\<close> bytes.\<close>

definition emitted :: "nat \<Rightarrow> bytes + bytes \<Rightarrow> bytes \<Rightarrow> bool" where
  "emitted n r h = (if length h < n then r = Inr h else (\<exists>out. r = Inl out \<and> length out \<le> n))"

lemma emitted_start: "0 < n \<Longrightarrow> emitted n (emit n s []) s"
  by (auto simp: emitted_def emit_def)

lemma emitted_then: "emitted n r h \<Longrightarrow> emitted n (then_emit r (emit n s)) (h @ s)"
  by (auto simp: emitted_def emit_def then_emit_def split: if_splits)

lemma emitted_then_if:
  "emitted n r h \<Longrightarrow> emitted n (then_emit r (emit_if b n s)) (h @ (if b then s else []))"
  by (cases b) (auto simp: emitted_def emit_def emit_if_def then_emit_def split: if_splits)

lemma emitted_format_head:
  assumes "0 < n"
  shows "emitted n (format_head n r) (http_head r)"
  unfolding format_head_def http_head_def Let_def
  by (intro emitted_then emitted_then_if emitted_start assms)

section \<open>Properties\<close>

text \<open>the content-type table agrees with the enumeration: each assigned number is
  rendered as the media type the enumeration names it after, and every number, known or not,
  as a string that fits the 64-byte field.\<close>

theorem content_types_agree:
  "contentTypeToString (ct_code c) = ct_name c \<and> length (contentTypeToString b) < 64"
  using contentTypeToString_ct_code contentTypeToString_length [of b] by simp

text \<open>every WSP status byte maps to an HTTP status with a text of its own, which fits the
  32-byte field of the response whole.\<close>

theorem status_text_known:
  "httpStatusToText (wspStatusToHttp b) \<noteq> str ''Unknown'' \<and>
   statusText (decode_status b r) = httpStatusToText (wspStatusToHttp b)"
  using wsp_status_text [of b] by (simp add: decode_status_def)

text \<open>the header parser ends and never reads outside the header block, whatever bytes it
  holds, when the block lies inside memory.\<close>

theorem parseHeaders_inside_block:
  assumes "headersLen \<le> length mem"
  shows "\<exists>r'. parseHeaders (Some mem) headersLen (Some r) = Some (True, Some r')"
  by (rule parseHeaders_inside [OF assms])

theorem parseHeaders_inside_block_witness:
  "\<exists>r'. parseHeaders (Some [0x1F, 0x8D, 0x1E, 7, 0xA6]) 5 (Some zero_response) = Some (True, Some r')"
  by (rule parseHeaders_inside_block) simp



lemma decode_wellformed_lemma:
  assumes "list_all field_ok fs" "ct < 0x80"
    and hs: "hs = (ct OR 0x80) # concat (map field_bytes fs)"
    and pdu: "pdu = [tid, 0x04, st] @ uintvar (of_nat (length hs)) @ hs @ content"
    and len: "length pdu < 2 ^ 32"
  shows "\<exists>r. decode (Some pdu) (Some r0) = Some (True, Some r) \<and>
    wspStatus r = st \<and> statusCode r = wspStatusToHttp st \<and>
    statusText r = httpStatusToText (wspStatusToHttp st) \<and>
    contentType r = contentTypeToString ct \<and>
    server r = server (fold apply_field fs zero_response) \<and>
    location r = location (fold apply_field fs zero_response) \<and>
    contentLength r =
      (let n = contentLength (fold apply_field fs zero_response) in
       if n = 0 then length content else n) \<and>
    body r = (if content = [] then None else Some content) \<and> bodyLen r = length content"
proof -
  let ?v = "uintvar (of_nat (length hs))"
  define d where "d = [0x04, st] @ ?v @ hs @ content"
  have hl: "unat (of_nat (length hs) :: u32) = length hs"
    using len by (simp add: pdu unat_of_nat)
  have ne: "0 < length hs" by (simp add: hs)
  define r1 where "r1 = (decode_status st zero_response)
    \<lparr>rawHeaders := Some (hs @ content), rawHeadersLen := length hs\<rparr>"
  define r2 where "r2 = fold apply_field fs (r1\<lparr>contentType := contentTypeToString ct\<rparr>)"
  have hdr: "parseHeaders (Some (hs @ content)) (length hs) (Some r1) = Some (True, Some r2)"
    using parseHeaders_correct [OF assms(1,2), of content r1] by (simp add: hs r2_def)
  have dec: "decodeUintvar (drop 2 d) False = Some (length ?v, of_nat (length hs))"
    by (simp add: d_def)
  have drop: "drop (2 + length ?v) d = hs @ content" by (simp add: d_def)
  have "decodeWithoutTID (Some d) (Some zero_response) =
      Some (True, Some (decode_body d (2 + length ?v + length hs) r2))"
    using decodeWithoutTID_body [OF _ _ _ dec, of zero_response True r2]
      len ne hl hdr drop length_uintvar(1) [of "of_nat (length hs)"]
    by (simp add: d_def pdu decode_fresh_def r1_def word_less_nat_alt zero_response_def Suc_le_eq)
  then have out: "decode (Some pdu) (Some r0) = Some (True, Some (decode_body d (2 + length ?v + length hs) r2))"
    by (simp add: decode_def pdu d_def length_uintvar ne)
  have fields: "server r2 = server (fold apply_field fs zero_response)"
    "location r2 = location (fold apply_field fs zero_response)"
    "contentLength r2 = contentLength (fold apply_field fs zero_response)"
    using fold_apply_field_same [of "r1\<lparr>contentType := contentTypeToString ct\<rparr>" zero_response fs]
    by (simp_all add: r2_def r1_def decode_status_def)
  have others: "wspStatus r2 = st" "statusCode r2 = wspStatusToHttp st"
    "statusText r2 = httpStatusToText (wspStatusToHttp st)" "contentType r2 = contentTypeToString ct"
    using fold_apply_field_other [of fs "r1\<lparr>contentType := contentTypeToString ct\<rparr>"] wsp_status_text [of st]
    by (simp_all add: r2_def r1_def decode_status_def)
  have "drop (2 + length ?v + length hs) d = content" by (simp add: d_def)
  then have "decode_body d (2 + length ?v + length hs) r2 =
      (let r = r2\<lparr>body := (if content = [] then None else Some content), bodyLen := length content\<rparr>
       in if contentLength r = 0 then r\<lparr>contentLength := bodyLen r\<rparr> else r)"
    by (simp add: decode_body_def d_def Let_def)
  then show ?thesis
    using out fields others by (simp add: Let_def)
qed

text \<open>C5: decoding a well-formed connectionless reply yields its status, the response its
  header fields describe, and its body; the content length is the body's when no field
  gave one.\<close>

theorem decode_wellformed:
  assumes "list_all field_ok fs" "ct < 0x80"
    and hs: "hs = (ct OR 0x80) # concat (map field_bytes fs)"
    and pdu: "pdu = [tid, 0x04, st] @ uintvar (of_nat (length hs)) @ hs @ content"
    and len: "length pdu < 2 ^ 32"
  shows "\<exists>r. decode (Some pdu) (Some r0) = Some (True, Some r) \<and>
    wspStatus r = st \<and> statusCode r = wspStatusToHttp st \<and>
    statusText r = httpStatusToText (wspStatusToHttp st) \<and>
    contentType r = contentTypeToString ct \<and>
    server r = server (fold apply_field fs zero_response) \<and>
    location r = location (fold apply_field fs zero_response) \<and>
    contentLength r =
      (let n = contentLength (fold apply_field fs zero_response) in
       if n = 0 then length content else n) \<and>
    body r = (if content = [] then None else Some content) \<and> bodyLen r = length content"
  by (rule decode_wellformed_lemma [OF assms])

theorem decode_wellformed_witness:
  "\<exists>r. decode (Some [7, 0x04, 0x20, 0x04, 0x94, 0xA6, 75, 0, 1, 2]) (Some zero_response) = Some (True, Some r) \<and>
     statusCode r = 200 \<and> server r = [75] \<and> body r = Some [1, 2]"
proof -
  have ok: "list_all field_ok [Server_Field [75]]" "(0x14 :: u8) < 0x80"
    by (auto simp: is_text_def)
  have hs: "[0x94, 0xA6, 75, 0] = (0x14 OR 0x80) # concat (map field_bytes [Server_Field [75]])"
    by simp
  have pdu: "[7, 0x04, 0x20, 0x04, 0x94, 0xA6, 75, 0, 1, 2] =
      [7, 0x04, 0x20] @ uintvar (of_nat (length [0x94, 0xA6, 75, 0 :: u8])) @ [0x94, 0xA6, 75, 0] @ [1, 2]"
    by code_simp
  show ?thesis
    using decode_wellformed [OF ok hs pdu, of zero_response]
    by (auto simp: wspStatusToHttp_def wsp_status_table_def)
qed

text \<open>decoding arbitrary bytes never reads outside the PDU, as long as the header length
  it announces does not overflow 32 bits when added to the position.\<close>

theorem decode_no_out_of_bounds:
  assumes "length d < 2 ^ 32"
    and "\<And>k hl. decodeUintvar (drop 2 d) False = Some (k, hl) \<Longrightarrow> 2 + k + unat hl < 2 ^ 32"
  shows "decodeWithoutTID (Some d) (Some r) \<noteq> None"
  by (rule decodeWithoutTID_no_oob [OF assms])

theorem decode_no_out_of_bounds_witness:
  "decodeWithoutTID (Some [0x04, 0x20, 0x7F, 0xA6, 75]) (Some zero_response) \<noteq> None"
proof (rule decode_no_out_of_bounds)
  fix k hl assume "decodeUintvar (drop 2 [0x04, 0x20, 0x7F, 0xA6, 75]) False = Some (k, hl)"
  moreover have "decodeUintvar (drop 2 [0x04, 0x20, 0x7F, 0xA6, 75]) False = Some (1, 0x7F)"
    by code_simp
  ultimately show "2 + k + unat hl < 2 ^ 32" by simp
qed simp

text \<open>C17: the formatter writes the status line, the headers that are set and the body, cut to
  the buffer, and a terminator; when the head does not fit it returns 0.  It never writes
  outside the buffer.\<close>

theorem formatAsHTTP_spec:
  assumes "64 \<le> bufferSize" "body r = None \<Longrightarrow> bodyLen r = 0"
    "\<And>b. body r = Some b \<Longrightarrow> bodyLen r = length b"
  shows "(if length (http_head r) < bufferSize
     then formatAsHTTP (Some r) False bufferSize =
       (let k = min (bodyLen r) (bufferSize - length (http_head r) - 1);
            b = (case body r of None \<Rightarrow> [] | Some b \<Rightarrow> b)
        in (length (http_head r) + k, http_head r @ take k b @ [0]))
     else fst (formatAsHTTP (Some r) False bufferSize) = 0) \<and>
   length (snd (formatAsHTTP (Some r) False bufferSize)) \<le> bufferSize"
proof -
  have "emitted bufferSize (format_head bufferSize r) (http_head r)"
    by (rule emitted_format_head) (use assms(1) in simp)
  then show ?thesis
    using assms(1) assms(2) assms(3)
    by (cases "length (http_head r) < bufferSize"; cases "body r")
      (auto simp: emitted_def formatAsHTTP_def Let_def min_def)
qed

theorem formatAsHTTP_spec_witness:
  "fst (formatAsHTTP (Some (zero_response\<lparr>statusCode := 200, body := Some [65], bodyLen := 1\<rparr>)) False 64) =
     length (http_head (zero_response\<lparr>statusCode := 200, body := Some [65], bodyLen := 1\<rparr>)) + 1"
proof -
  have "length (http_head (zero_response\<lparr>statusCode := 200, body := Some [65], bodyLen := 1\<rparr>)) < 63"
    by (simp add: http_head_def fmt_int_def fmt_nat.simps crlf_def zero_response_def)
  then show ?thesis
    using formatAsHTTP_spec [of 64 "zero_response\<lparr>statusCode := 200, body := Some [65], bodyLen := 1\<rparr>"]
    by (simp add: Let_def)
qed

section \<open>An out-of-bounds read\<close>

text \<open>A header length of \<open>2 ^ 32 - 1\<close> passes the wrapped check, and the header parser runs off
  the end of the PDU.\<close>

theorem decode_wraps_out_of_bounds:
  "decodeWithoutTID (Some [0x04, 0x20, 0x8F, 0xFF, 0xFF, 0xFF, 0x7F]) (Some zero_response) = None"
proof -
  have dec: "decodeUintvar (drop 2 [0x04, 0x20, 0x8F, 0xFF, 0xFF, 0xFF, 0x7F]) False = Some (5, 0xFFFFFFFF)"
    by code_simp
  have "parseHeaders (Some []) n (Some r) = None" if "0 < n" for n r
    using that by (simp add: parseHeaders_def parse_content_type_def read_at_def)
  then show ?thesis
    unfolding decodeWithoutTID_def prod.case option.case Let_def dec by simp
qed

end
