(* ===== verification/WmlcDecompiler.thy ===== *)
theory WmlcDecompiler
  imports WapResponse
begin

text \<open>
  \<^verbatim>\<open>lib/wap/wmlc_decompiler.cpp\<close>: the token tables, the multi-byte integer, the WBXML header
  and the body decompiler.  Input positions are \<^typ>\<open>nat\<close>, reduced modulo \<open>2 ^ 32\<close> at the two
  places that add a length of the wire.  The output is the list of characters written; the
  string table is the memory from its start to the end of the input, so that a string that
  is not terminated there is an out-of-bounds read (\<^term>\<open>None\<close> in a step).  The body loop
  has fuel, because the code can loop for ever on a wrapped opaque length; the lemmas below
  show when the length of the input is enough fuel.
\<close>

section \<open>Token tables\<close>

definition wml_elements :: "(u8 \<times> bytes) list" where
  "wml_elements =
    [(0x1C, str ''a''), (0x1D, str ''td''), (0x1E, str ''tr''), (0x1F, str ''table''),
     (0x20, str ''p''), (0x21, str ''postfield''), (0x22, str ''anchor''),
     (0x23, str ''access''), (0x24, str ''b''), (0x25, str ''big''), (0x26, str ''br''),
     (0x27, str ''card''), (0x28, str ''do''), (0x29, str ''em''), (0x2A, str ''fieldset''),
     (0x2B, str ''go''), (0x2C, str ''head''), (0x2D, str ''i''), (0x2E, str ''img''),
     (0x2F, str ''input''), (0x30, str ''meta''), (0x31, str ''noop''), (0x32, str ''prev''),
     (0x33, str ''onevent''), (0x34, str ''optgroup''), (0x35, str ''option''),
     (0x36, str ''refresh''), (0x37, str ''select''), (0x38, str ''small''),
     (0x39, str ''strong''), (0x3B, str ''template''), (0x3C, str ''timer''), (0x3D, str ''u''),
     (0x3E, str ''setvar''), (0x3F, str ''wml'')]"

definition wml_attributes :: "(u8 \<times> bytes \<times> bytes option) list" where
  "wml_attributes =
    [(0x05, str ''accept-charset'', None), (0x06, str ''align'', Some (str ''bottom'')),
     (0x07, str ''align'', Some (str ''center'')), (0x08, str ''align'', Some (str ''left'')),
     (0x09, str ''align'', Some (str ''middle'')), (0x0A, str ''align'', Some (str ''right'')),
     (0x0B, str ''align'', Some (str ''top'')), (0x0C, str ''alt'', None),
     (0x0D, str ''content'', None), (0x0F, str ''domain'', None),
     (0x10, str ''emptyok'', Some (str ''false'')), (0x11, str ''emptyok'', Some (str ''true'')),
     (0x12, str ''format'', None), (0x13, str ''height'', None), (0x14, str ''hspace'', None),
     (0x15, str ''ivalue'', None), (0x16, str ''iname'', None), (0x18, str ''label'', None),
     (0x19, str ''localsrc'', None), (0x1A, str ''maxlength'', None),
     (0x1B, str ''method'', Some (str ''get'')), (0x1C, str ''method'', Some (str ''post'')),
     (0x1D, str ''mode'', Some (str ''nowrap'')), (0x1E, str ''mode'', Some (str ''wrap'')),
     (0x1F, str ''multiple'', Some (str ''false'')),
     (0x20, str ''multiple'', Some (str ''true'')), (0x21, str ''name'', None),
     (0x22, str ''newcontext'', Some (str ''false'')),
     (0x23, str ''newcontext'', Some (str ''true'')), (0x24, str ''onpick'', None),
     (0x25, str ''onenterbackward'', None), (0x26, str ''onenterforward'', None),
     (0x27, str ''ontimer'', None), (0x28, str ''optional'', Some (str ''false'')),
     (0x29, str ''optional'', Some (str ''true'')), (0x2A, str ''path'', None),
     (0x2E, str ''scheme'', None), (0x2F, str ''sendreferer'', Some (str ''false'')),
     (0x30, str ''sendreferer'', Some (str ''true'')), (0x31, str ''size'', None),
     (0x32, str ''src'', None), (0x33, str ''ordered'', Some (str ''true'')),
     (0x34, str ''ordered'', Some (str ''false'')), (0x35, str ''tabindex'', None),
     (0x36, str ''title'', None), (0x37, str ''type'', None),
     (0x38, str ''type'', Some (str ''accept'')), (0x39, str ''type'', Some (str ''delete'')),
     (0x3A, str ''type'', Some (str ''help'')), (0x3B, str ''type'', Some (str ''password'')),
     (0x3C, str ''type'', Some (str ''onpick'')),
     (0x3D, str ''type'', Some (str ''onenterbackward'')),
     (0x3E, str ''type'', Some (str ''onenterforward'')),
     (0x3F, str ''type'', Some (str ''ontimer'')), (0x45, str ''type'', Some (str ''options'')),
     (0x46, str ''type'', Some (str ''prev'')), (0x47, str ''type'', Some (str ''reset'')),
     (0x48, str ''type'', Some (str ''text'')), (0x49, str ''type'', Some (str ''vnd.'')),
     (0x4A, str ''href'', None), (0x4B, str ''href'', Some (str ''http://'')),
     (0x4C, str ''href'', Some (str ''https://'')), (0x4D, str ''value'', None),
     (0x4E, str ''vspace'', None), (0x4F, str ''width'', None), (0x50, str ''xml:lang'', None),
     (0x52, str ''align'', None), (0x53, str ''columns'', None), (0x54, str ''class'', None),
     (0x55, str ''id'', None), (0x56, str ''forua'', Some (str ''false'')),
     (0x57, str ''forua'', Some (str ''true'')), (0x58, str ''src'', Some (str ''http://'')),
     (0x59, str ''src'', Some (str ''https://'')), (0x5A, str ''http-equiv'', None),
     (0x5B, str ''http-equiv'', Some (str ''Content-Type'')),
     (0x5C, str ''content'', Some (str ''application/vnd.wap.wmlc;charset='')),
     (0x5D, str ''http-equiv'', Some (str ''Expires'')), (0x5E, str ''accesskey'', None),
     (0x5F, str ''enctype'', None),
     (0x60, str ''enctype'', Some (str ''application/x-www-form-urlencoded'')),
     (0x61, str ''enctype'', Some (str ''multipart/form-data'')),
     (0x62, str ''xml:space'', Some (str ''preserve'')),
     (0x63, str ''xml:space'', Some (str ''default'')),
     (0x64, str ''cache-control'', Some (str ''no-cache''))]"

definition wml_attr_values :: "(u8 \<times> bytes) list" where
  "wml_attr_values =
    [(0x85, str ''.com/''), (0x86, str ''.edu/''), (0x87, str ''.net/''), (0x88, str ''.org/''),
     (0x89, str ''accept''), (0x8A, str ''bottom''), (0x8B, str ''clear''),
     (0x8C, str ''delete''), (0x8D, str ''help''), (0x8E, str ''http://''),
     (0x8F, str ''http://www.''), (0x90, str ''https://''), (0x91, str ''https://www.''),
     (0x93, str ''middle''), (0x94, str ''nowrap''), (0x95, str ''onpick''),
     (0x96, str ''onenterbackward''), (0x97, str ''onenterforward''), (0x98, str ''ontimer''),
     (0x99, str ''options''), (0x9A, str ''password''), (0x9B, str ''reset''),
     (0x9D, str ''text''), (0x9E, str ''top''), (0x9F, str ''unknown''), (0xA0, str ''wrap''),
     (0xA1, str ''www.'')]"

text \<open>The global tokens and the tag bits.\<close>

abbreviation (input) WBXML_SWITCH_PAGE :: u8 where "WBXML_SWITCH_PAGE \<equiv> 0x00"
abbreviation (input) WBXML_END :: u8 where "WBXML_END \<equiv> 0x01"
abbreviation (input) WBXML_ENTITY :: u8 where "WBXML_ENTITY \<equiv> 0x02"
abbreviation (input) WBXML_STR_I :: u8 where "WBXML_STR_I \<equiv> 0x03"
abbreviation (input) WBXML_LITERAL :: u8 where "WBXML_LITERAL \<equiv> 0x04"
abbreviation (input) WBXML_EXT_I_0 :: u8 where "WBXML_EXT_I_0 \<equiv> 0x40"
abbreviation (input) WBXML_EXT_I_1 :: u8 where "WBXML_EXT_I_1 \<equiv> 0x41"
abbreviation (input) WBXML_EXT_I_2 :: u8 where "WBXML_EXT_I_2 \<equiv> 0x42"
abbreviation (input) WBXML_PI :: u8 where "WBXML_PI \<equiv> 0x43"
abbreviation (input) WBXML_LITERAL_C :: u8 where "WBXML_LITERAL_C \<equiv> 0x44"
abbreviation (input) WBXML_EXT_T_0 :: u8 where "WBXML_EXT_T_0 \<equiv> 0x80"
abbreviation (input) WBXML_EXT_T_1 :: u8 where "WBXML_EXT_T_1 \<equiv> 0x81"
abbreviation (input) WBXML_EXT_T_2 :: u8 where "WBXML_EXT_T_2 \<equiv> 0x82"
abbreviation (input) WBXML_STR_T :: u8 where "WBXML_STR_T \<equiv> 0x83"
abbreviation (input) WBXML_LITERAL_A :: u8 where "WBXML_LITERAL_A \<equiv> 0x84"
abbreviation (input) WBXML_OPAQUE :: u8 where "WBXML_OPAQUE \<equiv> 0xC3"
abbreviation (input) WBXML_LITERAL_AC :: u8 where "WBXML_LITERAL_AC \<equiv> 0xC4"
abbreviation (input) TAG_HAS_CONTENT :: u8 where "TAG_HAS_CONTENT \<equiv> 0x40"
abbreviation (input) TAG_HAS_ATTRS :: u8 where "TAG_HAS_ATTRS \<equiv> 0x80"

definition getElementName :: "u8 \<Rightarrow> bytes option" where
  "getElementName token = map_of wml_elements (token AND 0x3F)"

text \<open>The name, and the value stored through the second argument.\<close>

definition getAttributeName :: "u8 \<Rightarrow> (bytes \<times> bytes option) option" where
  "getAttributeName token = map_of wml_attributes token"

definition getAttributeValue :: "u8 \<Rightarrow> bytes option" where
  "getAttributeValue token = map_of wml_attr_values token"

section \<open>Header\<close>

text \<open>\<open>decodeMbUint data old\<close>: the bytes consumed (0 for a failure) and the final \<open>*value\<close>,
  which was \<open>old\<close>; a failing call may have changed it.\<close>

fun decodeMbUint_loop :: "nat \<Rightarrow> u32 \<Rightarrow> bytes \<Rightarrow> nat \<times> u32" where
  "decodeMbUint_loop i v [] = (0, v)"
| "decodeMbUint_loop i v (b # bs) =
     (let v = push_bit 7 v OR ucast (b AND 0x7F) in
      if b AND 0x80 \<noteq> 0 then decodeMbUint_loop (i + 1) v bs else (i + 1, v))"

definition decodeMbUint :: "bytes \<Rightarrow> u32 \<Rightarrow> nat \<times> u32" where
  "decodeMbUint data old = (if data = [] then (0, old) else decodeMbUint_loop 0 0 data)"

definition getVersion :: "bytes option \<Rightarrow> int" where
  "getVersion wmlc =
     (case wmlc of None \<Rightarrow> 0 | Some d \<Rightarrow> if length d < 1 then 0 else int (unat (d ! 0)) + 1)"

text \<open>\<open>uninit\<close> is the content of the uninitialised local.\<close>

definition getPublicId :: "u32 \<Rightarrow> bytes option \<Rightarrow> u32" where
  "getPublicId uninit wmlc =
     (case wmlc of
        None \<Rightarrow> 0
      | Some d \<Rightarrow> if length d < 2 then 0 else snd (decodeMbUint (drop 1 d) uninit))"

text \<open>The string table: memory from \<open>stringTable\<close> on (\<^term>\<open>None\<close> for a null pointer) and
  \<open>stringTableLen\<close>.\<close>

type_synonym strtab = "bytes option \<times> u32"

text \<open>The public id, the position of the body, and the string table.\<close>

definition parse_header :: "u32 \<Rightarrow> bytes \<Rightarrow> (u32 \<times> nat \<times> strtab) option" where
  "parse_header uninit d =
     (let (consumed, publicId) = decodeMbUint (drop 1 d) uninit in
      if consumed = 0 then None
      else
        let pos = 1 + consumed;
            (consumed, publicId) =
              (if publicId = 0 \<and> pos < length d then decodeMbUint (drop pos d) publicId
               else (0, publicId));
            pos = pos + consumed;
            (consumed, charset) = decodeMbUint (drop pos d) 0
        in if consumed = 0 then None
           else
             let pos = pos + consumed;
                 (consumed, stringTableLen) = decodeMbUint (drop pos d) 0
             in if consumed = 0 then None
                else
                  let pos = pos + consumed in
                  if 0 < stringTableLen then
                    (if of_nat (length d) < of_nat pos + stringTableLen then None
                     else Some (publicId, unat (of_nat pos + stringTableLen),
                                (Some (drop pos d), stringTableLen)))
                  else Some (publicId, pos, (None, stringTableLen)))"

section \<open>Body\<close>

text \<open>\<open>appendStr\<close> and \<open>appendChar\<close>: a string that does not fit is dropped whole.\<close>

definition append_str :: "nat \<Rightarrow> bytes \<Rightarrow> bytes \<Rightarrow> bytes" where
  "append_str outputSize s out = (if length out + length s < outputSize then out @ s else out)"

definition append_char :: "nat \<Rightarrow> u8 \<Rightarrow> bytes \<Rightarrow> bytes" where
  "append_char outputSize c out = (if length out + 1 < outputSize then out @ [c] else out)"

text \<open>\<open>while (pos < len && data[pos] != 0) appendChar((char)data[pos++]); if (pos < len) pos++\<close>\<close>

definition inline_string :: "nat \<Rightarrow> bytes \<Rightarrow> nat \<Rightarrow> bytes \<Rightarrow> nat \<times> bytes" where
  "inline_string outputSize data pos out =
     (let s = takeWhile (\<lambda>c. c \<noteq> 0) (drop pos data);
          pos = pos + length s
      in (if pos < length data then pos + 1 else pos, fold (append_char outputSize) s out))"

text \<open>The string at an offset of the table, if the offset is inside it; its \<open>strlen\<close> runs to
  the next NUL, wherever that is.\<close>

definition table_string :: "strtab \<Rightarrow> u32 \<Rightarrow> bytes option option" where
  "table_string tab offset =
     (case tab of
        (Some mem, len) \<Rightarrow>
          if offset < len then
            (if c_terminated (drop (unat offset) mem) then Some (Some (c_str (drop (unat offset) mem)))
             else None)
          else Some None
      | (None, len) \<Rightarrow> Some None)"

definition append_table :: "nat \<Rightarrow> strtab \<Rightarrow> u32 \<Rightarrow> bytes \<Rightarrow> bytes option" where
  "append_table outputSize tab offset out =
     (case table_string tab offset of
        None \<Rightarrow> None
      | Some None \<Rightarrow> Some out
      | Some (Some s) \<Rightarrow> Some (append_str outputSize s out))"

text \<open>The escape suffix of a variable and its closing parenthesis; \<open>k\<close> is the number of the
  extension token.\<close>

definition close_var :: "nat \<Rightarrow> u8 \<Rightarrow> bytes \<Rightarrow> bytes" where
  "close_var outputSize k out =
     append_char outputSize 41
       (if k = 1 then append_str outputSize (str '':e'') out
        else if k = 2 then append_str outputSize (str '':u'') out
        else out)"

text \<open>The pieces of text that the body and the attributes share: an inline string, a table
  string, and the two forms of a variable, each after its token.\<close>

definition text_inline :: "nat \<Rightarrow> bytes \<Rightarrow> nat \<times> bytes \<Rightarrow> (nat \<times> bytes) option" where
  "text_inline outputSize data s = (case s of (pos, out) \<Rightarrow> Some (inline_string outputSize data pos out))"

definition text_table :: "nat \<Rightarrow> strtab \<Rightarrow> bytes \<Rightarrow> nat \<times> bytes \<Rightarrow> (nat \<times> bytes) option" where
  "text_table outputSize tab data s =
     (case s of (pos, out) \<Rightarrow>
        (let (consumed, offset) = decodeMbUint (drop pos data) 0 in
         if 0 < consumed then map_option (Pair (pos + consumed)) (append_table outputSize tab offset out)
         else Some (pos, out)))"

definition var_inline :: "nat \<Rightarrow> bytes \<Rightarrow> u8 \<Rightarrow> nat \<times> bytes \<Rightarrow> (nat \<times> bytes) option" where
  "var_inline outputSize data k s =
     (case s of (pos, out) \<Rightarrow>
        (let (pos, out) = inline_string outputSize data pos (append_str outputSize (str ''$('') out)
         in Some (pos, close_var outputSize k out)))"

definition var_table :: "nat \<Rightarrow> strtab \<Rightarrow> bytes \<Rightarrow> u8 \<Rightarrow> nat \<times> bytes \<Rightarrow> (nat \<times> bytes) option" where
  "var_table outputSize tab data k s =
     (case s of (pos, out) \<Rightarrow>
        (let (consumed, offset) = decodeMbUint (drop pos data) 0 in
         if 0 < consumed then
           map_option (\<lambda>out. (pos + consumed, close_var outputSize k out))
             (append_table outputSize tab offset (append_str outputSize (str ''$('') out))
         else Some (pos, out)))"

subsection \<open>Attributes\<close>

text \<open>The continuation of an attribute value.\<close>

definition value_token :: "nat \<Rightarrow> strtab \<Rightarrow> bytes \<Rightarrow> nat \<times> bytes \<Rightarrow> (nat \<times> bytes) option" where
  "value_token outputSize tab data s =
     (case s of (pos, out) \<Rightarrow>
        (let valToken = data ! pos in
         if valToken = WBXML_STR_I then text_inline outputSize data (pos + 1, out)
         else if valToken = WBXML_STR_T then text_table outputSize tab data (pos + 1, out)
         else if WBXML_EXT_I_0 \<le> valToken \<and> valToken \<le> WBXML_EXT_I_2 then
           var_inline outputSize data (valToken - WBXML_EXT_I_0) (pos + 1, out)
         else if WBXML_EXT_T_0 \<le> valToken \<and> valToken \<le> WBXML_EXT_T_2 then
           var_table outputSize tab data (valToken - WBXML_EXT_T_0) (pos + 1, out)
         else if 0x80 \<le> valToken then
           (case getAttributeValue valToken of
              Some v \<Rightarrow> Some (pos + 1, append_str outputSize v out)
            | None \<Rightarrow> Some (pos + 1, out))
         else Some (pos + 1, out)))"

lemma inline_string_progress: "pos \<le> fst (inline_string n data pos out)"
  by (simp add: inline_string_def Let_def)

lemma text_inline_progress: "text_inline n data s = Some s' \<Longrightarrow> fst s \<le> fst s'"
  using inline_string_progress by (auto simp: text_inline_def split: prod.splits)

lemma text_table_progress: "text_table n tab data s = Some s' \<Longrightarrow> fst s \<le> fst s'"
  by (auto simp: text_table_def split: prod.splits if_splits)

lemma var_inline_progress: "var_inline n data k s = Some s' \<Longrightarrow> fst s \<le> fst s'"
  using inline_string_progress [of _ n data]
  by (auto simp: var_inline_def split: prod.splits) (metis fst_conv)

lemma var_table_progress: "var_table n tab data k s = Some s' \<Longrightarrow> fst s \<le> fst s'"
  by (auto simp: var_table_def split: prod.splits if_splits)

lemmas text_progress = text_inline_progress text_table_progress var_inline_progress var_table_progress

lemma value_token_progress: "value_token n tab data (pos, out) = Some s' \<Longrightarrow> pos < fst s'"
  by (auto simp: value_token_def Let_def dest!: text_progress split: if_splits option.splits)

text \<open>\<open>valToken == WBXML_END || (valToken < 0x80 && valToken >= 0x05)\<close> ends the value.\<close>

definition value_ends :: "u8 \<Rightarrow> bool" where
  "value_ends valToken \<longleftrightarrow> valToken = WBXML_END \<or> (valToken < 0x80 \<and> 0x05 \<le> valToken)"

function attr_value_loop :: "nat \<Rightarrow> strtab \<Rightarrow> bytes \<Rightarrow> nat \<times> bytes \<Rightarrow> (nat \<times> bytes) option" where
  "attr_value_loop outputSize tab data s =
     (if fst s < length data \<and> \<not> value_ends (data ! fst s) then
        (case value_token outputSize tab data s of
           None \<Rightarrow> None
         | Some s \<Rightarrow> attr_value_loop outputSize tab data s)
      else Some s)"
  by pat_completeness auto

termination attr_value_loop
  by (relation "measure (\<lambda>(n, tab, data, s). length data - fst s)")
    (auto dest!: value_token_progress)

declare attr_value_loop.simps [simp del]

lemma attr_value_loop_progress: "attr_value_loop n tab data s = Some s' \<Longrightarrow> fst s \<le> fst s'"
proof (induction n tab data s rule: attr_value_loop.induct)
  case (1 n tab data s)
  show ?case
  proof (cases "fst s < length data \<and> \<not> value_ends (data ! fst s)")
    case True
    then obtain s1 where s1: "value_token n tab data s = Some s1" "attr_value_loop n tab data s1 = Some s'"
      using 1(2) by (subst (asm) attr_value_loop.simps) (auto split: option.splits)
    have "fst s < fst s1" using value_token_progress [of n tab data "fst s" "snd s"] s1(1) by simp
    with 1(1) [OF True s1] show ?thesis by simp
  next
    case False
    with 1(2) show ?thesis by (subst (asm) attr_value_loop.simps) (auto split: if_splits)
  qed
qed

text \<open>One round of the attribute loop, at a position inside the data whose byte is not END.\<close>

definition attr_token :: "nat \<Rightarrow> strtab \<Rightarrow> bytes \<Rightarrow> nat \<times> bytes \<Rightarrow> (nat \<times> bytes) option" where
  "attr_token outputSize tab data s =
     (case s of (pos, out) \<Rightarrow>
        (let attrToken = data ! pos in
         if attrToken = WBXML_STR_I then text_inline outputSize data (pos + 1, out)
         else if attrToken = WBXML_STR_T then text_table outputSize tab data (pos + 1, out)
         else if 0x80 \<le> attrToken then
           (case getAttributeValue attrToken of
              Some v \<Rightarrow> Some (pos + 1, append_str outputSize v out)
            | None \<Rightarrow> Some (pos + 1, out))
         else
           (case getAttributeName attrToken of
              None \<Rightarrow> Some (pos + 1, out)
            | Some (attrName, attrValuePrefix) \<Rightarrow>
                let out = append_char outputSize 32 out;
                    out = append_str outputSize attrName out;
                    out = append_str outputSize [61, 34] out;
                    out = (case attrValuePrefix of
                             None \<Rightarrow> out
                           | Some v \<Rightarrow> append_str outputSize v out)
                in map_option (\<lambda>(pos, out). (pos, append_char outputSize 34 out))
                     (attr_value_loop outputSize tab data (pos + 1, out)))))"

lemma attr_token_progress: "attr_token n tab data (pos, out) = Some s' \<Longrightarrow> pos < fst s'"
  by (auto simp: attr_token_def Let_def dest!: text_progress attr_value_loop_progress
      split: if_splits option.splits)

function attr_loop :: "nat \<Rightarrow> strtab \<Rightarrow> bytes \<Rightarrow> nat \<times> bytes \<Rightarrow> (nat \<times> bytes) option" where
  "attr_loop outputSize tab data s =
     (if fst s < length data then
        (if data ! fst s = WBXML_END then Some (fst s + 1, snd s)
         else
           (case attr_token outputSize tab data s of
              None \<Rightarrow> None
            | Some s \<Rightarrow> attr_loop outputSize tab data s))
      else Some s)"
  by pat_completeness auto

termination attr_loop
  by (relation "measure (\<lambda>(n, tab, data, s). length data - fst s)")
    (auto dest!: attr_token_progress)

declare attr_loop.simps [simp del]

lemma attr_loop_progress: "attr_loop n tab data s = Some s' \<Longrightarrow> fst s \<le> fst s'"
proof (induction n tab data s rule: attr_loop.induct)
  case (1 n tab data s)
  show ?case
  proof (cases "fst s < length data \<and> data ! fst s \<noteq> WBXML_END")
    case True
    then obtain s1 where s1: "attr_token n tab data s = Some s1" "attr_loop n tab data s1 = Some s'"
      using 1(2) by (subst (asm) attr_loop.simps) (auto split: option.splits)
    have "fst s < fst s1" using attr_token_progress [of n tab data "fst s" "snd s"] s1(1) by simp
    with 1(1) [of s1] True s1 show ?thesis by simp
  next
    case False
    with 1(2) show ?thesis by (subst (asm) attr_loop.simps) (auto split: if_splits)
  qed
qed

subsection \<open>The token loop\<close>

text \<open>Input position, output, and the stack of open elements, innermost first.\<close>

type_synonym dstate = "nat \<times> bytes \<times> bytes list"

definition end_tag :: "nat \<Rightarrow> bytes \<Rightarrow> bytes \<Rightarrow> bytes" where
  "end_tag outputSize name out =
     append_char outputSize 62 (append_str outputSize name (append_str outputSize [60, 47] out))"

definition start_tag :: "nat \<Rightarrow> bytes \<Rightarrow> bytes \<Rightarrow> bytes" where
  "start_tag outputSize name out = append_str outputSize name (append_char outputSize 60 out)"

text \<open>The end of a start tag: \<open>>\<close> and a push for an element with content, \<open>/>\<close> otherwise.\<close>

definition open_element :: "nat \<Rightarrow> bool \<Rightarrow> bytes \<Rightarrow> bytes list \<Rightarrow> nat \<times> bytes \<Rightarrow> dstate" where
  "open_element outputSize hasContent name stack s =
     (if hasContent then
        (fst s, append_char outputSize 62 (snd s), if length stack < 32 then name # stack else stack)
      else (fst s, append_str outputSize [47, 62] (snd s), stack))"

text \<open>The attributes of a literal element are skipped up to the next END byte.\<close>

definition skip_attrs :: "bytes \<Rightarrow> nat \<Rightarrow> nat" where
  "skip_attrs data pos =
     (let pos = pos + length (takeWhile (\<lambda>c. c \<noteq> WBXML_END) (drop pos data)) in
      if pos < length data then pos + 1 else pos)"

definition entity_step :: "nat \<Rightarrow> bytes \<Rightarrow> nat \<times> bytes \<Rightarrow> (nat \<times> bytes) option" where
  "entity_step outputSize data s =
     (case s of (pos, out) \<Rightarrow>
        (let (consumed, entity) = decodeMbUint (drop pos data) 0 in
         if 0 < consumed then
           Some (pos + consumed,
                 append_str outputSize ([38, 35] @ fmt_nat (unat entity) @ [59]) out)
         else Some (pos, out)))"

definition opaque_step :: "bytes \<Rightarrow> nat \<times> bytes \<Rightarrow> (nat \<times> bytes) option" where
  "opaque_step data s =
     (case s of (pos, out) \<Rightarrow>
        (let (consumed, opaqueLen) = decodeMbUint (drop pos data) 0 in
         if 0 < consumed then Some (unat (of_nat (pos + consumed) + opaqueLen), out)
         else Some (pos, out)))"

definition literal_step :: "nat \<Rightarrow> strtab \<Rightarrow> bytes \<Rightarrow> u8 \<Rightarrow> dstate \<Rightarrow> dstate option" where
  "literal_step outputSize tab data token s =
     (case s of (pos, out, stack) \<Rightarrow>
        (let (consumed, offset) = decodeMbUint (drop pos data) 0 in
         if 0 < consumed then
           (case table_string tab offset of
              None \<Rightarrow> None
            | Some name \<Rightarrow>
                let elemName = (case name of None \<Rightarrow> str ''unknown'' | Some n \<Rightarrow> n);
                    hasAttrs = (token = WBXML_LITERAL_A \<or> token = WBXML_LITERAL_AC);
                    hasContent = (token = WBXML_LITERAL_C \<or> token = WBXML_LITERAL_AC);
                    pos = pos + consumed;
                    pos = (if hasAttrs then skip_attrs data pos else pos)
                in Some (open_element outputSize hasContent elemName stack
                           (pos, start_tag outputSize elemName out)))
         else Some (pos, out, stack)))"

definition element_step :: "nat \<Rightarrow> strtab \<Rightarrow> bytes \<Rightarrow> u8 \<Rightarrow> dstate \<Rightarrow> dstate option" where
  "element_step outputSize tab data token s =
     (case s of (pos, out, stack) \<Rightarrow>
        (case getElementName (token AND 0x3F) of
           None \<Rightarrow> Some (pos, out, stack)
         | Some elemName \<Rightarrow>
             let hasAttrs = (token AND TAG_HAS_ATTRS \<noteq> 0);
                 hasContent = (token AND TAG_HAS_CONTENT \<noteq> 0);
                 s = (pos, start_tag outputSize elemName out)
             in map_option (open_element outputSize hasContent elemName stack)
                  (if hasAttrs then attr_loop outputSize tab data s else Some s)))"

text \<open>One round of the \<open>while (pos < len)\<close> loop.\<close>

definition body_step :: "nat \<Rightarrow> strtab \<Rightarrow> bytes \<Rightarrow> dstate \<Rightarrow> dstate option" where
  "body_step outputSize tab data s =
     (case s of (pos, out, stack) \<Rightarrow>
        (let token = data ! pos; pos = pos + 1;
             text = (\<lambda>r. map_option (\<lambda>(pos, out). (pos, out, stack)) r)
         in
          if token = WBXML_SWITCH_PAGE then
            Some (if pos < length data then pos + 1 else pos, out, stack)
          else if token = WBXML_END then
            (case stack of
               [] \<Rightarrow> Some (pos, out, [])
             | name # stack \<Rightarrow> Some (pos, end_tag outputSize name out, stack))
          else if token = WBXML_ENTITY then text (entity_step outputSize data (pos, out))
          else if token = WBXML_STR_I then text (text_inline outputSize data (pos, out))
          else if token = WBXML_STR_T then text (text_table outputSize tab data (pos, out))
          else if token = WBXML_EXT_I_0 \<or> token = WBXML_EXT_I_1 \<or> token = WBXML_EXT_I_2 then
            text (var_inline outputSize data (token - WBXML_EXT_I_0) (pos, out))
          else if token = WBXML_EXT_T_0 \<or> token = WBXML_EXT_T_1 \<or> token = WBXML_EXT_T_2 then
            text (var_table outputSize tab data (token - WBXML_EXT_T_0) (pos, out))
          else if token = WBXML_OPAQUE then text (opaque_step data (pos, out))
          else if token = WBXML_PI then Some (pos, out, stack)
          else if token = WBXML_LITERAL \<or> token = WBXML_LITERAL_A \<or> token = WBXML_LITERAL_C
              \<or> token = WBXML_LITERAL_AC then
            literal_step outputSize tab data token (pos, out, stack)
          else if 0x05 \<le> token then element_step outputSize tab data token (pos, out, stack)
          else Some (pos, out, stack)))"

datatype fault = Out_of_bounds | Out_of_fuel

fun body_loop :: "nat \<Rightarrow> nat \<Rightarrow> strtab \<Rightarrow> bytes \<Rightarrow> dstate \<Rightarrow> fault + dstate" where
  "body_loop fuel outputSize tab data s =
     (if fst s < length data then
        (case fuel of
           0 \<Rightarrow> Inl Out_of_fuel
         | Suc fuel \<Rightarrow>
             (case body_step outputSize tab data s of
                None \<Rightarrow> Inl Out_of_bounds
              | Some s \<Rightarrow> body_loop fuel outputSize tab data s))
      else Inr s)"

declare body_loop.simps [simp del]

text \<open>Closing the remaining elements, and the terminator: at the end of the output, or over its
  last byte.\<close>

definition close_all :: "nat \<Rightarrow> bytes list \<Rightarrow> bytes \<Rightarrow> bytes" where
  "close_all outputSize stack out = fold (end_tag outputSize) stack out"

definition terminate :: "nat \<Rightarrow> bytes \<Rightarrow> bytes" where
  "terminate outputSize out =
     (if length out < outputSize then out @ [0]
      else if 0 < outputSize then out[outputSize - 1 := 0]
      else out)"

text \<open>The return value and the buffer.\<close>

definition decompileBody ::
  "nat \<Rightarrow> bytes option \<Rightarrow> strtab \<Rightarrow> bool \<Rightarrow> nat \<Rightarrow> fault + (nat \<times> bytes)" where
  "decompileBody fuel data tab output_null outputSize =
     (case data of
        None \<Rightarrow> Inr (0, [])
      | Some d \<Rightarrow>
          if output_null \<or> d = [] then Inr (0, [])
          else
            (case body_loop fuel outputSize tab d (0, [], []) of
               Inl f \<Rightarrow> Inl f
             | Inr (pos, out, stack) \<Rightarrow>
                 let out = close_all outputSize stack out
                 in Inr (length out, terminate outputSize out)))"

section \<open>The decompiler\<close>

definition xml_decl :: bytes where
  "xml_decl = str ''<?xml version='' @ [34] @ str ''1.0'' @ [34] @ str ''?>'' @ [10]"

definition doctype :: "string \<Rightarrow> string \<Rightarrow> bytes" where
  "doctype version dtd =
     str ''<!DOCTYPE wml PUBLIC '' @ [34] @ str ''-//WAPFORUM//DTD WML '' @ str version @ str ''//EN'' @ [34] @
     [32, 34] @ str ''http://www.wapforum.org/DTD/'' @ str dtd @ [34] @ str ''>'' @ [10]"

definition prologue :: "nat \<Rightarrow> u32 \<Rightarrow> bytes" where
  "prologue outputSize publicId =
     (let out = append_str outputSize xml_decl [] in
      if publicId = 0x04 then append_str outputSize (doctype ''1.1'' ''wml_1.1.xml'') out
      else if publicId = 0x09 then append_str outputSize (doctype ''1.2'' ''wml12.dtd'') out
      else if publicId = 0x0A then append_str outputSize (doctype ''1.3'' ''wml13.dtd'') out
      else out)"

definition decompile ::
  "nat \<Rightarrow> u32 \<Rightarrow> bytes option \<Rightarrow> bool \<Rightarrow> nat \<Rightarrow> fault + (nat \<times> bytes)" where
  "decompile fuel uninit wmlc output_null outputSize =
     (case wmlc of
        None \<Rightarrow> Inr (0, if \<not> output_null \<and> 0 < outputSize then [0] else [])
      | Some d \<Rightarrow>
          if output_null \<or> length d < 4 \<or> outputSize < 100 then
            Inr (0, if \<not> output_null \<and> 0 < outputSize then [0] else [])
          else
            (case parse_header uninit d of
               None \<Rightarrow> Inr (0, [0])
             | Some (publicId, pos, tab) \<Rightarrow>
                 let out = prologue outputSize publicId in
                 if pos < length d then
                   (case decompileBody fuel (Some (drop pos d)) tab False (outputSize - length out) of
                      Inl f \<Rightarrow> Inl f
                    | Inr (n, buf) \<Rightarrow>
                        let out = out @ take n buf in Inr (length out, terminate outputSize out))
                 else Inr (length out, terminate outputSize out)))"

section \<open>Integers\<close>

lemma decodeMbUint_loop_uintvar:
  "decodeUintvar_loop i v ds = Some (k, w) \<Longrightarrow> decodeMbUint_loop i v ds = (k, w)"
  by (induction i v ds rule: decodeUintvar_loop.induct) (auto simp: Let_def split: if_splits)

lemma decodeMbUint_loop_consumed:
  "decodeMbUint_loop i v ds = (k, w) \<Longrightarrow> k \<le> i + length ds"
  by (induction i v ds rule: decodeMbUint_loop.induct) (auto simp: Let_def split: if_splits)

lemma decodeMbUint_consumed: "decodeMbUint ds old = (k, v) \<Longrightarrow> k \<le> length ds"
  by (auto simp: decodeMbUint_def split: if_splits dest: decodeMbUint_loop_consumed)

lemma decodeMbUint_uintvar [simp]: "decodeMbUint (uintvar v @ ds) old = (length (uintvar v), v)"
proof -
  have "decodeUintvar_loop 0 0 (uintvar v @ ds) = Some (length (uintvar v), v)"
    using decode_uintvar [of v ds] by (simp add: decodeUintvar_def length_uintvar)
  then show ?thesis
    by (simp add: decodeMbUint_def length_uintvar decodeMbUint_loop_uintvar)
qed

definition read_MbUint :: "bytes \<Rightarrow> (nat \<times> u32) option" where
  "read_MbUint ds = (let r = decodeMbUint ds 0 in if fst r = 0 then None else Some r)"

interpretation mb: prefix_codec uintvar read_MbUint
  by unfold_locales
    (auto simp: read_MbUint_def length_uintvar Let_def split: if_splits dest: decodeMbUint_consumed)

section \<open>The output stays inside the buffer\<close>

definition out_ok :: "nat \<Rightarrow> bytes \<Rightarrow> bool" where
  "out_ok outputSize out \<longleftrightarrow> length out \<le> outputSize - 1"

lemma out_ok_Nil [simp, intro]: "out_ok n []"
  by (simp add: out_ok_def)

lemma out_ok_append_str [simp, intro]: "out_ok n out \<Longrightarrow> out_ok n (append_str n s out)"
  by (auto simp: out_ok_def append_str_def)

lemma out_ok_append_char [simp, intro]: "out_ok n out \<Longrightarrow> out_ok n (append_char n c out)"
  by (auto simp: out_ok_def append_char_def)

lemma out_ok_chars: "out_ok n out \<Longrightarrow> out_ok n (fold (append_char n) s out)"
  by (induction s arbitrary: out) auto

lemma out_ok_inline [simp, intro]: "out_ok n out \<Longrightarrow> out_ok n (snd (inline_string n data pos out))"
  by (simp add: inline_string_def Let_def out_ok_chars)

lemma out_ok_table: "append_table n tab offset out = Some out' \<Longrightarrow> out_ok n out \<Longrightarrow> out_ok n out'"
  by (auto simp: append_table_def split: option.splits)

lemma out_ok_close_var [simp, intro]: "out_ok n out \<Longrightarrow> out_ok n (close_var n k out)"
  by (auto simp: close_var_def)

lemma out_ok_text_inline: "text_inline n data s = Some s' \<Longrightarrow> out_ok n (snd s) \<Longrightarrow> out_ok n (snd s')"
  by (auto simp: text_inline_def split: prod.splits)

lemma out_ok_text_table: "text_table n tab data s = Some s' \<Longrightarrow> out_ok n (snd s) \<Longrightarrow> out_ok n (snd s')"
  by (auto simp: text_table_def split: prod.splits if_splits dest: out_ok_table)

lemma out_ok_var_inline: "var_inline n data k s = Some s' \<Longrightarrow> out_ok n (snd s) \<Longrightarrow> out_ok n (snd s')"
  by (auto simp: var_inline_def split: prod.splits)
    (metis out_ok_append_str out_ok_close_var out_ok_inline snd_conv)

lemma out_ok_var_table: "var_table n tab data k s = Some s' \<Longrightarrow> out_ok n (snd s) \<Longrightarrow> out_ok n (snd s')"
  by (auto simp: var_table_def split: prod.splits if_splits dest!: out_ok_table)

lemmas out_ok_text = out_ok_text_inline out_ok_text_table out_ok_var_inline out_ok_var_table

lemma out_ok_value_token:
  "value_token n tab data s = Some s' \<Longrightarrow> out_ok n (snd s) \<Longrightarrow> out_ok n (snd s')"
  by (cases s) (auto simp: value_token_def Let_def dest: out_ok_text split: if_splits option.splits)

lemma out_ok_attr_value_loop:
  "attr_value_loop n tab data s = Some s' \<Longrightarrow> out_ok n (snd s) \<Longrightarrow> out_ok n (snd s')"
proof (induction n tab data s rule: attr_value_loop.induct)
  case (1 n tab data s)
  show ?case
  proof (cases "fst s < length data \<and> \<not> value_ends (data ! fst s)")
    case True
    then obtain s1 where s1: "value_token n tab data s = Some s1" "attr_value_loop n tab data s1 = Some s'"
      using 1(2) by (subst (asm) attr_value_loop.simps) (auto split: option.splits)
    with 1(1) [OF True s1] 1(3) out_ok_value_token show ?thesis by blast
  next
    case False
    with 1(2,3) show ?thesis by (subst (asm) attr_value_loop.simps) (auto split: if_splits)
  qed
qed

lemma out_ok_attr_token:
  "attr_token n tab data s = Some s' \<Longrightarrow> out_ok n (snd s) \<Longrightarrow> out_ok n (snd s')"
  by (cases s) (auto simp: attr_token_def Let_def dest!: out_ok_text out_ok_attr_value_loop
      split: if_splits option.splits)

lemma out_ok_attr_loop:
  "attr_loop n tab data s = Some s' \<Longrightarrow> out_ok n (snd s) \<Longrightarrow> out_ok n (snd s')"
proof (induction n tab data s rule: attr_loop.induct)
  case (1 n tab data s)
  show ?case
  proof (cases "fst s < length data \<and> data ! fst s \<noteq> WBXML_END")
    case True
    then obtain s1 where s1: "attr_token n tab data s = Some s1" "attr_loop n tab data s1 = Some s'"
      using 1(2) by (subst (asm) attr_loop.simps) (auto split: option.splits)
    with 1(1) [of s1] True 1(3) out_ok_attr_token show ?thesis by blast
  next
    case False
    with 1(2,3) show ?thesis by (subst (asm) attr_loop.simps) (auto split: if_splits)
  qed
qed

lemma out_ok_tags [simp, intro]:
  "out_ok n out \<Longrightarrow> out_ok n (end_tag n name out)"
  "out_ok n out \<Longrightarrow> out_ok n (start_tag n name out)"
  "out_ok n (snd s) \<Longrightarrow> out_ok n (fst (snd (open_element n b name stack s)))"
  by (auto simp: end_tag_def start_tag_def open_element_def)

lemma out_ok_element_step:
  "element_step n tab data token s = Some s' \<Longrightarrow> out_ok n (fst (snd s)) \<Longrightarrow> out_ok n (fst (snd s'))"
  by (cases s) (auto simp: element_step_def Let_def dest!: out_ok_attr_loop split: option.splits if_splits)

lemma out_ok_literal_step:
  "literal_step n tab data token s = Some s' \<Longrightarrow> out_ok n (fst (snd s)) \<Longrightarrow> out_ok n (fst (snd s'))"
  by (cases s) (auto simp: literal_step_def Let_def split: option.splits if_splits prod.splits)

lemma out_ok_entity_opaque:
  "entity_step n data s = Some s' \<Longrightarrow> out_ok n (snd s) \<Longrightarrow> out_ok n (snd s')"
  "opaque_step data s = Some s' \<Longrightarrow> out_ok n (snd s) \<Longrightarrow> out_ok n (snd s')"
  by (auto simp: entity_step_def opaque_step_def split: prod.splits if_splits)

lemma out_ok_body_step:
  assumes "body_step n tab data s = Some s'" "out_ok n (fst (snd s))"
  shows "out_ok n (fst (snd s'))"
proof -
  obtain pos out stack where s: "s = (pos, out, stack)" by (cases s) auto
  show ?thesis
    using assms unfolding s body_step_def Let_def
    by (auto dest: out_ok_text out_ok_element_step out_ok_literal_step out_ok_entity_opaque
        split: if_splits list.splits)
qed

lemma out_ok_body_loop:
  "body_loop f n tab data s = Inr s' \<Longrightarrow> out_ok n (fst (snd s)) \<Longrightarrow> out_ok n (fst (snd s'))"
proof (induction f n tab data s rule: body_loop.induct)
  case (1 f n tab data s)
  show ?case
  proof (cases "fst s < length data")
    case True
    then obtain f' s1 where s1: "f = Suc f'" "body_step n tab data s = Some s1"
        "body_loop f' n tab data s1 = Inr s'"
      using 1(2) by (subst (asm) body_loop.simps) (auto split: nat.splits option.splits)
    with 1(1) [OF True s1] 1(3) out_ok_body_step show ?thesis by blast
  next
    case False
    with 1(2,3) show ?thesis by (subst (asm) body_loop.simps) (auto split: if_splits)
  qed
qed

section \<open>No read outside the input\<close>

text \<open>A string table is closed when its last byte is NUL (an empty table is never read).\<close>

definition tab_closed :: "strtab \<Rightarrow> bool" where
  "tab_closed tab =
     (case tab of
        (None, len) \<Rightarrow> True
      | (Some mem, len) \<Rightarrow> 0 < len \<longrightarrow> unat len \<le> length mem \<and> mem ! (unat len - 1) = 0)"

lemma table_string_closed:
  assumes "tab_closed tab"
  shows "table_string tab offset \<noteq> None"
proof (cases "fst tab")
  case None
  then show ?thesis by (cases tab) (auto simp: table_string_def)
next
  case (Some mem)
  then obtain len where tab: "tab = (Some mem, len)" by (cases tab) auto
  show ?thesis
  proof (cases "offset < len")
    case True
    then have "unat offset < unat len" "0 < len"
      by (auto simp: word_less_nat_alt)
    with assms tab have mem: "unat len \<le> length mem" "mem ! (unat len - 1) = 0" "unat offset \<le> unat len - 1"
      by (auto simp: tab_closed_def)
    then have "unat len - 1 < length mem"
      using \<open>unat offset < unat len\<close> by linarith
    moreover obtain d where d: "unat len - 1 = unat offset + d"
      using mem(3) le_Suc_ex by blast
    ultimately have "drop (unat offset) mem ! d = mem ! (unat len - 1)" "d < length (drop (unat offset) mem)"
      by simp_all
    then have "mem ! (unat len - 1) \<in> set (drop (unat offset) mem)"
      by (metis nth_mem)
    then have "c_terminated (drop (unat offset) mem)"
      using mem(2) by (auto simp: c_terminated_def list_ex_iff)
    with True show ?thesis by (auto simp: table_string_def tab)
  qed (auto simp: table_string_def tab)
qed

lemma append_table_closed: "tab_closed tab \<Longrightarrow> append_table n tab offset out \<noteq> None"
  using table_string_closed [of tab offset] by (auto simp: append_table_def split: option.splits)

lemma text_closed:
  "tab_closed tab \<Longrightarrow> text_inline n data s \<noteq> None"
  "tab_closed tab \<Longrightarrow> text_table n tab data s \<noteq> None"
  "tab_closed tab \<Longrightarrow> var_inline n data k s \<noteq> None"
  "tab_closed tab \<Longrightarrow> var_table n tab data k s \<noteq> None"
  using append_table_closed [of tab n]
  by (auto simp: text_inline_def text_table_def var_inline_def var_table_def split: prod.splits)

lemma value_token_closed: "tab_closed tab \<Longrightarrow> value_token n tab data s \<noteq> None"
  using text_closed [of tab] by (auto simp: value_token_def Let_def split: prod.splits option.splits)

lemma attr_value_loop_closed: "tab_closed tab \<Longrightarrow> attr_value_loop n tab data s \<noteq> None"
proof (induction n tab data s rule: attr_value_loop.induct)
  case (1 n tab data s)
  then show ?case
    using value_token_closed [of tab n data s]
    by (subst attr_value_loop.simps) (auto split: option.splits)
qed

lemma attr_token_closed: "tab_closed tab \<Longrightarrow> attr_token n tab data s \<noteq> None"
  using text_closed [of tab] attr_value_loop_closed [of tab n data]
  by (auto simp: attr_token_def Let_def split: prod.splits option.splits)

lemma attr_loop_closed: "tab_closed tab \<Longrightarrow> attr_loop n tab data s \<noteq> None"
proof (induction n tab data s rule: attr_loop.induct)
  case (1 n tab data s)
  then show ?case
    using attr_token_closed [of tab n data s]
    by (subst attr_loop.simps) (auto split: option.splits)
qed

lemma step_parts_closed:
  "tab_closed tab \<Longrightarrow> element_step n tab data token s \<noteq> None"
  "tab_closed tab \<Longrightarrow> literal_step n tab data token s \<noteq> None"
  "tab_closed tab \<Longrightarrow> entity_step n data s2 \<noteq> None"
  "tab_closed tab \<Longrightarrow> opaque_step data s2 \<noteq> None"
  using table_string_closed [of tab] attr_loop_closed [of tab n data]
  by (auto simp: element_step_def literal_step_def entity_step_def opaque_step_def Let_def
      simp del: not_None_eq split: prod.splits option.splits)

lemma body_step_closed: "tab_closed tab \<Longrightarrow> body_step n tab data s \<noteq> None"
  using text_closed [of tab] step_parts_closed [of tab]
  by (auto simp: body_step_def Let_def split: prod.splits list.splits)

section \<open>Termination\<close>

text \<open>No opaque length, read at an OPAQUE byte, wraps around.\<close>

definition opaque_fits :: "bytes \<Rightarrow> bool" where
  "opaque_fits data \<longleftrightarrow>
     (\<forall>p < length data. data ! p = 0xC3 \<longrightarrow>
        (case decodeMbUint (drop (p + 1) data) 0 of (k, v) \<Rightarrow> p + 1 + k + unat v < 2 ^ 32))"

lemma open_element_pos: "fst (open_element n b name stack s) = fst s"
  by (simp add: open_element_def)

lemma opaque_step_progress:
  assumes "opaque_fits data" "p < length data" "data ! p = 0xC3" "opaque_step data (p + 1, out) = Some s'"
  shows "p < fst s'"
proof -
  obtain k v where d: "decodeMbUint (drop (p + 1) data) 0 = (k, v)" by fastforce
  then have "p + 1 + k + unat v < 2 ^ 32"
    using assms(1-3) by (auto simp: opaque_fits_def)
  then have "unat (of_nat (p + 1 + k) + v :: u32) = p + 1 + k + unat v"
    by (simp add: unat_word_ariths unat_of_nat)
  then show ?thesis
    using assms(4) d by (auto simp: opaque_step_def split: if_splits)
qed

lemma skip_attrs_progress: "pos \<le> skip_attrs data pos"
  by (simp add: skip_attrs_def Let_def)

lemma step_parts_progress:
  "entity_step n data s2 = Some s2' \<Longrightarrow> fst s2 \<le> fst s2'"
  "element_step n tab data token s = Some s' \<Longrightarrow> fst s \<le> fst s'"
  by (auto simp: entity_step_def element_step_def open_element_pos Let_def dest!: attr_loop_progress
      split: prod.splits option.splits if_splits)

lemma literal_step_progress:
  "literal_step n tab data token s = Some s' \<Longrightarrow> fst s \<le> fst s'"
  using skip_attrs_progress [of "fst s + fst (decodeMbUint (drop (fst s) data) 0)" data]
  by (auto simp: literal_step_def open_element_pos Let_def split: prod.splits option.splits if_splits)

lemma body_step_progress:
  assumes "opaque_fits data" "fst s < length data" "body_step n tab data s = Some s'"
  shows "fst s < fst s'"
proof -
  obtain pos out stack where s: "s = (pos, out, stack)" by (cases s) auto
  show ?thesis
    using assms opaque_step_progress [OF assms(1), of pos out] unfolding s body_step_def Let_def
    by (auto simp: Suc_le_eq [symmetric] dest: text_progress step_parts_progress literal_step_progress
        split: if_splits list.splits)
qed

lemma body_loop_enough_fuel:
  "opaque_fits data \<Longrightarrow> length data - fst s \<le> f \<Longrightarrow> body_loop f n tab data s \<noteq> Inl Out_of_fuel"
proof (induction f n tab data s rule: body_loop.induct)
  case (1 f n tab data s)
  show ?case
  proof (cases "fst s < length data")
    case True
    with 1(3) obtain f' where f: "f = Suc f'" by (cases f) auto
    show ?thesis
    proof (cases "body_step n tab data s")
      case None
      then show ?thesis by (subst body_loop.simps) (simp add: f)
    next
      case (Some s1)
      then have "fst s < fst s1" using body_step_progress [OF 1(2) True] by blast
      then have "length data - fst s1 \<le> f'" using 1(3) f True by simp
      with 1(1) [OF True f Some 1(2)] show ?thesis
        using True by (subst body_loop.simps) (simp add: f Some)
    qed
  next
    case False
    then show ?thesis by (subst body_loop.simps) simp
  qed
qed

lemma body_loop_closed: "tab_closed tab \<Longrightarrow> body_loop f n tab data s \<noteq> Inl Out_of_bounds"
proof (induction f n tab data s rule: body_loop.induct)
  case (1 f n tab data s)
  then show ?case
    using body_step_closed [of tab n data s]
    by (subst body_loop.simps) (auto split: nat.splits option.splits)
qed

lemma out_ok_close_all: "out_ok n out \<Longrightarrow> out_ok n (close_all n stack out)"
  unfolding close_all_def by (induction stack arbitrary: out) auto

lemma decompileBody_result:
  assumes "decompileBody f (Some d) tab False n = Inr (k, buf)" "0 < n" "d \<noteq> []"
  shows "k < n" "length buf = k + 1" "buf ! k = 0"
proof -
  obtain pos out stack where loop: "body_loop f n tab d (0, [], []) = Inr (pos, out, stack)"
    and k: "k = length (close_all n stack out)" and buf: "buf = terminate n (close_all n stack out)"
    using assms(1,3) by (auto simp: decompileBody_def Let_def split: sum.splits)
  have "out_ok n (close_all n stack out)"
    using out_ok_body_loop [OF loop] by (intro out_ok_close_all) auto
  then have "length (close_all n stack out) < n"
    using assms(2) by (simp add: out_ok_def)
  then show "k < n" "length buf = k + 1" "buf ! k = 0"
    by (simp_all add: k buf terminate_def)
qed

section \<open>Compiled documents\<close>

text \<open>
  A WML tree, its WBXML encoding as a server writes it, and its text.  A string is inline or a
  reference into the string table; an element token carries the attribute bit exactly when it
  has attributes and the content bit exactly when it has children.  Variables in attribute
  values are references: the code cannot read the inline form there (see the end of the
  theory).
\<close>

datatype value_piece = Piece_Text bytes | Piece_Ref u32 | Piece_Token u8 | Piece_Var_Ref nat u32

datatype wml_attr = Attr u8 "value_piece list"

datatype wml =
    Elem u8 "wml_attr list" "wml list"
  | Text_Node bytes
  | Ref_Node u32
  | Var_Node nat bytes
  | Var_Ref_Node nat u32
  | Entity_Node u32




primrec piece_bytes :: "value_piece \<Rightarrow> bytes" where
  "piece_bytes (Piece_Text s) = [0x03] @ s @ [0]"
| "piece_bytes (Piece_Ref r) = [0x83] @ uintvar r"
| "piece_bytes (Piece_Token t) = [t]"
| "piece_bytes (Piece_Var_Ref k r) = [0x80 + of_nat k] @ uintvar r"



primrec attr_bytes :: "wml_attr \<Rightarrow> bytes" where
  "attr_bytes (Attr t ps) = t # concat (map piece_bytes ps)"



definition element_token :: "u8 \<Rightarrow> bool \<Rightarrow> bool \<Rightarrow> u8" where
  "element_token t hasAttrs hasContent =
     (t OR (if hasAttrs then 0x80 else 0) OR (if hasContent then 0x40 else 0))"

fun wml_bytes :: "wml \<Rightarrow> bytes" where
  "wml_bytes (Elem t as cs) =
     [element_token t (as \<noteq> []) (cs \<noteq> [])] @
     (if as \<noteq> [] then concat (map attr_bytes as) @ [0x01] else []) @
     (if cs \<noteq> [] then concat (map wml_bytes cs) @ [0x01] else [])"
| "wml_bytes (Text_Node s) = [0x03] @ s @ [0]"
| "wml_bytes (Ref_Node r) = [0x83] @ uintvar r"
| "wml_bytes (Var_Node k s) = [0x40 + of_nat k] @ s @ [0]"
| "wml_bytes (Var_Ref_Node k r) = [0x80 + of_nat k] @ uintvar r"
| "wml_bytes (Entity_Node v) = [0x02] @ uintvar v"









section \<open>Decompiling a compiled document\<close>

lemma append_str_fits: "length out + length s < n \<Longrightarrow> append_str n s out = out @ s"
  by (simp add: append_str_def)

lemma append_char_fits: "length out + 1 < n \<Longrightarrow> append_char n c out = out @ [c]"
  by (simp add: append_char_def)

lemma append_chars_fit: "length out + length s < n \<Longrightarrow> fold (append_char n) s out = out @ s"
  by (induction s arbitrary: out) (simp_all add: append_char_fits)

lemmas append_fits = append_str_fits append_char_fits append_chars_fit


lemma close_var_fits:
  "length out + 3 < n \<Longrightarrow> close_var n k out =
     out @ (if k = 1 then [58, 101] else if k = 2 then [58, 117] else []) @ [41]"
  by (simp add: close_var_def str_Cons append_fits)



























lemma wml_bytes_nonempty [simp]: "wml_bytes t \<noteq> []"
  by (cases t) simp_all









lemma decompile_total_lemma:
  assumes "\<And>publicId pos tab. parse_header uninit d = Some (publicId, pos, tab) \<Longrightarrow>
      tab_closed tab \<and> opaque_fits (drop pos d)"
  shows "\<exists>r. decompile (length d) uninit (Some d) output_null n = Inr r"
proof (cases "output_null \<or> length d < 4 \<or> n < 100")
  case True
  then show ?thesis by (auto simp: decompile_def)
next
  case False
  show ?thesis
  proof (cases "parse_header uninit d")
    case None
    then show ?thesis using False by (simp add: decompile_def)
  next
    case (Some h)
    then obtain publicId pos tab where h: "parse_header uninit d = Some (publicId, pos, tab)"
      by (cases h) auto
    note ok = assms [OF h]
    let ?loop = "body_loop (length d) (n - length (prologue n publicId)) tab (drop pos d) (0, [], [])"
    have fuel: "?loop \<noteq> Inl Out_of_fuel"
      using ok by (intro body_loop_enough_fuel) auto
    have oob: "?loop \<noteq> Inl Out_of_bounds"
      using ok body_loop_closed by blast
    obtain p out st where "?loop = Inr (p, out, st)"
    proof (cases ?loop)
      case (Inl e)
      then show ?thesis using fuel oob by (cases e) simp_all
    next
      case (Inr r)
      then show ?thesis using that by (cases r) simp
    qed
    then obtain k b where
        "decompileBody (length d) (Some (drop pos d)) tab False (n - length (prologue n publicId)) = Inr (k, b)"
      by (cases "drop pos d = []") (simp_all add: decompileBody_def Let_def)
    then show ?thesis
      using False h by (cases "pos < length d") (simp_all add: decompile_def Let_def)
  qed
qed

lemma prologue_bound: "0 < n \<Longrightarrow> length (prologue n publicId) < n"
proof -
  have "out_ok n (prologue n publicId)"
    by (auto simp: prologue_def Let_def)
  then show "0 < n \<Longrightarrow> ?thesis" by (simp add: out_ok_def)
qed

lemma decompile_bound_lemma:
  assumes "decompile f uninit wmlc False n = Inr (k, buf)" "0 < n"
  shows "k < n \<and> length buf = k + 1 \<and> buf ! k = 0"
proof (cases "wmlc = None \<or> length (the wmlc) < 4 \<or> n < 100 \<or> parse_header uninit (the wmlc) = None")
  case True
  with assms show ?thesis by (auto simp: decompile_def split: option.splits if_splits)
next
  case False
  then obtain d where d: "wmlc = Some d" "\<not> length d < 4" "\<not> n < 100" by auto
  obtain publicId pos tab where h: "parse_header uninit d = Some (publicId, pos, tab)"
    using False d by auto
  have pro: "length (prologue n publicId) < n"
    using prologue_bound assms(2) by blast
  show ?thesis
  proof (cases "pos < length d")
    case True
    then obtain m b where body: "decompileBody f (Some (drop pos d)) tab False (n - length (prologue n publicId)) = Inr (m, b)"
      and k: "k = length (prologue n publicId @ take m b)" "buf = terminate n (prologue n publicId @ take m b)"
      using assms(1) d h by (auto simp: decompile_def Let_def split: sum.splits)
    have "m < n - length (prologue n publicId)" "length b = m + 1"
      using decompileBody_result [OF body] pro True by auto
    then have "length (prologue n publicId @ take m b) < n" by simp
    then show ?thesis unfolding k terminate_def by (simp only: if_True nth_append_length) simp
  next
    case False
    then show ?thesis
      using assms(1) d h pro by (auto simp: decompile_def Let_def terminate_def)
  qed
qed

section \<open>Properties\<close>



text \<open>on any input and any buffer, the output ends inside the buffer with a NUL right after
  the returned length.\<close>

theorem decompile_in_bounds:
  assumes "decompile f uninit wmlc False n = Inr (k, buf)" "0 < n"
  shows "k < n \<and> length buf = k + 1 \<and> buf ! k = 0"
  by (rule decompile_bound_lemma [OF assms])

theorem decompile_in_bounds_witness:
  "\<exists>k buf. decompile (length [1, 4, 106, 0, 0x7F :: u8]) 0 (Some [1, 4, 106, 0, 0x7F]) False 100 = Inr (k, buf) \<and>
     k < 100 \<and> buf ! k = 0"
proof -
  have "\<exists>r. decompile (length [1, 4, 106, 0, 0x7F :: u8]) 0 (Some [1, 4, 106, 0, 0x7F]) False 100 = Inr r"
  proof (rule decompile_total_lemma)
    fix publicId pos tab
    assume "parse_header 0 [1, 4, 106, 0, 0x7F] = Some (publicId, pos, tab)"
    moreover have "parse_header 0 [1, 4, 106, 0, 0x7F] = Some (4, 4, (None, 0))" by code_simp
    ultimately have "tab = (None, 0)" "pos = 4" by simp_all
    then show "tab_closed tab \<and> opaque_fits (drop pos [1, 4, 106, 0, 0x7F])"
      by (simp add: tab_closed_def opaque_fits_def)
  qed
  then obtain k buf where
      r: "decompile (length [1, 4, 106, 0, 0x7F :: u8]) 0 (Some [1, 4, 106, 0, 0x7F]) False 100 = Inr (k, buf)"
    by (metis surj_pair)
  show ?thesis using decompile_in_bounds [OF r zero_less_numeral] r by blast
qed



section \<open>Inputs the decompiler does not handle\<close>

text \<open>An opaque length that wraps brings the position back to the start: the loop never ends.\<close>

theorem opaque_wrap_never_ends:
  "decompileBody fuel (Some [0xC3, 0x8F, 0xFF, 0xFF, 0xFF, 0x7A]) (None, 0) False n = Inl Out_of_fuel"
proof -
  let ?d = "[0xC3, 0x8F, 0xFF, 0xFF, 0xFF, 0x7A]"
  have dec: "decodeMbUint [0x8F, 0xFF, 0xFF, 0xFF, 0x7A] 0 = (5, 0xFFFFFFFA)" by code_simp
  have "body_step n (None, 0) ?d (0, [], []) = Some (0, [], [])"
    by (simp add: body_step_def opaque_step_def dec)
  then have "body_loop fuel n (None, 0) ?d (0, [], []) = Inl Out_of_fuel"
    by (induction fuel) (subst body_loop.simps, simp)+
  then show ?thesis by (simp add: decompileBody_def)
qed

text \<open>A variable inside an attribute value, in its inline form, ends the value: its token is below
  \<open>0x80\<close>, so the branch written for it is never reached, and the characters of its name are read
  as attribute tokens.  Here the name \<open>a\<close> becomes a second attribute.\<close>

theorem attribute_inline_variable_lost:
  "decompileBody 9 (Some [0x9C, 0x4A, 0x40, 0x61, 0x00, 0x01]) (None, 0) False 100 =
     (let out = str ''<a href='' @ [34, 34] @ str '' enctype='' @ [34] @ str ''multipart/form-data'' @ [34] @ str ''/>''
      in Inr (length out, out @ [0]))"
proof -
  have names: "getElementName 0x1C = Some (str ''a'')"
    "getAttributeName 0x4A = Some (str ''href'', None)" "getAttributeName 0x40 = None"
    "getAttributeName 0x61 = Some (str ''enctype'', Some (str ''multipart/form-data''))"
    "getAttributeName 0x00 = None"
    by (simp_all add: getElementName_def wml_elements_def getAttributeName_def wml_attributes_def)
  let ?d = "[0x9C, 0x4A, 0x40, 0x61, 0x00, 0x01]"
  have "attr_loop 100 (None, 0) ?d (1, str ''<a'') =
      Some (6, str ''<a href='' @ [34, 34] @ str '' enctype='' @ [34] @ str ''multipart/form-data'' @ [34])"
    by (simp add: attr_loop.simps attr_token_def attr_value_loop.simps value_ends_def value_token_def names
        append_str_def append_char_def str_Cons)
  then have "body_step 100 (None, 0) ?d (0, [], []) =
      Some (6, str ''<a href='' @ [34, 34] @ str '' enctype='' @ [34] @ str ''multipart/form-data'' @ [34] @ str ''/>'', [])"
    by (simp add: body_step_def element_step_def names start_tag_def append_str_def append_char_def
        open_element_def str_Cons)
  then show ?thesis
    by (simp add: decompileBody_def body_loop.simps close_all_def terminate_def Let_def)
qed

text \<open>\<open>getPublicId\<close> returns what it has read so far of an id without end, not 0.\<close>

lemma getPublicId_unterminated: "getPublicId uninit (Some [0x03, 0x84]) = 4"
  by (simp add: getPublicId_def decodeMbUint_def)

end
