(* ===== verification/ApMode.thy ===== *)
theory ApMode
  imports Wdp WapRequest WapResponse WmlcDecompiler
begin

text \<open>
  The access point, \<^verbatim>\<open>src/mode_ap.h\<close>: parsing of HTTP requests, the WAP request sent over the
  mesh, the wait for its answer, reassembly with headers sent early, and the HTTP response.  The
  static variables of the file are the fields of \<open>APState\<close>; what the code writes to the HTTP client
  and sends over the mesh is appended to \<open>ap_out\<close>.  The result None of an operation stands for a
  read outside a buffer or a decompiler that does not end (\<open>fuel\<close> bounds its rounds).

  Arguments stand for what the code asks the outside: the clock \<open>now\<close> (one value per step), what
  each turn of a reading loop sees of the client (\<open>client_poll\<close>), what the mesh loop does while the
  code waits (\<open>wait_round\<close>), and the random number.  Texts contain no NUL characters except where
  \<open>c_str\<close> cuts them.
\<close>

section \<open>State\<close>

datatype ap_action = Client_Write bytes | Mesh_Message bytes bytes

record APState =
  ap_initialized :: bool
  ap_connected_clients :: int
  ap_proxy_path_discovered :: bool
  ap_proxy_path_len :: int
  ap_proxy_discovery_attempts :: int
  ap_proxy_discovery_start_time :: u32
  ap_proxy_discovery_in_progress :: bool
  ap_httpServer :: bool
  ap_sendMeshCallback :: bool
  ap_meshLoopCallback :: bool
  ap_concatMessages :: "ConcatMessage list"
  ap_meshResponseBuffer :: bytes
  ap_meshResponseLen :: nat
  ap_meshResponseReady :: bool
  ap_waitingClient :: bool
  ap_headersSent :: bool
  ap_earlyResponse :: HTTPResponse
  ap_isWMLC :: bool
  ap_bodyBytesReceived :: nat
  transactionCounter :: u8
  ap_wdpSessionActive :: bool
  ap_wdpBytesSent :: nat
  ap_wdpTotalParts :: nat
  ap_wdpReceivedParts :: nat
  ap_lastPartReceivedTime :: u32
  ap_displayNeedsUpdate :: bool
  ap_currentRequestPort :: u16
  ap_requestInProgress :: bool
  ap_out :: "ap_action list"

definition client_write :: "bytes \<Rightarrow> APState \<Rightarrow> APState" where
  "client_write x st = st\<lparr>ap_out := ap_out st @ [Client_Write x]\<rparr>"

text \<open>\<open>println\<close>\<close>

definition line :: "string \<Rightarrow> bytes" where "line s = str s @ crlf"

definition PROXY_NODE_PUBKEY :: bytes where
  "PROXY_NODE_PUBKEY = str ''21BDD77007F54EF3C5FEC28C55A84AE26076928EA2EF1A3F0307711EB4846EE9''"

definition WAPBOX_PORT :: u16 where "WAPBOX_PORT = 9200"

definition ap_generateSourcePort :: "u32 \<Rightarrow> u16" where
  "ap_generateSourcePort rnd = ucast (1024 + rnd mod (9999 - 1024 + 1))"

section \<open>Reading an HTTP request\<close>

text \<open>What one turn of a reading loop sees: a character, nothing yet, or the end (the client is gone
  or the time is up).\<close>

datatype client_poll = Poll_Byte u8 | Poll_Idle | Poll_Stop

record HTTPRequest =
  hr_method :: bytes
  hr_path :: bytes
  hr_host :: bytes
  hr_contentType :: bytes
  hr_contentLength :: u32
  hr_body :: bytes
  hr_bodyLen :: nat

definition empty_request :: HTTPRequest where
  "empty_request = \<lparr>hr_method = [], hr_path = [], hr_host = [], hr_contentType = [],
     hr_contentLength = 0, hr_body = [], hr_bodyLen = 0\<rparr>"

fun read_line :: "client_poll list \<Rightarrow> bytes \<Rightarrow> bytes \<times> client_poll list" where
  "read_line [] ln = (ln, [])"
| "read_line (Poll_Stop # ps) ln = (ln, ps)"
| "read_line (Poll_Idle # ps) ln = read_line ps ln"
| "read_line (Poll_Byte c # ps) ln =
     (if c = 10 then (ln, ps) else read_line ps (if c \<noteq> 13 then ln @ [c] else ln))"

text \<open>\<open>String::indexOf\<close> from an index, \<open>trim\<close>, \<open>toLowerCase\<close>, \<open>toInt\<close> (the C function \<open>atol\<close>,
  which saturates).\<close>

definition indexOf :: "u8 \<Rightarrow> nat \<Rightarrow> bytes \<Rightarrow> nat option" where
  "indexOf c k s = map_option (\<lambda>i. k + i) (first_index (\<lambda>x. x = c) (drop k s))"

definition is_space :: "u8 \<Rightarrow> bool" where
  "is_space c \<longleftrightarrow> c = 32 \<or> (9 \<le> c \<and> c \<le> 13)"

definition trim :: "bytes \<Rightarrow> bytes" where
  "trim s = rev (dropWhile is_space (rev (dropWhile is_space s)))"

definition toLowerCase :: "bytes \<Rightarrow> bytes" where
  "toLowerCase s = map (\<lambda>c. if 65 \<le> c \<and> c \<le> 90 then c + 32 else c) s"

definition digits_value :: "bytes \<Rightarrow> int" where
  "digits_value s = foldl (\<lambda>v c. v * 10 + (uint c - 48)) 0 (takeWhile (\<lambda>c. 48 \<le> c \<and> c \<le> 57) s)"

definition toInt :: "bytes \<Rightarrow> int" where
  "toInt s =
     (let s = dropWhile is_space s;
          v = (case s of
                 [] \<Rightarrow> 0
               | c # cs \<Rightarrow> if c = 45 then - digits_value cs else if c = 43 then digits_value cs
                           else digits_value s)
      in min (2 ^ 31 - 1) (max (- (2 ^ 31)) v))"

text \<open>One header line; \<open>strncpy\<close> into a cleared array keeps what fits before the terminator.\<close>

definition parse_header_line :: "bytes \<Rightarrow> HTTPRequest \<Rightarrow> HTTPRequest" where
  "parse_header_line ln req =
     (case indexOf 58 0 ln of
        None \<Rightarrow> req
      | Some colonPos \<Rightarrow>
          if colonPos = 0 then req
          else
            let headerName = toLowerCase (take colonPos ln); headerValue = trim (drop (colonPos + 1) ln) in
            if headerName = str ''host'' then req\<lparr>hr_host := take 127 (c_str headerValue)\<rparr>
            else if headerName = str ''content-type'' then req\<lparr>hr_contentType := take 63 (c_str headerValue)\<rparr>
            else if headerName = str ''content-length'' then
              req\<lparr>hr_contentLength := of_int (toInt headerValue)\<rparr>
            else req)"

lemma read_line_shorter [termination_simp]:
  "read_line (p # ps) ln = (ln', ps') \<Longrightarrow> length ps' < Suc (length ps)"
proof (induction "p # ps" ln arbitrary: p ps rule: read_line.induct)
  case (3 ps ln)
  then show ?case by (cases ps) fastforce+
next
  case (4 c ps ln)
  then show ?case by (cases ps) (fastforce split: if_splits)+
qed auto

function read_headers :: "client_poll list \<Rightarrow> HTTPRequest \<Rightarrow> HTTPRequest \<times> client_poll list" where
  "read_headers [] req = (req, [])"
| "read_headers (p # ps) req =
     (if p = Poll_Stop then (req, ps)
      else
        (case read_line (p # ps) [] of
           (ln, ps) \<Rightarrow> if ln = [] then (req, ps) else read_headers ps (parse_header_line ln req)))"
  by pat_completeness auto

termination read_headers
  by (relation "measure (\<lambda>(ps, req). length ps)") (auto simp: read_line_shorter dest: sym)

fun read_body :: "client_poll list \<Rightarrow> nat \<Rightarrow> bytes" where
  "read_body [] n = []"
| "read_body (Poll_Stop # ps) n = []"
| "read_body (Poll_Idle # ps) n = (if n = 0 then [] else read_body ps n)"
| "read_body (Poll_Byte c # ps) n = (if n = 0 then [] else c # read_body ps (n - 1))"

definition parseHTTPRequest :: "client_poll list \<Rightarrow> bool \<times> HTTPRequest" where
  "parseHTTPRequest ps =
     (case read_line ps [] of
        (requestLine, ps) \<Rightarrow>
          if requestLine = [] then (False, empty_request)
          else
            (case indexOf 32 0 requestLine of
               None \<Rightarrow> (False, empty_request)
             | Some firstSpace \<Rightarrow>
                 (case indexOf 32 (firstSpace + 1) requestLine of
                    None \<Rightarrow> (False, empty_request)
                  | Some secondSpace \<Rightarrow>
                      let req = empty_request
                            \<lparr>hr_method := take 15 (c_str (take firstSpace requestLine)),
                             hr_path := take 255 (c_str (take (secondSpace - (firstSpace + 1))
                                                          (drop (firstSpace + 1) requestLine)))\<rparr> in
                      (case read_headers ps req of
                         (req, ps) \<Rightarrow>
                           if 0 < hr_contentLength req \<and> hr_contentLength req < 512
                           then (let b = read_body ps (unat (hr_contentLength req)) in
                                 (True, req\<lparr>hr_body := b, hr_bodyLen := length b\<rparr>))
                           else (True, req)))))"

text \<open>\<open>strstr(hay, needle) != nullptr\<close>\<close>

definition strstr :: "bytes \<Rightarrow> bytes \<Rightarrow> bool" where
  "strstr hay needle \<longleftrightarrow> list_ex (\<lambda>k. take (length needle) (drop k hay) = needle) [0..<Suc (length hay)]"

definition buildURL :: "HTTPRequest \<Rightarrow> nat \<Rightarrow> bytes" where
  "buildURL req urlSize =
     (if take 7 (hr_path req) = str ''http://'' \<or> take 8 (hr_path req) = str ''https://''
      then take (urlSize - 1) (hr_path req)
      else if hr_host req \<noteq> [] then take (urlSize - 1) (str ''http://'' @ hr_host req @ hr_path req)
      else take (urlSize - 1) (str ''http://wap.bevelgacom.be'' @ hr_path req))"

section \<open>Datagrams\<close>

type_synonym AP_UDH = UDH
type_synonym AP_ConcatMessage = ConcatMessage

definition ap_parseUDH :: "bytes \<Rightarrow> AP_UDH option" where
  "ap_parseUDH data =
     (if length data < 7 then None
      else Some \<lparr>udh_headerLen = data ! 0, udh_ei = data ! 1, udh_eiLength = data ! 2,
                 udh_source = be16 (data ! 5) (data ! 6), udh_dest = be16 (data ! 3) (data ! 4)\<rparr>)"

definition ap_parseConcatUDH :: "bytes \<Rightarrow> (u8 \<times> u8 \<times> u8 \<times> AP_UDH) option" where
  "ap_parseConcatUDH data =
     (if length data < 12 \<or> data ! 0 \<noteq> 0x0B then None
      else if data ! 1 \<noteq> 0x00 \<or> data ! 2 \<noteq> 0x03 then None
      else Some (data ! 3, data ! 4, data ! 5,
             \<lparr>udh_headerLen = data ! 0, udh_ei = data ! 6, udh_eiLength = data ! 7,
              udh_source = be16 (data ! 10) (data ! 11), udh_dest = be16 (data ! 8) (data ! 9)\<rparr>))"

definition ap_clearConcatMessage :: "AP_ConcatMessage \<Rightarrow> AP_ConcatMessage" where
  "ap_clearConcatMessage msg =
     \<lparr>cm_active = False, cm_refNum = 0, cm_totalParts = 0, cm_receivedParts = 0,
      cm_partReceived = replicate (length (cm_partReceived msg)) 0,
      cm_data = replicate (length (cm_data msg)) 0,
      cm_partSizes = replicate (length (cm_partSizes msg)) 0,
      cm_sourcePort = 0, cm_destPort = 0, cm_senderMeshId = [], cm_lastUpdate = 0\<rparr>"

definition ap_restoreNormalDisplay :: "APState \<Rightarrow> APState" where
  "ap_restoreNormalDisplay st =
     st\<lparr>ap_wdpSessionActive := False, ap_wdpBytesSent := 0, ap_wdpTotalParts := 0, ap_wdpReceivedParts := 0\<rparr>"

text \<open>The messages of a datagram, as this file builds them.\<close>

definition ap_messages :: "u32 \<Rightarrow> u16 \<Rightarrow> u16 \<Rightarrow> bytes \<Rightarrow> bytes list" where
  "ap_messages now srcPort dstPort data =
     (let maxPayloadSimple = MESHCORE_MAX_BINARY_PAYLOAD - 7;
          maxPayloadConcat = MESHCORE_MAX_BINARY_PAYLOAD - 12 in
      if length data \<le> maxPayloadSimple
      then [[0x06, 0x05, 0x04, hi8 dstPort, lo8 dstPort, hi8 srcPort, lo8 srcPort] @ data]
      else
        let totalParts = (length data + maxPayloadConcat - 1) div maxPayloadConcat;
            refNum = ucast (now AND 0xFF) in
        map (\<lambda>part.
               let offset = (part - 1) * maxPayloadConcat;
                   partLen = (if length data - offset < maxPayloadConcat then length data - offset
                              else maxPayloadConcat) in
               [0x0B, 0x00, 0x03, refNum, of_nat totalParts, of_nat part, 0x05, 0x04,
                hi8 dstPort, lo8 dstPort, hi8 srcPort, lo8 srcPort] @ take partLen (drop offset data))
          [1..<Suc totalParts])"

definition ap_sendWDPViaMesh :: "u32 \<Rightarrow> bytes \<Rightarrow> u16 \<Rightarrow> u16 \<Rightarrow> bytes \<Rightarrow> APState \<Rightarrow> APState" where
  "ap_sendWDPViaMesh now to srcPort dstPort data st =
     (if \<not> ap_sendMeshCallback st then st
      else st\<lparr>ap_wdpSessionActive := True, ap_wdpBytesSent := length data,
              ap_wdpTotalParts := 0, ap_wdpReceivedParts := 0,
              ap_out := ap_out st @ map (Mesh_Message to) (ap_messages now srcPort dstPort data)\<rparr>)"

text \<open>Finding or opening a slot; unlike the proxy's copy this one resets \<open>partSizes\<close> and \<open>lastUpdate\<close>.\<close>

definition ap_slot :: slot_fun where
  "ap_slot now from refNum totalParts udh table =
     (case find_slot cm_active concat_key (refNum, from) table of
        Some i \<Rightarrow> Some (i, table)
      | None \<Rightarrow>
          (case first_index (\<lambda>c. \<not> cm_active c) table of
             None \<Rightarrow> None
           | Some i \<Rightarrow>
               Some (i, table[i := (table ! i)
                 \<lparr>cm_active := True, cm_refNum := refNum, cm_totalParts := totalParts, cm_receivedParts := 0,
                  cm_sourcePort := udh_source udh, cm_destPort := udh_dest udh, cm_senderMeshId := from,
                  cm_lastUpdate := now, cm_partReceived := replicate 16 0,
                  cm_data := replicate 4096 0, cm_partSizes := replicate 16 0\<rparr>])))"

section \<open>Headers sent early\<close>

definition response_line :: "HTTPResponse \<Rightarrow> bytes" where
  "response_line r = str ''HTTP/1.1 '' @ fmt_int (statusCode r) @ str '' '' @ statusText r @ crlf"

definition wml_type :: bytes where "wml_type = str ''text/vnd.wap.wml; charset=utf-8''"

text \<open>What is printed before the body, with or without a Content-Length line.\<close>

definition early_head :: "bool \<Rightarrow> HTTPResponse \<Rightarrow> bytes" where
  "early_head wmlc r =
     response_line r @
     str ''Content-Type: '' @ (if wmlc then wml_type else contentType r) @ crlf @
     (if \<not> wmlc \<and> 0 < contentLength r then str ''Content-Length: '' @ fmt_nat (contentLength r) @ crlf else []) @
     line ''Connection: close'' @
     (if server r \<noteq> [] then str ''Server: '' @ server r @ crlf else []) @ crlf"

definition is_wmlc :: "HTTPResponse \<Rightarrow> bool" where
  "is_wmlc r = strstr (contentType r) (str ''wmlc'')"

definition ap_trySendEarlyHeaders :: "bytes \<Rightarrow> APState \<Rightarrow> (bool \<times> APState) option" where
  "ap_trySendEarlyHeaders wspData st =
     (if \<not> ap_waitingClient st \<or> ap_headersSent st then Some (False, st)
      else
        (case decode (Some wspData) (Some (ap_earlyResponse st)) of
           None \<Rightarrow> None
         | Some (ok, r) \<Rightarrow>
             (let r = the r; st = st\<lparr>ap_earlyResponse := r\<rparr> in
              if \<not> ok then Some (False, st)
              else
                let st = client_write (early_head (is_wmlc r) r) (st\<lparr>ap_isWMLC := is_wmlc r\<rparr>);
                    st = (case body r of
                            Some b \<Rightarrow>
                              if \<not> is_wmlc r \<and> 0 < bodyLen r
                              then (client_write b st)\<lparr>ap_bodyBytesReceived := bodyLen r\<rparr> else st
                          | None \<Rightarrow> st)
                in Some (True, st\<lparr>ap_headersSent := True\<rparr>))))"

section \<open>Messages from the mesh\<close>

text \<open>After a new part was stored in \<open>c\<close>: progress, and headers or body to the client.
  \<open>connected\<close> says whether the client still is.\<close>

definition ap_part_stored :: "u32 \<Rightarrow> bool \<Rightarrow> u8 \<Rightarrow> bytes \<Rightarrow> AP_ConcatMessage \<Rightarrow> APState \<Rightarrow> APState option" where
  "ap_part_stored now connected currentPart payload c st =
     (let st = st\<lparr>ap_lastPartReceivedTime := now, ap_wdpReceivedParts := unat (cm_receivedParts c)\<rparr> in
      if currentPart = 1 \<and> \<not> ap_headersSent st \<and> ap_waitingClient st then
        (if ap_currentRequestPort st = 0 \<or> cm_destPort c = ap_currentRequestPort st
         then map_option snd (ap_trySendEarlyHeaders payload st) else Some st)
      else if \<not> ap_isWMLC st \<and> ap_headersSent st \<and> ap_waitingClient st \<and> connected then
        (if 1 < currentPart
         then Some ((client_write payload st)\<lparr>ap_bodyBytesReceived := ap_bodyBytesReceived st + length payload\<rparr>)
         else Some st)
      else Some st)"

text \<open>The complete datagram in \<open>c\<close>.\<close>

definition ap_complete :: "AP_ConcatMessage \<Rightarrow> APState \<Rightarrow> APState" where
  "ap_complete c st =
     (if ap_currentRequestPort st \<noteq> 0 \<and> cm_destPort c \<noteq> ap_currentRequestPort st then st
      else if concat_size c < 4096 then
        st\<lparr>ap_meshResponseBuffer := write_at 0 (take (concat_size c) (cm_data c)) (ap_meshResponseBuffer st),
           ap_meshResponseLen := concat_size c, ap_meshResponseReady := True, ap_currentRequestPort := 0\<rparr>
      else st)"

definition ap_handleConcat ::
  "u32 \<Rightarrow> bool \<Rightarrow> bytes \<Rightarrow> u8 \<times> u8 \<times> u8 \<times> AP_UDH \<Rightarrow> bytes \<Rightarrow> APState \<Rightarrow> APState option" where
  "ap_handleConcat now connected from hdr payload st =
     (case hdr of (refNum, totalParts, currentPart, udh) \<Rightarrow>
        (case ap_slot now from refNum totalParts udh (ap_concatMessages st) of
           None \<Rightarrow> Some st
         | Some (i, table) \<Rightarrow>
             let st = (if find_slot cm_active concat_key (refNum, from) (ap_concatMessages st) = None
                       then st\<lparr>ap_wdpTotalParts := unat totalParts, ap_wdpReceivedParts := 0\<rparr> else st);
                 c = store_part now currentPart payload (table ! i) in
             (case (if accepts_part currentPart payload (table ! i)
                    then ap_part_stored now connected currentPart payload c st else Some st) of
                None \<Rightarrow> None
              | Some st \<Rightarrow>
                  if concat_complete c
                  then Some ((ap_complete c st)\<lparr>ap_concatMessages := table[i := ap_clearConcatMessage c]\<rparr>)
                  else Some (st\<lparr>ap_concatMessages := table[i := c]\<rparr>))))"

definition ap_handleIncomingMesh :: "u32 \<Rightarrow> bool \<Rightarrow> bytes \<Rightarrow> bytes \<Rightarrow> APState \<Rightarrow> APState option" where
  "ap_handleIncomingMesh now connected from data st =
     (if length data < 7 then Some st
      else
        (case ap_parseConcatUDH data of
           Some hdr \<Rightarrow> ap_handleConcat now connected from hdr (drop 12 data) st
         | None \<Rightarrow>
             (case ap_parseUDH data of
                None \<Rightarrow> Some st
              | Some udh \<Rightarrow>
                  if ap_currentRequestPort st \<noteq> 0 \<and> udh_dest udh \<noteq> ap_currentRequestPort st then Some st
                  else
                    let payload = drop 7 data in
                    (case (if \<not> ap_headersSent st \<and> ap_waitingClient st
                           then map_option snd (ap_trySendEarlyHeaders payload st) else Some st) of
                       None \<Rightarrow> None
                     | Some st \<Rightarrow>
                         if length payload < 4096 then
                           Some (st\<lparr>ap_meshResponseBuffer := write_at 0 payload (ap_meshResponseBuffer st),
                                    ap_meshResponseLen := length payload, ap_meshResponseReady := True,
                                    ap_currentRequestPort := 0,
                                    ap_wdpTotalParts := 1, ap_wdpReceivedParts := 1\<rparr>)
                         else Some st))))"

section \<open>The loop of the access point\<close>

definition ap_expire :: "u32 \<Rightarrow> AP_ConcatMessage \<Rightarrow> AP_ConcatMessage" where
  "ap_expire now c =
     (if cm_active c \<and> now - cm_lastUpdate c > 30000 then ap_clearConcatMessage c else c)"

definition ap_cleanup :: "u32 \<Rightarrow> APState \<Rightarrow> APState" where
  "ap_cleanup now st = st\<lparr>ap_concatMessages := map (ap_expire now) (ap_concatMessages st)\<rparr>"

definition ap_stations :: "int \<Rightarrow> APState \<Rightarrow> APState" where
  "ap_stations currentClients st =
     (if currentClients \<noteq> ap_connected_clients st
      then st\<lparr>ap_connected_clients := currentClients, ap_displayNeedsUpdate := True\<rparr> else st)"

section \<open>Waiting for the answer\<close>

text \<open>What the mesh loop does during one turn of the wait: messages it hands over, and the loop of
  the access point (whose HTTP server is stopped meanwhile).\<close>

datatype mesh_event = Mesh_In u32 bool bytes bytes | AP_Loop int u32

fun mesh_events :: "mesh_event list \<Rightarrow> APState \<Rightarrow> APState option" where
  "mesh_events [] st = Some st"
| "mesh_events (Mesh_In now connected from data # es) st =
     (case ap_handleIncomingMesh now connected from data st of
        None \<Rightarrow> None
      | Some st \<Rightarrow> mesh_events es st)"
| "mesh_events (AP_Loop currentClients now # es) st =
     mesh_events es (if ap_initialized st then ap_cleanup now (ap_stations currentClients st) else st)"

text \<open>One turn: the clock at the test of the loop, what happens, whether the client is still there.\<close>

type_synonym wait_round = "u32 \<times> mesh_event list \<times> bool"

datatype wait_outcome = Waiting | Answered bytes | Client_Gone | Timed_Out

definition wait_gone :: "APState \<Rightarrow> APState" where
  "wait_gone st = (ap_restoreNormalDisplay (st\<lparr>ap_meshResponseReady := False, ap_currentRequestPort := 0,
     ap_requestInProgress := False, ap_waitingClient := False, ap_headersSent := False\<rparr>))
     \<lparr>ap_httpServer := True\<rparr>"

definition wait_answered :: "APState \<Rightarrow> APState" where
  "wait_answered st = st\<lparr>ap_meshResponseReady := False, ap_requestInProgress := False,
     ap_waitingClient := False, ap_httpServer := True\<rparr>"

definition wait_timeout :: "APState \<Rightarrow> APState" where
  "wait_timeout st = (ap_restoreNormalDisplay (st\<lparr>ap_requestInProgress := False,
     ap_waitingClient := False, ap_headersSent := False\<rparr>))\<lparr>ap_httpServer := True\<rparr>"

definition response_copy :: "nat \<Rightarrow> APState \<Rightarrow> bytes" where
  "response_copy responseMaxLen st =
     take (if ap_meshResponseLen st < responseMaxLen then ap_meshResponseLen st else responseMaxLen)
       (ap_meshResponseBuffer st)"

fun ap_wait ::
  "bool \<Rightarrow> u32 \<Rightarrow> nat \<Rightarrow> wait_round list \<Rightarrow> APState \<Rightarrow> (wait_outcome \<times> APState) option" where
  "ap_wait keepAlive timeoutMs maxLen [] st = Some (Waiting, st)"
| "ap_wait keepAlive timeoutMs maxLen ((now, events, connected) # rs) st =
     (if timeoutMs \<le> now - ap_lastPartReceivedTime st then Some (Timed_Out, wait_timeout st)
      else
        (case (if ap_meshLoopCallback st then mesh_events events st else Some st) of
           None \<Rightarrow> None
         | Some st \<Rightarrow>
             if keepAlive \<and> \<not> connected then Some (Client_Gone, wait_gone st)
             else if ap_meshResponseReady st
             then Some (Answered (response_copy maxLen st), wait_answered st)
             else ap_wait keepAlive timeoutMs maxLen rs st))"

text \<open>The clock when the request is sent and when the wait starts, the turns of the wait, the random
  number, and what the decompiler needs.\<close>

record http_env =
  he_polls :: "client_poll list"
  he_rnd :: u32
  he_sendTime :: u32
  he_startTime :: u32
  he_rounds :: "wait_round list"
  he_fuel :: nat
  he_uninit :: u32

definition request_started :: "bool \<Rightarrow> u32 \<Rightarrow> APState \<Rightarrow> APState" where
  "request_started keepAlive rnd st =
     st\<lparr>ap_requestInProgress := True, ap_httpServer := False, ap_meshResponseReady := False,
        ap_meshResponseLen := 0, ap_waitingClient := keepAlive, ap_headersSent := False,
        ap_isWMLC := False, ap_bodyBytesReceived := 0, ap_earlyResponse := zero_response,
        ap_currentRequestPort := ap_generateSourcePort rnd\<rparr>"

definition sendWAPRequestViaMesh ::
  "http_env \<Rightarrow> bytes \<Rightarrow> nat \<Rightarrow> u32 \<Rightarrow> bool \<Rightarrow> APState \<Rightarrow> (wait_outcome \<times> APState) option" where
  "sendWAPRequestViaMesh env request responseMaxLen timeoutMs keepAlive st =
     (let st = request_started keepAlive (he_rnd env) st;
          st = ap_sendWDPViaMesh (he_sendTime env) PROXY_NODE_PUBKEY (ap_currentRequestPort st) WAPBOX_PORT
                 request st;
          st = st\<lparr>ap_lastPartReceivedTime := he_startTime env\<rparr>
      in ap_wait keepAlive timeoutMs responseMaxLen (he_rounds env) st)"

section \<open>Answering the HTTP client\<close>

definition error_page :: "string \<Rightarrow> bytes \<Rightarrow> bytes" where
  "error_page status text =
     line status @ line ''Content-Type: text/plain'' @ line ''Connection: close'' @ crlf @ text"

definition blocked_host :: "bytes \<Rightarrow> bool" where
  "blocked_host host \<longleftrightarrow>
     strstr host (str ''connectivitycheck.gstatic.com'') \<or>
     strstr host (str ''connectivitycheck.android.com'') \<or>
     strstr host (str ''clients3.google.com'') \<or>
     strstr host (str ''captive.apple.com'') \<or>
     strstr host (str ''detectportal.firefox.com'')"

text \<open>The text of a WMLC body, None when the decompiler reads outside it or does not end.\<close>

definition decompiled :: "http_env \<Rightarrow> bytes \<Rightarrow> bytes option" where
  "decompiled env b =
     (case decompile (he_fuel env) (he_uninit env) (Some b) False 8192 of
        Inl f \<Rightarrow> None
      | Inr (n, buf) \<Rightarrow> Some (take n buf))"

definition finish_early :: "http_env \<Rightarrow> bytes \<Rightarrow> APState \<Rightarrow> APState option" where
  "finish_early env wapResponse st =
     map_option (\<lambda>st. st\<lparr>ap_headersSent := False\<rparr>)
       (if ap_isWMLC st \<and> 0 < ap_meshResponseLen st then
          (case decode (Some wapResponse) (Some zero_response) of
             None \<Rightarrow> None
           | Some (ok, r) \<Rightarrow>
               (case body (the r) of
                  Some b \<Rightarrow>
                    if ok \<and> 0 < bodyLen (the r)
                    then map_option (\<lambda>t. client_write (if t \<noteq> [] then t else b) st) (decompiled env b)
                    else Some st
                | None \<Rightarrow> Some st))
        else Some st)"

definition full_head :: "bytes \<Rightarrow> nat \<Rightarrow> HTTPResponse \<Rightarrow> bytes" where
  "full_head type len r =
     response_line r @ str ''Content-Type: '' @ type @ crlf @
     str ''Content-Length: '' @ fmt_nat len @ crlf @ line ''Connection: close'' @
     (if server r \<noteq> [] then str ''Server: '' @ server r @ crlf else []) @ crlf"

definition finish_full :: "http_env \<Rightarrow> bytes \<Rightarrow> APState \<Rightarrow> (bool \<times> APState) option" where
  "finish_full env wapResponse st =
     (case decode (Some wapResponse) (Some zero_response) of
        None \<Rightarrow> None
      | Some (False, _) \<Rightarrow>
          Some (False, client_write (error_page ''HTTP/1.1 502 Bad Gateway'' (line ''Failed to decode WAPBOX response'')) st)
      | Some (True, ro) \<Rightarrow>
          (let r = the ro in
           case (case body r of
                   Some b \<Rightarrow>
                     if is_wmlc r \<and> 0 < bodyLen r
                     then map_option (\<lambda>t. if t \<noteq> [] then (wml_type, t) else (contentType r, b)) (decompiled env b)
                     else Some (contentType r, b)
                 | None \<Rightarrow> Some (contentType r, [])) of
             None \<Rightarrow> None
           | Some (type, b) \<Rightarrow>
               (let st = client_write (full_head type (length b) r) st in
                Some (True, if b \<noteq> [] then client_write b st else st))))"

text \<open>The outcome: None for a fault, False while the answer is still being waited for.\<close>

definition handleHTTPRequest :: "http_env \<Rightarrow> APState \<Rightarrow> (bool \<times> APState) option" where
  "handleHTTPRequest env st =
     (case parseHTTPRequest (he_polls env) of
        (False, _) \<Rightarrow>
          Some (True, client_write (error_page ''HTTP/1.1 400 Bad Request'' (line ''Bad Request'')) st)
      | (True, req) \<Rightarrow>
          if blocked_host (hr_host req) then Some (True, st)
          else
            let url = buildURL req 512; tid = transactionCounter st;
                st = st\<lparr>transactionCounter := transactionCounter st + 1\<rparr> in
            if hr_method req \<noteq> str ''GET'' \<and> hr_method req \<noteq> str ''HEAD'' then
              Some (True, client_write (error_page ''HTTP/1.1 501 Not Implemented''
                (str ''Method '' @ hr_method req @ str '' not implemented for WAP proxy'' @ [10])) st)
            else
              (case createGetRequest (Some (url @ [0])) tid False 512 True of
                 (wapRequestLen, wapRequest) \<Rightarrow>
                   if wapRequestLen = 0 then
                     Some (True, client_write (error_page ''HTTP/1.1 500 Internal Server Error''
                       (line ''Failed to create WAP request'')) st)
                   else
                     (case sendWAPRequestViaMesh env (take wapRequestLen wapRequest) 4096 15000 True st of
                        None \<Rightarrow> None
                      | Some (Waiting, st) \<Rightarrow> Some (False, st)
                      | Some (Answered wapResponse, st) \<Rightarrow>
                          if ap_headersSent st
                          then map_option (\<lambda>st. (True, ap_restoreNormalDisplay st)) (finish_early env wapResponse st)
                          else map_option (\<lambda>(ok, st). (True, if ok then ap_restoreNormalDisplay st else st))
                                 (finish_full env wapResponse st)
                      | Some (outcome, st) \<Rightarrow>
                          Some (True, client_write (error_page ''HTTP/1.1 504 Gateway Timeout''
                            (line ''Mesh proxy did not respond'')) st))))"

text \<open>The loop outside a wait: \<open>client\<close> is the next client of the server that has sent something.\<close>

definition ap_loop :: "http_env option \<Rightarrow> int \<Rightarrow> u32 \<Rightarrow> APState \<Rightarrow> (bool \<times> APState) option" where
  "ap_loop client currentClients now st =
     (if \<not> ap_initialized st then Some (True, st)
      else
        (case (case client of
                 Some env \<Rightarrow> if ap_httpServer st then handleHTTPRequest env st else Some (True, st)
               | None \<Rightarrow> Some (True, st)) of
           None \<Rightarrow> None
         | Some (False, st) \<Rightarrow> Some (False, st)
         | Some (True, st) \<Rightarrow> Some (True, ap_cleanup now (ap_stations currentClients st))))"

section \<open>Start and discovery of the proxy\<close>

text \<open>\<open>softAP\<close> is what the WiFi library answers to the request for an access point.\<close>

definition ap_init :: "bool \<Rightarrow> APState \<Rightarrow> APState" where
  "ap_init softAP st =
     (let st = st\<lparr>ap_concatMessages := map (\<lambda>c. c\<lparr>cm_active := False\<rparr>) (ap_concatMessages st)\<rparr> in
      if softAP then st\<lparr>ap_initialized := True, ap_httpServer := True\<rparr> else st)"

definition ap_needsDisplayUpdate :: "APState \<Rightarrow> bool \<times> APState" where
  "ap_needsDisplayUpdate st =
     (if ap_displayNeedsUpdate st then (True, st\<lparr>ap_displayNeedsUpdate := False\<rparr>) else (False, st))"

definition ap_setMeshCallback :: "APState \<Rightarrow> APState" where
  "ap_setMeshCallback st = st\<lparr>ap_sendMeshCallback := True\<rparr>"

definition ap_setMeshLoopCallback :: "APState \<Rightarrow> APState" where
  "ap_setMeshLoopCallback st = st\<lparr>ap_meshLoopCallback := True\<rparr>"

definition ap_setProxyPathDiscovered :: "int \<Rightarrow> APState \<Rightarrow> APState" where
  "ap_setProxyPathDiscovered pathLen st =
     st\<lparr>ap_proxy_path_discovered := True, ap_proxy_path_len := pathLen, ap_proxy_discovery_in_progress := False\<rparr>"

definition ap_startProxyDiscovery :: "u32 \<Rightarrow> APState \<Rightarrow> APState" where
  "ap_startProxyDiscovery now st =
     st\<lparr>ap_proxy_discovery_in_progress := True, ap_proxy_discovery_attempts := 0,
        ap_proxy_path_discovered := False, ap_proxy_path_len := -1, ap_proxy_discovery_start_time := now\<rparr>"

abbreviation (input) AP_PROXY_DISCOVERY_MAX_RETRIES :: int where "AP_PROXY_DISCOVERY_MAX_RETRIES \<equiv> 5"

definition ap_incrementProxyDiscoveryAttempt :: "APState \<Rightarrow> bool \<times> APState" where
  "ap_incrementProxyDiscoveryAttempt st =
     (let st = st\<lparr>ap_proxy_discovery_attempts := ap_proxy_discovery_attempts st + 1\<rparr> in
      if ap_proxy_discovery_attempts st > AP_PROXY_DISCOVERY_MAX_RETRIES
      then (False, st\<lparr>ap_proxy_discovery_in_progress := False\<rparr>) else (True, st))"

text \<open>The variables at start: the arrays are zero, being static.\<close>

definition ap_zero :: APState where
  "ap_zero =
     \<lparr>ap_initialized = False, ap_connected_clients = 0, ap_proxy_path_discovered = False,
      ap_proxy_path_len = -1, ap_proxy_discovery_attempts = 0, ap_proxy_discovery_start_time = 0,
      ap_proxy_discovery_in_progress = False, ap_httpServer = False, ap_sendMeshCallback = False,
      ap_meshLoopCallback = False,
      ap_concatMessages = replicate 4
        \<lparr>cm_active = False, cm_refNum = 0, cm_totalParts = 0, cm_receivedParts = 0,
         cm_partReceived = replicate 16 0, cm_data = replicate 4096 0, cm_partSizes = replicate 16 0,
         cm_sourcePort = 0, cm_destPort = 0, cm_senderMeshId = [], cm_lastUpdate = 0\<rparr>,
      ap_meshResponseBuffer = replicate 4096 0, ap_meshResponseLen = 0, ap_meshResponseReady = False,
      ap_waitingClient = False, ap_headersSent = False, ap_earlyResponse = zero_response,
      ap_isWMLC = False, ap_bodyBytesReceived = 0, transactionCounter = 0, ap_wdpSessionActive = False,
      ap_wdpBytesSent = 0, ap_wdpTotalParts = 0, ap_wdpReceivedParts = 0, ap_lastPartReceivedTime = 0,
      ap_displayNeedsUpdate = False, ap_currentRequestPort = 0, ap_requestInProgress = False, ap_out = []\<rparr>"

end
