(* ===== verification/MeshNode.thy ===== *)
theory MeshNode
  imports NodeHelpers ProxyGateway ApMode
begin

text \<open>
  The mesh node, class \<^verbatim>\<open>MyMesh\<close> of \<^verbatim>\<open>src/main.cpp\<close>, as built for the ESP32: the queues of received
  messages and of replies, acknowledgements, the discovery of the proxy, sending of datagrams as
  text, the console, and one turn of the loop in either mode of operation.

  The mesh library is the record \<open>mesh_lib\<close> of the operations the code calls, over a state \<open>'b\<close> of
  which nothing is known; what a turn asks the hardware is the record \<open>node_env\<close>.  What the node
  sends, saves or shows is appended to \<open>mm_out\<close>.
\<close>

section \<open>The library and the state\<close>

datatype send_result = MSG_SEND_FAILED | MSG_SEND_SENT_FLOOD | MSG_SEND_SENT_DIRECT

text \<open>Numbers of the preferences as \<open>atof\<close> gives them.\<close>

record NodePrefs =
  np_airtime_factor :: "64 word"
  np_node_name :: bytes
  np_node_lat :: "64 word"
  np_node_lon :: "64 word"
  np_freq :: "64 word"
  np_tx_power_dbm :: u8

text \<open>\<open>ml_sendMessage\<close> takes the time, the text and the checksum variable, and returns the variable's
  new value; \<open>ml_contacts\<close> is what the iterator visits.\<close>

record 'b mesh_lib =
  ml_lookup :: "'b \<Rightarrow> bytes \<Rightarrow> ContactInfo option"
  ml_sendMessage :: "'b \<Rightarrow> ContactInfo \<Rightarrow> u32 \<Rightarrow> bytes \<Rightarrow> u32 \<Rightarrow> send_result \<times> u32 \<times> 'b"
  ml_addContact :: "ContactInfo \<Rightarrow> 'b \<Rightarrow> bool \<times> 'b"
  ml_resetPathTo :: "ContactInfo \<Rightarrow> 'b \<Rightarrow> 'b"
  ml_contacts :: "'b \<Rightarrow> ContactInfo list"
  ml_room :: "'b \<Rightarrow> nat"
  ml_search :: "'b \<Rightarrow> bytes \<Rightarrow> ContactInfo option"
  ml_fromHex :: "nat \<Rightarrow> bytes \<Rightarrow> bytes option"
  ml_isHexChar :: "u8 \<Rightarrow> bool"
  ml_importContact :: "bytes \<Rightarrow> 'b \<Rightarrow> 'b"
  ml_createSelfAdvert :: "'b \<Rightarrow> NodePrefs \<Rightarrow> bytes option"
  ml_createGroupDatagram :: "'b \<Rightarrow> bool \<Rightarrow> bytes \<Rightarrow> bytes option"
  ml_maxText :: nat
  ml_chatType :: u8
  ml_strncpy :: "bytes \<Rightarrow> nat \<Rightarrow> bytes"
  ml_atof :: "bytes \<Rightarrow> 64 word"
  ml_atoi :: "bytes \<Rightarrow> u8"

record PendingInbox =
  pi_active :: bool
  pi_time :: u32
  pi_senderIdStr :: bytes
  pi_wdpData :: bytes
  pi_wdpLen :: nat

record PendingReply =
  pr_active :: bool
  pr_time :: u32
  pr_senderPubKey :: bytes
  pr_replyText :: bytes

datatype node_action =
    Text_Sent bytes bytes
  | Packet_Flood bytes
  | Packet_Zero_Hop bytes
  | Contacts_Saved bytes
  | Prefs_Saved NodePrefs
  | Clock_Set u32

record 'b MyMesh =
  mm_base :: 'b
  prefs :: NodePrefs
  expected_ack_crc :: u32
  last_msg_sent :: u32
  curr_recipient :: "ContactInfo option"
  mm_command :: bytes
  pending_inbox :: "PendingInbox list"
  pending_replies :: "PendingReply list"
  messages_handled :: u32
  proxy_ping_pending :: bool
  proxy_ping_sent_time :: u32
  mm_rtc :: u32
  mm_out :: "node_action list"

definition node_out :: "node_action \<Rightarrow> 'b MyMesh \<Rightarrow> 'b MyMesh" where
  "node_out a st = st\<lparr>mm_out := mm_out st @ [a]\<rparr>"

text \<open>The constructor; \<open>defaults\<close> holds the numbers of the configuration and \<open>mem\<close> what the memory
  held before.\<close>

definition MyMesh_init :: "bool \<Rightarrow> NodePrefs \<Rightarrow> 'b MyMesh \<Rightarrow> 'b MyMesh" where
  "MyMesh_init mode_ap defaults mem =
     mem\<lparr>prefs := defaults\<lparr>np_node_name := (if mode_ap then str ''MAP-AP'' else str ''MAP-Proxy'')\<rparr>,
         mm_command := (mm_command mem)[0 := 0], curr_recipient := None,
         pending_inbox := map (\<lambda>m. m\<lparr>pi_active := False\<rparr>) (pending_inbox mem),
         pending_replies := map (\<lambda>m. m\<lparr>pr_active := False\<rparr>) (pending_replies mem),
         messages_handled := 0, proxy_ping_pending := False, proxy_ping_sent_time := 0\<rparr>"

definition clearPendingInbox :: "PendingInbox \<Rightarrow> PendingInbox" where
  "clearPendingInbox msg =
     \<lparr>pi_active = False, pi_time = 0, pi_senderIdStr = [], pi_wdpData = replicate 256 0, pi_wdpLen = 0\<rparr>"

definition clearPendingReply :: "PendingReply \<Rightarrow> PendingReply" where
  "clearPendingReply msg =
     \<lparr>pr_active = False, pr_time = 0, pr_senderPubKey = replicate 32 0, pr_replyText = []\<rparr>"

definition save_contacts :: "'b mesh_lib \<Rightarrow> 'b MyMesh \<Rightarrow> 'b MyMesh" where
  "save_contacts lib st =
     node_out (Contacts_Saved (saveContacts (ml_room lib (mm_base st)) (ml_contacts lib (mm_base st)))) st"

text \<open>A call of \<open>sendMessage\<close> with the node's checksum variable.\<close>

definition send_text :: "'b mesh_lib \<Rightarrow> ContactInfo \<Rightarrow> bytes \<Rightarrow> 'b MyMesh \<Rightarrow> send_result \<times> 'b MyMesh" where
  "send_text lib c t st =
     (case ml_sendMessage lib (mm_base st) c (mm_rtc st) t (expected_ack_crc st) of
        (result, crc, b) \<Rightarrow>
          (let st = st\<lparr>mm_base := b, expected_ack_crc := crc\<rparr> in
           (result, if result = MSG_SEND_FAILED then st else node_out (Text_Sent (ci_pub_key c) t) st)))"

section \<open>What the mesh reports\<close>

text \<open>A received text: \<open>ping\<close> queues a reply, any other text is queued for decoding.  The text cannot
  contain NUL characters, being a C string.\<close>

definition ping_text :: bytes where "ping_text = str ''ping''"

definition queue_reply :: "u32 \<Rightarrow> bytes \<Rightarrow> 'b MyMesh \<Rightarrow> 'b MyMesh" where
  "queue_reply now pub_key st =
     (case first_index (\<lambda>m. \<not> pr_active m) (pending_replies st) of
        None \<Rightarrow> st
      | Some i \<Rightarrow> st\<lparr>pending_replies := (pending_replies st)[i :=
          \<lparr>pr_active = True, pr_time = now, pr_senderPubKey = pub_key, pr_replyText = str ''ping ok''\<rparr>]\<rparr>)"

definition queue_message :: "u32 \<Rightarrow> bytes \<Rightarrow> bytes \<Rightarrow> PendingInbox \<Rightarrow> PendingInbox" where
  "queue_message now pub_key t slot =
     (let wdpLen = (if length t < 255 then length t else 255) in
      slot\<lparr>pi_active := True, pi_time := now, pi_senderIdStr := node_id pub_key, pi_wdpLen := wdpLen,
           pi_wdpData := take wdpLen t @ 0 # drop (Suc wdpLen) (pi_wdpData slot)\<rparr>)"

definition onMessageRecv :: "u32 \<Rightarrow> ContactInfo \<Rightarrow> bytes \<Rightarrow> 'b MyMesh \<Rightarrow> 'b MyMesh" where
  "onMessageRecv now sender t st =
     (if t = ping_text then
        (queue_reply now (ci_pub_key sender) st)\<lparr>messages_handled := messages_handled st + 1\<rparr>
      else if 0 < length t then
        (case first_index (\<lambda>m. \<not> pi_active m) (pending_inbox st) of
           None \<Rightarrow> st
         | Some i \<Rightarrow> st\<lparr>pending_inbox := (pending_inbox st)[i :=
               queue_message now (ci_pub_key sender) t (pending_inbox st ! i)],
             messages_handled := messages_handled st + 1\<rparr>)
      else st\<lparr>messages_handled := messages_handled st + 1\<rparr>)"

definition processAck :: "bytes \<Rightarrow> 'b MyMesh \<Rightarrow> 'b MyMesh" where
  "processAck data st =
     (if take 4 data = le32 (expected_ack_crc st) then st\<lparr>expected_ack_crc := 0\<rparr> else st)"

definition onContactPathUpdated :: "'b mesh_lib \<Rightarrow> 'b MyMesh \<Rightarrow> 'b MyMesh" where
  "onContactPathUpdated lib st = save_contacts lib st"

definition onDiscoveredContact :: "'b mesh_lib \<Rightarrow> 'b MyMesh \<Rightarrow> 'b MyMesh" where
  "onDiscoveredContact lib st = save_contacts lib st"

definition isValidSenderNodeId :: "'b mesh_lib \<Rightarrow> 'b \<Rightarrow> bytes \<Rightarrow> bool" where
  "isValidSenderNodeId lib b senderIdStr =
     (let idLen = length senderIdStr in
      if idLen < 8 \<or> \<not> isValidHex senderIdStr idLen then False
      else ml_lookup lib b (hexDecode senderIdStr 8 4) \<noteq> None)"

section \<open>Datagrams as text\<close>

definition MESHCORE_MAX_BYTES :: nat where "MESHCORE_MAX_BYTES = 150"

text \<open>\<open>stack\<close>: what the four bytes of the prefix held before.\<close>

definition sendWDPToMesh :: "'b mesh_lib \<Rightarrow> bytes \<Rightarrow> u32 \<Rightarrow> bytes \<Rightarrow> bytes \<Rightarrow> 'b MyMesh \<Rightarrow> 'b MyMesh" where
  "sendWDPToMesh lib stack now recipientId data st =
     (case ml_lookup lib (mm_base st) (target_prefix stack recipientId) of
        None \<Rightarrow> st
      | Some contact \<Rightarrow>
          (let maxBinaryLen = ((MESHCORE_MAX_BYTES - 1) * 13) div 16;
               data = (if length data > maxBinaryLen then take maxBinaryLen data else data) in
           case Base91_encode (Some data) False (MESHCORE_MAX_BYTES + 1) of
             (encodedLen, encodedMsg) \<Rightarrow>
               (if encodedLen = 0 then st
                else
                  (case send_text lib contact (c_str encodedMsg) st of
                     (result, st) \<Rightarrow> if result = MSG_SEND_FAILED then st else st\<lparr>last_msg_sent := now\<rparr>))))"

text \<open>The next message that has waited for more than 100 ms: its sender, its text and its length; the
  slot is cleared.\<close>

definition take_inbox :: "u32 \<Rightarrow> 'b MyMesh \<Rightarrow> ((bytes \<times> bytes \<times> nat) option) \<times> 'b MyMesh" where
  "take_inbox now st =
     (case first_index (\<lambda>m. pi_active m \<and> now - pi_time m > 100) (pending_inbox st) of
        None \<Rightarrow> (None, st)
      | Some i \<Rightarrow>
          (let m = pending_inbox st ! i in
           (Some (pi_senderIdStr m, pi_wdpData m, pi_wdpLen m),
            st\<lparr>pending_inbox := (pending_inbox st)[i := clearPendingInbox m]\<rparr>)))"

text \<open>The datagram a queued text stands for, when its sender is known and its header is right.\<close>

definition inbox_datagram :: "'b mesh_lib \<Rightarrow> 'b \<Rightarrow> bytes \<times> bytes \<times> nat \<Rightarrow> bytes option" where
  "inbox_datagram lib b msg =
     (case msg of (senderIdStr, wdpData, wdpLen) \<Rightarrow>
        if \<not> isValidSenderNodeId lib b senderIdStr then None
        else
          (case Base91_decode (Some wdpData) False 256 of
             (decodedLen, decodedData) \<Rightarrow>
               if decodedLen > 0 then
                 (if \<not> isValidWDPMessage (take decodedLen decodedData) then None
                  else Some (take decodedLen decodedData))
               else
                 (if \<not> isValidWDPMessage (take wdpLen wdpData) then None
                  else Some (take wdpLen wdpData))))"

text \<open>The message handed to the mode's handler in this turn, with its sender.\<close>

definition next_datagram :: "'b mesh_lib \<Rightarrow> u32 \<Rightarrow> 'b MyMesh \<Rightarrow> (bytes \<times> bytes) option \<times> 'b MyMesh" where
  "next_datagram lib now st =
     (case take_inbox now st of
        (None, st) \<Rightarrow> (None, st)
      | (Some msg, st) \<Rightarrow> (map_option (\<lambda>d. (fst msg, d)) (inbox_datagram lib (mm_base st) msg), st))"

text \<open>One queued reply a turn.\<close>

definition reply_step :: "'b mesh_lib \<Rightarrow> u32 \<Rightarrow> 'b MyMesh \<Rightarrow> 'b MyMesh" where
  "reply_step lib now st =
     (case first_index (\<lambda>m. pr_active m \<and> now - pr_time m > 100) (pending_replies st) of
        None \<Rightarrow> st
      | Some i \<Rightarrow>
          (let m = pending_replies st ! i;
               st = st\<lparr>pending_replies := (pending_replies st)[i := clearPendingReply m]\<rparr> in
           case ml_lookup lib (mm_base st) (pr_senderPubKey m) of
             None \<Rightarrow> st
           | Some sender \<Rightarrow>
               (case send_text lib sender (pr_replyText m) st of
                  (result, st) \<Rightarrow> if result \<noteq> MSG_SEND_FAILED then st\<lparr>last_msg_sent := now\<rparr> else st)))"

end
