(* ===== verification/NodeLoop.thy ===== *)
theory NodeLoop
  imports MeshNode
begin

text \<open>
  The rest of \<^verbatim>\<open>src/main.cpp\<close>: discovery of the path to the proxy, the console, one turn of the
  node's loop in each mode, the user button, and the choice of a new identity.  None is the result
  of a turn that leaves one of the program's buffers.
\<close>

section \<open>Discovery of the proxy\<close>

definition getProxyContact :: "'b mesh_lib \<Rightarrow> 'b \<Rightarrow> ContactInfo option" where
  "getProxyContact lib b =
     (let pkLen = length PROXY_NODE_PUBKEY in
      if pkLen \<ge> 32 * 2 then ml_lookup lib b (hexDecode PROXY_NODE_PUBKEY (32 * 2) 32) else None)"

definition resetProxyPath :: "'b mesh_lib \<Rightarrow> 'b MyMesh \<Rightarrow> bool \<times> 'b MyMesh" where
  "resetProxyPath lib st =
     (case getProxyContact lib (mm_base st) of
        None \<Rightarrow> (False, st)
      | Some proxy \<Rightarrow>
          (True, save_contacts lib (st\<lparr>mm_base := ml_resetPathTo lib proxy (mm_base st)\<rparr>)))"

definition sendProxyPing :: "'b mesh_lib \<Rightarrow> u32 \<Rightarrow> 'b MyMesh \<Rightarrow> bool \<times> 'b MyMesh" where
  "sendProxyPing lib now st =
     (case getProxyContact lib (mm_base st) of
        None \<Rightarrow> (False, st)
      | Some proxy \<Rightarrow>
          (case send_text lib proxy ping_text st of
             (result, st) \<Rightarrow>
               if result = MSG_SEND_FAILED then (False, st)
               else (True, st\<lparr>proxy_ping_sent_time := now, proxy_ping_pending := True\<rparr>)))"

definition isProxyPingTimedOut :: "u32 \<Rightarrow> 'b MyMesh \<Rightarrow> bool" where
  "isProxyPingTimedOut now st =
     (if \<not> proxy_ping_pending st then False else now - proxy_ping_sent_time st > 8000)"

definition checkProxyPingAck :: "'b mesh_lib \<Rightarrow> 'b MyMesh \<times> APState \<Rightarrow> 'b MyMesh \<times> APState" where
  "checkProxyPingAck lib = (\<lambda>(st, ap).
     (if proxy_ping_pending st \<and> expected_ack_crc st = 0 then
        (let st = st\<lparr>proxy_ping_pending := False\<rparr> in
         (st, case getProxyContact lib (mm_base st) of
                Some proxy \<Rightarrow> ap_setProxyPathDiscovered (sint (ci_out_path_len proxy)) ap
              | None \<Rightarrow> ap))
      else (st, ap)))"

definition getProxyPathLen :: "'b mesh_lib \<Rightarrow> 'b MyMesh \<times> APState \<Rightarrow> int" where
  "getProxyPathLen lib = (\<lambda>(st, ap).
     (case getProxyContact lib (mm_base st) of
        Some proxy \<Rightarrow> if ap_proxy_path_discovered ap then sint (ci_out_path_len proxy) else -1
      | None \<Rightarrow> -1))"

definition sendSelfAdvert :: "'b mesh_lib \<Rightarrow> 'b MyMesh \<Rightarrow> 'b MyMesh" where
  "sendSelfAdvert lib st =
     (case ml_createSelfAdvert lib (mm_base st) (prefs st) of
        Some pkt \<Rightarrow> node_out (Packet_Flood pkt) st
      | None \<Rightarrow> st)"

definition new_proxy_contact :: "u8 \<Rightarrow> u32 \<Rightarrow> ContactInfo" where
  "new_proxy_contact chat time =
     \<lparr>ci_pub_key = hexDecode PROXY_NODE_PUBKEY (32 * 2) 32, ci_name = str ''Proxy'' @ replicate 27 0,
      ci_type = chat, ci_flags = 0, ci_out_path_len = 0, ci_last_advert_timestamp = time,
      ci_out_path = replicate 64 0, ci_lastmod = 0\<rparr>"

text \<open>A missing proxy contact is added first; a failure to add it ends the attempt.\<close>

definition ensure_proxy :: "'b mesh_lib \<Rightarrow> 'b MyMesh \<Rightarrow> bool \<times> 'b MyMesh" where
  "ensure_proxy lib st =
     (case getProxyContact lib (mm_base st) of
        Some proxy \<Rightarrow> (True, st)
      | None \<Rightarrow>
          (let st = sendSelfAdvert lib st in
           if length PROXY_NODE_PUBKEY \<ge> 32 * 2 then
             (case ml_addContact lib (new_proxy_contact (ml_chatType lib) (mm_rtc st)) (mm_base st) of
                (added, b) \<Rightarrow>
                  (let st = st\<lparr>mm_base := b\<rparr> in
                   if added then
                     (let st = save_contacts lib st in (getProxyContact lib (mm_base st) \<noteq> None, st))
                   else (False, st)))
           else (False, st)))"

text \<open>Path reset and ping, as in the first attempt and in every further one.\<close>

definition ping_attempt :: "'b mesh_lib \<Rightarrow> u32 \<Rightarrow> 'b MyMesh \<Rightarrow> 'b MyMesh" where
  "ping_attempt lib now st = snd (sendProxyPing lib now (snd (resetProxyPath lib st)))"

definition startProxyDiscovery :: "'b mesh_lib \<Rightarrow> u32 \<Rightarrow> 'b MyMesh \<times> APState \<Rightarrow> 'b MyMesh \<times> APState" where
  "startProxyDiscovery lib now = (\<lambda>(st, ap).
     (case ensure_proxy lib st of
        (False, st) \<Rightarrow> (st, ap)
      | (True, st) \<Rightarrow>
          (case ap_incrementProxyDiscoveryAttempt (ap_startProxyDiscovery now ap) of
             (proceed, ap) \<Rightarrow> (if proceed then ping_attempt lib now st else st, ap))))"

definition discovery_step :: "'b mesh_lib \<Rightarrow> u32 \<Rightarrow> 'b MyMesh \<times> APState \<Rightarrow> 'b MyMesh \<times> APState" where
  "discovery_step lib now = (\<lambda>(st, ap).
     (if ap_proxy_discovery_in_progress ap \<and> \<not> ap_proxy_path_discovered ap then
        (if isProxyPingTimedOut now st then
           (let st = st\<lparr>proxy_ping_pending := False\<rparr> in
            case ap_incrementProxyDiscoveryAttempt ap of
              (proceed, ap) \<Rightarrow> (if proceed then ping_attempt lib now st else st, ap))
         else (st, ap))
      else (st, ap)))"

section \<open>The console\<close>

definition setClock :: "u32 \<Rightarrow> 'b MyMesh \<Rightarrow> 'b MyMesh" where
  "setClock timestamp st =
     (if timestamp > mm_rtc st then node_out (Clock_Set timestamp) (st\<lparr>mm_rtc := timestamp\<rparr>) else st)"

text \<open>\<open>starts p s\<close>: the \<open>memcmp\<close> of a command with a literal.\<close>

definition starts :: "string \<Rightarrow> bytes \<Rightarrow> bool" where
  "starts p s \<longleftrightarrow> take (length p) s = str p"

definition importCard :: "'b mesh_lib \<Rightarrow> bytes \<Rightarrow> 'b MyMesh \<Rightarrow> 'b MyMesh" where
  "importCard lib command st =
     (let command = dropWhile (\<lambda>c. c = 32) command in
      if starts ''meshcore://'' command then
        (let card = rev (dropWhile (\<lambda>c. \<not> ml_isHexChar lib c) (rev (drop 11 command))); len = length card in
         if len mod 2 = 0 then
           (case ml_fromHex lib (len div 2) card of
              Some packet \<Rightarrow> st\<lparr>mm_base := ml_importContact lib packet (mm_base st)\<rparr>
            | None \<Rightarrow> st)
         else st)
      else st)"

text \<open>A text for a channel, None when \<open>sprintf\<close> writes past the array \<open>temp\<close> of
  \<open>5 + MAX_TEXT_LEN + 32\<close> bytes.\<close>

definition channel_text :: "'b mesh_lib \<Rightarrow> bool \<Rightarrow> bytes \<Rightarrow> 'b MyMesh \<Rightarrow> 'b MyMesh option" where
  "channel_text lib radar msg st =
     (let t = np_node_name (prefs st) @ str '': '' @ msg in
      if ml_maxText lib + 32 < length t + 1 then None
      else
        Some (case ml_createGroupDatagram lib (mm_base st) radar (le32 (mm_rtc st) @ 0 # take (ml_maxText lib) t) of
                Some pkt \<Rightarrow> node_out (Packet_Flood pkt) st
              | None \<Rightarrow> st))"

definition savePrefs :: "'b MyMesh \<Rightarrow> 'b MyMesh" where
  "savePrefs st = node_out (Prefs_Saved (prefs st)) st"

definition set_command :: "'b mesh_lib \<Rightarrow> bytes \<Rightarrow> 'b MyMesh \<Rightarrow> 'b MyMesh" where
  "set_command lib config st =
     (if starts ''af '' config then
        savePrefs (st\<lparr>prefs := (prefs st)\<lparr>np_airtime_factor := ml_atof lib (drop 3 config)\<rparr>\<rparr>)
      else if starts ''name '' config then
        savePrefs (st\<lparr>prefs := (prefs st)\<lparr>np_node_name := ml_strncpy lib (drop 5 config) 32\<rparr>\<rparr>)
      else if starts ''lat '' config then
        savePrefs (st\<lparr>prefs := (prefs st)\<lparr>np_node_lat := ml_atof lib (drop 4 config)\<rparr>\<rparr>)
      else if starts ''lon '' config then
        savePrefs (st\<lparr>prefs := (prefs st)\<lparr>np_node_lon := ml_atof lib (drop 4 config)\<rparr>\<rparr>)
      else if starts ''tx '' config then
        savePrefs (st\<lparr>prefs := (prefs st)\<lparr>np_tx_power_dbm := ml_atoi lib (drop 3 config)\<rparr>\<rparr>)
      else if starts ''freq '' config then
        savePrefs (st\<lparr>prefs := (prefs st)\<lparr>np_freq := ml_atof lib (drop 5 config)\<rparr>\<rparr>)
      else st)"

text \<open>Commands that only print (\<open>list\<close>, \<open>clock\<close>, \<open>to\<close> without a name, \<open>card\<close>, \<open>ver\<close>, \<open>help\<close>, unknown
  ones) leave the state alone.\<close>

definition handleCommand :: "'b mesh_lib \<Rightarrow> u32 \<Rightarrow> bytes \<Rightarrow> 'b MyMesh \<Rightarrow> 'b MyMesh option" where
  "handleCommand lib now command st =
     (let command = dropWhile (\<lambda>c. c = 32) command in
      if starts ''send '' command then
        Some (case curr_recipient st of
                Some recipient \<Rightarrow>
                  (case send_text lib recipient (drop 5 command) st of
                     (result, st) \<Rightarrow> if result = MSG_SEND_FAILED then st else st\<lparr>last_msg_sent := now\<rparr>)
              | None \<Rightarrow> st)
      else if starts ''public '' command then channel_text lib False (drop 7 command) st
      else if starts ''mc-radar '' command then channel_text lib True (drop 9 command) st
      else if starts ''list'' command then Some st
      else if command = str ''clock'' then Some st
      else if starts ''time '' command then Some (setClock (node_atoi 0 (drop 5 command)) st)
      else if starts ''to '' command then
        Some (st\<lparr>curr_recipient := ml_search lib (mm_base st) (drop 3 command)\<rparr>)
      else if command = str ''to'' then Some st
      else if command = str ''advert'' then
        Some (case ml_createSelfAdvert lib (mm_base st) (prefs st) of
                Some pkt \<Rightarrow> node_out (Packet_Zero_Hop pkt) st
              | None \<Rightarrow> st)
      else if command = str ''reset path'' then
        Some (case curr_recipient st of
                Some recipient \<Rightarrow>
                  save_contacts lib (st\<lparr>mm_base := ml_resetPathTo lib recipient (mm_base st)\<rparr>)
              | None \<Rightarrow> st)
      else if starts ''card'' command then Some st
      else if starts ''import '' command then Some (importCard lib (drop 7 command) st)
      else if starts ''set '' command then Some (set_command lib (drop 4 command) st)
      else Some st)"

text \<open>Characters from the serial line go to the command buffer of 522 bytes while there is room.\<close>

fun serial_read :: "bytes \<Rightarrow> nat \<Rightarrow> bytes \<Rightarrow> nat \<times> bytes \<times> bytes" where
  "serial_read [] len command = (len, command, [])"
| "serial_read (c # cs) len command =
     (if len < 521 then
        (if c \<noteq> 10 then serial_read cs (len + 1) (command[len := c, len + 1 := 0])
         else serial_read cs len command)
      else (len, command, c # cs))"

text \<open>None also when \<open>strlen\<close> finds no end of the command; the second result is what the line still holds.\<close>

definition console_step :: "'b mesh_lib \<Rightarrow> u32 \<Rightarrow> bytes \<Rightarrow> 'b MyMesh \<Rightarrow> ('b MyMesh \<times> bytes) option" where
  "console_step lib now serial st =
     (if \<not> c_terminated (mm_command st) then None
      else
        (case serial_read serial (length (c_str (mm_command st))) (mm_command st) of
           (len, command, rest) \<Rightarrow>
             (let command = (if len = 521 then command[521 := 13] else command) in
              if len > 0 \<and> command ! (len - 1) = 13 then
                (let command = command[len - 1 := 0] in
                 case handleCommand lib now (c_str command) (st\<lparr>mm_command := command\<rparr>) of
                   None \<Rightarrow> None
                 | Some st \<Rightarrow> Some (st\<lparr>mm_command := (mm_command st)[0 := 0]\<rparr>, rest))
              else Some (st\<lparr>mm_command := command\<rparr>, rest))))"

section \<open>One turn of the loop\<close>

record node_env =
  ne_now :: u32
  ne_stack :: bytes
  ne_serial :: bytes

text \<open>The gateway's callback sends every message of the proxy as text.\<close>

definition send_datagrams :: "'b mesh_lib \<Rightarrow> node_env \<Rightarrow> (bytes \<times> bytes) list \<Rightarrow> 'b MyMesh \<Rightarrow> 'b MyMesh" where
  "send_datagrams lib env ms st =
     fold (\<lambda>(recipient, m). sendWDPToMesh lib (ne_stack env) (ne_now env) recipient m) ms st"

definition mesh_sends :: "proxy_action list \<Rightarrow> (bytes \<times> bytes) list" where
  "mesh_sends acts =
     List.concat (map (\<lambda>a. case a of Mesh_Send recipient m \<Rightarrow> [(recipient, m)] | _ \<Rightarrow> []) acts)"

text \<open>The turn of a proxy: answers of the WAP box, one queued message, one reply, the console.\<close>

definition proxy_turn ::
  "'b mesh_lib \<Rightarrow> node_env \<Rightarrow> udp_env \<Rightarrow> (nat \<Rightarrow> (u32 \<times> u16 \<times> bytes) option) \<Rightarrow> 'b MyMesh \<times> WDPGateway option
     \<Rightarrow> (('b MyMesh \<times> WDPGateway option) \<times> proxy_action list) option" where
  "proxy_turn lib env udp recv = (\<lambda>(st, gw).
     (case proxy_loop recv (ne_now env) gw of
        (gw, acts) \<Rightarrow>
          (case next_datagram lib (ne_now env) (send_datagrams lib env (mesh_sends acts) st) of
             (msg, st) \<Rightarrow>
               (case (case msg of
                        None \<Rightarrow> Some (gw, [])
                      | Some (sender, d) \<Rightarrow> proxy_handleIncomingMesh udp (ne_now env) sender d gw) of
                  None \<Rightarrow> None
                | Some (gw, acts') \<Rightarrow>
                    (case console_step lib (ne_now env) (ne_serial env) (reply_step lib (ne_now env) st) of
                       None \<Rightarrow> None
                     | Some (st, rest) \<Rightarrow> Some ((st, gw), acts @ acts'))))))"

text \<open>The turn of an access point.  \<open>client\<close>: a client that is served in this turn, and the node as
  the turns inside the wait for its answer left it.  \<open>connected\<close> is what the waiting client
  answers.  When the answer is still being waited for, the turn is not over.\<close>

definition ap_turn ::
  "'b mesh_lib \<Rightarrow> node_env \<Rightarrow> int \<Rightarrow> bool \<Rightarrow> (http_env \<times> 'b MyMesh) option \<Rightarrow> 'b MyMesh \<times> APState
     \<Rightarrow> ('b MyMesh \<times> APState) option" where
  "ap_turn lib env stations connected client = (\<lambda>(st, ap).
     (case ap_loop (map_option fst client) stations (ne_now env) ap of
        None \<Rightarrow> None
      | Some (False, ap) \<Rightarrow> Some (case client of None \<Rightarrow> st | Some (_, st) \<Rightarrow> st, ap)
      | Some (True, ap) \<Rightarrow>
          (let st = (case client of None \<Rightarrow> st | Some (_, st) \<Rightarrow> st); ap = snd (ap_needsDisplayUpdate ap) in
           case discovery_step lib (ne_now env) (checkProxyPingAck lib (st, ap)) of
             (st, ap) \<Rightarrow>
               (case next_datagram lib (ne_now env) st of
                  (msg, st) \<Rightarrow>
                    (case (case msg of
                             None \<Rightarrow> Some ap
                           | Some (sender, d) \<Rightarrow> ap_handleIncomingMesh (ne_now env) connected sender d ap) of
                       None \<Rightarrow> None
                     | Some ap \<Rightarrow>
                         (case console_step lib (ne_now env) (ne_serial env) (reply_step lib (ne_now env) st) of
                            None \<Rightarrow> None
                          | Some (st, rest) \<Rightarrow> Some (st, ap)))))))"

section \<open>The button and the identity\<close>

text \<open>The state of the button and whether the node goes to sleep.\<close>

definition checkUserButton :: "u32 \<Rightarrow> bool \<Rightarrow> u32 \<times> bool \<Rightarrow> bool \<times> (u32 \<times> bool)" where
  "checkUserButton now buttonPressed = (\<lambda>(buttonPressStart, buttonWasPressed).
     (if buttonPressed \<and> \<not> buttonWasPressed then (False, (now, True))
      else if buttonPressed \<and> buttonWasPressed then (now - buttonPressStart \<ge> 2000, (buttonPressStart, buttonWasPressed))
      else if \<not> buttonPressed \<and> buttonWasPressed then (False, (buttonPressStart, False))
      else (False, (buttonPressStart, buttonWasPressed))))"

text \<open>Of the keys the generator gives, the first whose first byte is not reserved, or the eleventh.\<close>

fun pick_identity :: "(nat \<Rightarrow> bytes) \<Rightarrow> nat \<Rightarrow> nat \<Rightarrow> bytes" where
  "pick_identity gen 0 k = gen k"
| "pick_identity gen (Suc tries) k =
     (if hd (gen k) = 0x00 \<or> hd (gen k) = 0xFF then pick_identity gen tries (Suc k) else gen k)"

definition new_identity :: "(nat \<Rightarrow> bytes) \<Rightarrow> bytes" where
  "new_identity gen = pick_identity gen 10 0"

end
