(* ===== verification/NodeProofs.thy ===== *)
theory NodeProofs
  imports NodeLoop
begin

text \<open>
  Properties of the mesh node: a datagram survives its way as a text from node to node; the queues
  keep their sizes and terminators and hand over nothing that was not checked; the discovery of the
  proxy; the console; and what goes wrong where the code does not do what it means to.
\<close>

section \<open>A datagram as a text\<close>

definition wdp_text :: "bytes \<Rightarrow> bytes" where
  "wdp_text m = c_str (snd (Base91_encode (Some m) False (MESHCORE_MAX_BYTES + 1)))"

lemma wdp_text_eq:
  assumes "m \<noteq> []" "length m \<le> 121"
  shows "Base91_encode (Some m) False (MESHCORE_MAX_BYTES + 1) = (length (wdp_text m), wdp_text m @ [0])"
    "wdp_text m = enc_chars m 0 0" "wdp_text m \<noteq> []" "length (wdp_text m) < MESHCORE_MAX_BYTES" "0 \<notin> set (wdp_text m)"
proof -
  have "13 * length (enc_chars m 0 0) \<le> 16 * length m + 12" using enc_chars_length [of 0 0 m] by simp
  then have len: "length (enc_chars m 0 0) < MESHCORE_MAX_BYTES"
    using assms(2) by (simp add: MESHCORE_MAX_BYTES_def)
  then have enc: "Base91_encode (Some m) False (MESHCORE_MAX_BYTES + 1) =
      (length (enc_chars m 0 0), enc_chars m 0 0 @ [0])"
    by (intro Base91_encode_enough) simp
  have nul: "0 \<notin> set (enc_chars m 0 0)"
    using enc_chars_alphabet [of 0 0 m] ALPHABET_safe by force
  have t: "wdp_text m = enc_chars m 0 0"
    unfolding wdp_text_def enc snd_conv by (rule c_str_terminated_append [OF nul])
  show "Base91_encode (Some m) False (MESHCORE_MAX_BYTES + 1) = (length (wdp_text m), wdp_text m @ [0])"
    "wdp_text m = enc_chars m 0 0" "wdp_text m \<noteq> []" "length (wdp_text m) < MESHCORE_MAX_BYTES" "0 \<notin> set (wdp_text m)"
    using enc len nul enc_chars_not_Nil [of 0 m 0] assms(1) by (simp_all add: t)
qed

lemma wdp_text_decode:
  assumes "m \<noteq> []" "length m \<le> 121"
  shows "Base91_decode (Some (wdp_text m @ 0 # rest)) False 256 = (length m, m)"
  using Base91_decode_enc_chars [of m 256 rest] assms by (simp add: wdp_text_eq(2) [OF assms])

lemma wdp_text_no_ping:
  assumes "7 \<le> length m" "length m \<le> 121"
  shows "wdp_text m \<noteq> ping_text"
proof
  assume "wdp_text m = ping_text"
  moreover have "m \<noteq> []" using assms(1) by auto
  ultimately have "Base91_decode (Some (ping_text @ [0])) False 256 = (length m, m)"
    using wdp_text_decode [of m "[]"] assms(2) by simp
  moreover have "fst (Base91_decode (Some (ping_text @ [0])) False 256) = 3" by code_simp
  ultimately show False using assms(1) by simp
qed

lemma valid_length: "isValidWDPMessage m \<Longrightarrow> 7 \<le> length m"
  by (auto simp: isValidWDPMessage_def split: if_splits)

definition inbox_idle :: "'b MyMesh \<Rightarrow> bool" where
  "inbox_idle st \<longleftrightarrow> pending_inbox st \<noteq> [] \<and> (\<forall>m \<in> set (pending_inbox st). \<not> pi_active m)"

text \<open>The node that sends it.\<close>

lemma send_message_text:
  assumes "ml_lookup lib (mm_base st) (target_prefix stack recipient) = Some c"
    and "ml_sendMessage lib (mm_base st) c (mm_rtc st) (wdp_text m) (expected_ack_crc st) = (result, crc, b)"
    and "result \<noteq> MSG_SEND_FAILED" "m \<noteq> []" "length m \<le> 120"
  shows "sendWDPToMesh lib stack now recipient m st =
     st\<lparr>mm_base := b, expected_ack_crc := crc, last_msg_sent := now,
        mm_out := mm_out st @ [Text_Sent (ci_pub_key c) (wdp_text m)]\<rparr>"
proof -
  have len: "length m \<le> 121" using assms(5) by simp
  note t = wdp_text_eq [OF assms(4) len]
  have "c_str (wdp_text m @ [0]) = wdp_text m"
    using c_str_terminated_append [OF t(5), of "[]"] by simp
  moreover have "\<not> ((MESHCORE_MAX_BYTES - 1) * 13) div 16 < length m"
    using assms(5) by (simp add: MESHCORE_MAX_BYTES_def)
  ultimately show ?thesis
    using t(3) assms(1-3)
    by (simp add: sendWDPToMesh_def Let_def t(1) send_text_def node_out_def
        del: One_nat_def)
qed

text \<open>The text of a datagram in a slot of the queue stands for the datagram.\<close>

lemma queued_slot:
  fixes now :: u32 and key :: bytes and slot :: PendingInbox
  assumes "7 \<le> length m" "length m \<le> 120"
  defines "q \<equiv> queue_message now key (wdp_text m) slot"
  shows "pi_active q" "pi_time q = now" "pi_senderIdStr q = node_id key" "\<exists>junk. pi_wdpData q = wdp_text m @ 0 # junk"
proof -
  have "m \<noteq> []" using assms(1) by auto
  with wdp_text_eq(4) [of m] assms(2) have "length (wdp_text m) < 150" by (simp add: MESHCORE_MAX_BYTES_def)
  then show "pi_active q" "pi_time q = now" "pi_senderIdStr q = node_id key" "\<exists>junk. pi_wdpData q = wdp_text m @ 0 # junk"
    by (auto simp: q_def queue_message_def Let_def)
qed

lemma queued_datagram:
  assumes "isValidWDPMessage m" "length m \<le> 120" "4 \<le> length key" "ml_lookup lib b (take 4 key) \<noteq> None"
  shows "inbox_datagram lib b (node_id key, pi_wdpData (queue_message now key (wdp_text m) slot), n) = Some m"
proof -
  have len: "7 \<le> length m" "length m \<le> 121" "m \<noteq> []" using valid_length [OF assms(1)] assms(2) by auto
  obtain junk where junk: "pi_wdpData (queue_message now key (wdp_text m) slot) = wdp_text m @ 0 # junk"
    using queued_slot(4) [OF len(1) assms(2)] by blast
  have "isValidSenderNodeId lib b (node_id key)"
    using assms(4) node_id_valid [OF assms(3)] node_id_text(1) [OF assms(3)] node_id_prefix(1) [OF assms(3)]
    by (simp add: isValidSenderNodeId_def Let_def)
  then show ?thesis
    using assms(1) len(3) by (simp add: inbox_datagram_def junk wdp_text_decode [OF len(3,2)])
qed

lemma receive_text:
  assumes "7 \<le> length m" "length m \<le> 120"
    and "first_index (\<lambda>x. \<not> pi_active x) (pending_inbox st) = Some i"
  shows "onMessageRecv now sender (wdp_text m) st =
    st\<lparr>pending_inbox := (pending_inbox st)[i := queue_message now (ci_pub_key sender) (wdp_text m) (pending_inbox st ! i)],
       messages_handled := messages_handled st + 1\<rparr>"
proof -
  have "m \<noteq> []" using assms(1) by auto
  with wdp_text_no_ping [of m] wdp_text_eq(3) [of m] assms show ?thesis by (auto simp: onMessageRecv_def)
qed

text \<open>The node that receives it, in a later turn.\<close>

lemma receive_message_text:
  assumes "isValidWDPMessage m" "length m \<le> 120" "inbox_idle st" "later - now > 100"
    and key: "4 \<le> length (ci_pub_key sender)"
    and known: "ml_lookup lib (mm_base st) (take 4 (ci_pub_key sender)) \<noteq> None"
  shows "\<exists>box. next_datagram lib later (onMessageRecv now sender (wdp_text m) st) =
      (Some (node_id (ci_pub_key sender), m),
       st\<lparr>pending_inbox := box, messages_handled := messages_handled st + 1\<rparr>) \<and>
    (\<forall>x \<in> set box. \<not> pi_active x) \<and> box \<noteq> []"
proof -
  note len = valid_length [OF assms(1)]
  obtain slot rest where box: "pending_inbox st = slot # rest"
    using assms(3) by (cases "pending_inbox st") (auto simp: inbox_idle_def)
  define q where "q = queue_message now (ci_pub_key sender) (wdp_text m) slot"
  note q = queued_slot [OF len assms(2), of now "ci_pub_key sender" slot, folded q_def]
  have recv: "onMessageRecv now sender (wdp_text m) st =
      st\<lparr>pending_inbox := q # rest, messages_handled := messages_handled st + 1\<rparr>"
    using receive_text [OF len assms(2), of st 0] assms(3)
    by (simp add: box inbox_idle_def first_index_def q_def)
  have "next_datagram lib later (onMessageRecv now sender (wdp_text m) st) =
      (Some (node_id (ci_pub_key sender), m),
       st\<lparr>pending_inbox := clearPendingInbox q # rest, messages_handled := messages_handled st + 1\<rparr>)"
    using assms(4) q(1-3) queued_datagram [OF assms(1,2) key known, of now slot, folded q_def]
    by (simp add: recv next_datagram_def take_inbox_def first_index_def Let_def)
  moreover have "\<forall>x \<in> set (clearPendingInbox q # rest). \<not> pi_active x"
    using assms(3) by (auto simp: inbox_idle_def box clearPendingInbox_def)
  ultimately show ?thesis by blast
qed

text \<open>C20: A datagram of the routing code (at most 120 bytes, with a header the check accepts) that one
  node sends to another goes out as one text of less than 150 characters without NUL, and the node
  that receives this text from a contact it knows hands exactly the datagram, with the sender's id,
  to its handler in a turn more than 100 ms later.\<close>

theorem message_travels:
  assumes "ml_lookup libA (mm_base a) (take 4 key) = Some c" "4 \<le> length key"
    and "ml_sendMessage libA (mm_base a) c (mm_rtc a) (wdp_text m) (expected_ack_crc a) = (result, crc, base)"
    and "result \<noteq> MSG_SEND_FAILED" "isValidWDPMessage m" "length m \<le> 120"
    and "inbox_idle b" "later - now > 100" "4 \<le> length (ci_pub_key sender)"
    and "ml_lookup libB (mm_base b) (take 4 (ci_pub_key sender)) \<noteq> None"
  shows "mm_out (sendWDPToMesh libA stack t (node_id key) m a) = mm_out a @ [Text_Sent (ci_pub_key c) (wdp_text m)] \<and>
    length (wdp_text m) < 150 \<and> 0 \<notin> set (wdp_text m) \<and>
    fst (next_datagram libB later (onMessageRecv now sender (wdp_text m) b)) =
      Some (node_id (ci_pub_key sender), m)"
proof -
  have m: "m \<noteq> []" "length m \<le> 121" using valid_length [OF assms(5)] assms(6) by auto
  have "ml_lookup libA (mm_base a) (target_prefix stack (node_id key)) = Some c"
    using assms(1) by (simp add: node_id_prefix(2) [OF assms(2)])
  then show ?thesis
    using send_message_text [OF _ assms(3,4) m(1) assms(6)] wdp_text_eq(4,5) [OF m]
      receive_message_text [OF assms(5-10)]
    by (auto simp: MESHCORE_MAX_BYTES_def)
qed


section \<open>The invariant of the queues\<close>





text \<open>A node as the constructor finds it, everything it can be told by the mesh, and its turns.\<close>

inductive node_step :: "'b mesh_lib \<Rightarrow> 'b MyMesh \<Rightarrow> 'b MyMesh \<Rightarrow> bool" for lib where
  step_recv: "length (ci_pub_key c) = 32 \<Longrightarrow> node_step lib st (onMessageRecv now c t st)"
| step_ack: "node_step lib st (processAck ack st)"
| step_path: "node_step lib st (onContactPathUpdated lib st)"
| step_contact: "node_step lib st (onDiscoveredContact lib st)"
| step_proxy: "proxy_turn lib env udp recv (st, gw) = Some ((st', gw'), acts) \<Longrightarrow> node_step lib st st'"
| step_ap: "ap_turn lib env stations connected None (st, ap) = Some (st', ap') \<Longrightarrow> node_step lib st st'"
| step_discovery: "node_step lib st (fst (startProxyDiscovery lib now (st, ap)))"


inductive_cases node_stepE: "node_step lib st st'"





















section \<open>Discovery of the proxy\<close>

text \<open>A turn of the discovery: whether an acknowledgement came since the last one, and the clock.\<close>

fun discovery_run :: "'b mesh_lib \<Rightarrow> (bool \<times> u32) list \<Rightarrow> 'b MyMesh \<times> APState \<Rightarrow> 'b MyMesh \<times> APState" where
  "discovery_run lib [] s = s"
| "discovery_run lib ((ack, now) # ts) (st, ap) =
     discovery_run lib ts (discovery_step lib now (checkProxyPingAck lib
       (if ack then processAck (le32 (expected_ack_crc st)) st else st, ap)))"


definition pings :: "ContactInfo \<Rightarrow> node_action list \<Rightarrow> nat" where
  "pings proxy acts = length (filter (\<lambda>a. a = Text_Sent (ci_pub_key proxy) ping_text) acts)"

lemma le32_inj: "le32 v = le32 w \<Longrightarrow> v = w"
  by (metis le32_back)

definition searching :: "'b MyMesh \<times> APState \<Rightarrow> nat \<Rightarrow> u32 \<Rightarrow> bool" where
  "searching s n sent \<longleftrightarrow> proxy_ping_pending (fst s) \<and> expected_ack_crc (fst s) \<noteq> 0 \<and>
     proxy_ping_sent_time (fst s) = sent \<and> ap_proxy_discovery_in_progress (snd s) \<and>
     \<not> ap_proxy_path_discovered (snd s) \<and> ap_proxy_discovery_attempts (snd s) = int n"



lemma check_waits:
  "searching (st, ap) n sent \<Longrightarrow> checkProxyPingAck lib (st, ap) = (st, ap)"
  by (simp add: searching_def checkProxyPingAck_def)







text \<open>With no ping pending, nothing ends an open search.\<close>

lemma open_search_stays:
  assumes "\<not> proxy_ping_pending st" "ap_proxy_discovery_in_progress ap" "\<not> ap_proxy_path_discovered ap"
  shows "\<exists>crc. discovery_run lib ts (st, ap) = (st\<lparr>expected_ack_crc := crc\<rparr>, ap)"
  using assms(1)
proof (induction ts arbitrary: st)
  case Nil
  then show ?case by (intro exI [of _ "expected_ack_crc st"]) simp
next
  case (Cons t ts)
  obtain ack now where t: "t = (ack, now)" by (cases t)
  let ?st = "if ack then processAck (le32 (expected_ack_crc st)) st else st"
  have st: "\<exists>crc. ?st = st\<lparr>expected_ack_crc := crc\<rparr>"
    by (auto simp: processAck_def intro: exI [of _ "expected_ack_crc st"])
  then have "\<not> proxy_ping_pending ?st" using Cons.prems by auto
  moreover from this have "discovery_run lib (t # ts) (st, ap) = discovery_run lib ts (?st, ap)"
    by (simp add: t checkProxyPingAck_def discovery_step_def isProxyPingTimedOut_def del: split_paired_All)
  ultimately show ?case using Cons.IH [of ?st] st by auto
qed

text \<open>When the library refuses a ping after a time-out, the search never ends: no ping is pending, so no
  later turn sees a time-out or an acknowledgement, the access point shows that it is searching for
  ever and no further ping is sent, although attempts are left.\<close>

theorem discovery_stuck:
  assumes "searching (st, ap) n sent" "n < 5" "now - sent > 8000"
    and "\<And>b. getProxyContact lib b = Some proxy"
    and "\<And>b time t crc. fst (ml_sendMessage lib b proxy time t crc) = MSG_SEND_FAILED"
  shows "let s = discovery_run lib ((False, now) # ts) (st, ap) in
    ap_proxy_discovery_in_progress (snd s) \<and> \<not> ap_proxy_path_discovered (snd s) \<and>
    ap_proxy_discovery_attempts (snd s) = int n + 1 \<and> pings proxy (mm_out (fst s)) = pings proxy (mm_out st)"
proof -
  define st1 where "st1 = ping_attempt lib now (st\<lparr>proxy_ping_pending := False\<rparr>)"
  define ap1 where "ap1 = ap\<lparr>ap_proxy_discovery_attempts := ap_proxy_discovery_attempts ap + 1\<rparr>"
  have st1: "\<not> proxy_ping_pending st1" "pings proxy (mm_out st1) = pings proxy (mm_out st)"
    using assms(5)
    by (auto simp: st1_def ping_attempt_def sendProxyPing_def resetProxyPath_def save_contacts_def node_out_def
        send_text_def assms(4) pings_def Let_def split: prod.splits) (metis fst_conv)+
  have "discovery_run lib ((False, now) # ts) (st, ap) = discovery_run lib ts (st1, ap1)"
    using assms(1-3) check_waits [OF assms(1)]
    by (simp add: searching_def discovery_step_def isProxyPingTimedOut_def Let_def
        ap_incrementProxyDiscoveryAttempt_def st1_def ap1_def)
  moreover obtain crc where "discovery_run lib ts (st1, ap1) = (st1\<lparr>expected_ack_crc := crc\<rparr>, ap1)"
    using open_search_stays [OF st1(1), of ap1] assms(1) by (auto simp: searching_def ap1_def)
  ultimately show ?thesis
    using st1(2) assms(1) by (simp add: searching_def ap1_def Let_def)
qed


section \<open>The queue is not a queue\<close>

text \<open>Messages can overtake each other in the queue: of three texts that arrive one after the other,
  the third takes the slot the first has left and is handed over before the second.\<close>

theorem inbox_overtakes:
  assumes m: "\<And>i. i < (3::nat) \<Longrightarrow> isValidWDPMessage (m i) \<and> length (m i) \<le> 120"
    and box: "inbox_idle st" "2 \<le> length (pending_inbox st)"
    and key: "4 \<le> length (ci_pub_key sender)" "ml_lookup lib (mm_base st) (take 4 (ci_pub_key sender)) \<noteq> None"
    and t: "t2 - t0 > 100" "t4 - t1 > 100" "t4 - t3 > 100" "t5 - t1 > 100"
  shows "let st1 = onMessageRecv t1 sender (wdp_text (m 1)) (onMessageRecv t0 sender (wdp_text (m 0)) st);
             (first, st2) = next_datagram lib t2 st1;
             (second, st3) = next_datagram lib t4 (onMessageRecv t3 sender (wdp_text (m 2)) st2);
             (third, st4) = next_datagram lib t5 st3;
             id = node_id (ci_pub_key sender)
         in first = Some (id, m 0) \<and> second = Some (id, m 2) \<and> third = Some (id, m 1)"
proof -
  obtain s0 s1 rest where slots: "pending_inbox st = s0 # s1 # rest"
    using box(2) by (cases "pending_inbox st" rule: list.exhaust; cases "tl (pending_inbox st)") auto
  have idle: "\<not> pi_active s0" "\<not> pi_active s1" using box(1) by (auto simp: inbox_idle_def slots)
  have len: "7 \<le> length (m i)" "length (m i) \<le> 120" "isValidWDPMessage (m i)" if "i < 3" for i
    using m [OF that] valid_length by auto
  define q where "q = (\<lambda>i t slot. queue_message t (ci_pub_key sender) (wdp_text (m i)) slot)"
  have q: "pi_active (q i t slot)" "pi_time (q i t slot) = t" "pi_senderIdStr (q i t slot) = node_id (ci_pub_key sender)"
    "inbox_datagram lib (mm_base st) (node_id (ci_pub_key sender), pi_wdpData (q i t slot), n) = Some (m i)"
    if "i < 3" for i t slot n
    using queued_slot [OF len(1,2) [OF that]] queued_datagram [OF len(3) [OF that] len(2) [OF that] key] by (simp_all add: q_def)
  have recv: "onMessageRecv t sender (wdp_text (m i)) x =
      x\<lparr>pending_inbox := (pending_inbox x)[j := q i t (pending_inbox x ! j)], messages_handled := messages_handled x + 1\<rparr>"
    if "i < 3" "first_index (\<lambda>x. \<not> pi_active x) (pending_inbox x) = Some j" for i j t x
    using receive_text [OF len(1,2) [OF that(1)] that(2)] by (simp add: q_def)
  have c: "\<not> pi_active (clearPendingInbox x)" for x by (simp add: clearPendingInbox_def)
  show ?thesis
    using t idle by (simp add: recv slots first_index_def q c next_datagram_def take_inbox_def Let_def)
qed

end
