(* ===== verification/NodeConsole.thy ===== *)
theory NodeConsole
  imports NodeProofs
begin

text \<open>
  The console of the node: lines typed in pieces, lines that are too long, texts for a channel that
  are too long; the reading of raw messages; and a sample node at which the properties of the node
  are applied.
\<close>

section \<open>Lines\<close>

abbreviation no_newlines :: "bytes \<Rightarrow> bytes" where
  "no_newlines cs \<equiv> filter (\<lambda>c. c \<noteq> 10) cs"

text \<open>Characters are appended to what the buffer holds.\<close>

lemma serial_read_text:
  assumes "length p + length (no_newlines cs) < 521" "length p + length junk = 521"
  shows "\<exists>junk'. serial_read cs (length p) (p @ 0 # junk) =
      (length (p @ no_newlines cs), p @ no_newlines cs @ 0 # junk', []) \<and>
    length p + length (no_newlines cs) + length junk' = 521"
  using assms
proof (induction cs arbitrary: p junk)
  case (Cons c cs)
  show ?case
  proof (cases "c = 10")
    case True
    with Cons show ?thesis by auto
  next
    case False
    obtain y zs where junk: "junk = y # zs"
      using Cons.prems False by (cases junk) auto
    have upd: "(p @ 0 # y # zs)[length p := c, Suc (length p) := 0] = (p @ [c]) @ 0 # zs"
      by (simp add: list_update_append)
    have "length (p @ [c]) + length (no_newlines cs) < 521" "length (p @ [c]) + length zs = 521"
      using Cons.prems False by (simp_all add: junk)
    from Cons.IH [OF this] upd show ?thesis
      using Cons.prems(1) False by (simp add: junk)
  qed
qed auto

definition typed :: "bytes \<Rightarrow> 'b MyMesh \<Rightarrow> bool" where
  "typed p st \<longleftrightarrow> (\<exists>junk. mm_command st = p @ 0 # junk \<and> length p + length junk = 521) \<and> 0 \<notin> set p"

lemma typed_c_str: "typed p st \<Longrightarrow> c_terminated (mm_command st) \<and> c_str (mm_command st) = p"
  by (auto simp: typed_def c_str_terminated_append)

lemma typed_read:
  assumes "typed p st" "length p + length (no_newlines cs) < 521"
  shows "\<exists>junk. serial_read cs (length (c_str (mm_command st))) (mm_command st) =
      (length (p @ no_newlines cs), p @ no_newlines cs @ 0 # junk, []) \<and>
    length p + length (no_newlines cs) + length junk = 521"
proof -
  obtain junk where cmd: "mm_command st = p @ 0 # junk" "length p + length junk = 521"
    using assms(1) by (auto simp: typed_def)
  have "c_str (p @ 0 # junk) = p" using typed_c_str [OF assms(1)] by (simp add: cmd(1))
  then show ?thesis using serial_read_text [OF assms(2) cmd(2)] by (simp add: cmd(1))
qed

text \<open>A piece without the end of the line is kept.\<close>

lemma console_piece:
  assumes "typed p st" "13 \<notin> set p" "13 \<notin> set cs" "0 \<notin> set cs" "length p + length (no_newlines cs) < 521"
  shows "\<exists>buf. console_step lib now cs st = Some (st\<lparr>mm_command := buf\<rparr>, []) \<and>
    typed (p @ no_newlines cs) (st\<lparr>mm_command := buf\<rparr>)"
proof -
  obtain junk where r: "serial_read cs (length (c_str (mm_command st))) (mm_command st) =
      (length (p @ no_newlines cs), p @ no_newlines cs @ 0 # junk, [])"
    and len: "length p + length (no_newlines cs) + length junk = 521"
    using typed_read [OF assms(1,5)] by blast
  let ?t = "p @ no_newlines cs"
  have "(?t @ 0 # junk) ! (length ?t - 1) \<noteq> 13" if "?t \<noteq> []"
  proof -
    have "?t ! (length ?t - 1) \<in> set ?t" using that by (intro nth_mem) simp
    then have "?t ! (length ?t - 1) \<noteq> 13" using assms(2,3) by auto
    moreover have "(?t @ 0 # junk) ! (length ?t - 1) = ?t ! (length ?t - 1)"
      using that by (simp only: nth_append) simp
    ultimately show ?thesis by simp
  qed
  then have "console_step lib now cs st = Some (st\<lparr>mm_command := ?t @ 0 # junk\<rparr>, [])"
    using typed_c_str [OF assms(1)] assms(5) unfolding console_step_def r
    by (cases "?t = []") (auto simp: Let_def)
  moreover have "typed ?t (st\<lparr>mm_command := ?t @ 0 # junk\<rparr>)"
    using assms(1,4) len by (auto simp: typed_def)
  ultimately show ?thesis by blast
qed

text \<open>The piece that ends it hands over the line.\<close>

lemma console_end:
  assumes "typed p st" "0 \<notin> set cs" "length p + length (no_newlines cs) < 520"
  shows "\<exists>buf. c_str buf = p @ no_newlines cs \<and> length buf = 522 \<and>
    console_step lib now (cs @ [13]) st =
      map_option (\<lambda>st. (st\<lparr>mm_command := (mm_command st)[0 := 0]\<rparr>, []))
        (handleCommand lib now (p @ no_newlines cs) (st\<lparr>mm_command := buf\<rparr>))"
proof -
  let ?t = "p @ no_newlines cs"
  obtain junk where r: "serial_read (cs @ [13]) (length (c_str (mm_command st))) (mm_command st) =
      (length (?t @ [13]), ?t @ 13 # 0 # junk, [])"
    and len: "length ?t + length junk = 520"
    using typed_read [OF assms(1), of "cs @ [13]"] assms(3) by auto
  have at: "(?t @ 13 # 0 # junk) ! length ?t = 13" "(?t @ 13 # 0 # junk)[length ?t := 0] = ?t @ 0 # 0 # junk"
    by (simp_all only: nth_append_length list_update_length)
  have t: "c_str (?t @ 0 # 0 # junk) = ?t"
    by (rule c_str_terminated_append) (use assms(1,2) in \<open>auto simp: typed_def\<close>)
  have "console_step lib now (cs @ [13]) st =
      map_option (\<lambda>st. (st\<lparr>mm_command := (mm_command st)[0 := 0]\<rparr>, []))
        (handleCommand lib now ?t (st\<lparr>mm_command := ?t @ 0 # 0 # junk\<rparr>))"
    using typed_c_str [OF assms(1)] at t assms(3) unfolding console_step_def r
    by (auto simp: Let_def split: option.split)
  moreover have "length (?t @ 0 # 0 # junk) = 522" using len by simp
  ultimately show ?thesis using t by blast
qed

fun console_run :: "'b mesh_lib \<Rightarrow> (u32 \<times> bytes) list \<Rightarrow> 'b MyMesh \<Rightarrow> 'b MyMesh option" where
  "console_run lib [] st = Some st"
| "console_run lib ((now, cs) # ps) st =
     (case console_step lib now cs st of None \<Rightarrow> None | Some (st, rest) \<Rightarrow> console_run lib ps st)"

text \<open>A line typed at the console reaches the command interpreter exactly, however many turns its
  characters are spread over: newline characters are dropped, the return ends it, and the buffer is
  empty afterwards.  This holds for lines of less than 520 characters.\<close>

theorem console_line:
  assumes "typed p st" "13 \<notin> set p"
    and "\<forall>(t, cs) \<in> set pieces. 0 \<notin> set cs \<and> 13 \<notin> set cs" "0 \<notin> set cs"
    and "length p + length (no_newlines (List.concat (map snd pieces) @ cs)) < 520"
  shows "\<exists>buf. c_str buf = p @ no_newlines (List.concat (map snd pieces) @ cs) \<and>
    console_run lib (pieces @ [(now, cs @ [13])]) st =
      map_option (\<lambda>st. st\<lparr>mm_command := (mm_command st)[0 := 0]\<rparr>)
        (handleCommand lib now (p @ no_newlines (List.concat (map snd pieces) @ cs)) (st\<lparr>mm_command := buf\<rparr>))"
  using assms
proof (induction pieces arbitrary: p st)
  case Nil
  then obtain buf where "c_str buf = p @ no_newlines cs" and
    "console_step lib now (cs @ [13]) st = map_option (\<lambda>st. (st\<lparr>mm_command := (mm_command st)[0 := 0]\<rparr>, []))
      (handleCommand lib now (p @ no_newlines cs) (st\<lparr>mm_command := buf\<rparr>))"
    using console_end [of p st cs lib now] by auto
  then show ?case
    by (intro exI [of _ buf]) (cases "handleCommand lib now (p @ no_newlines cs) (st\<lparr>mm_command := buf\<rparr>)"; simp)
next
  case (Cons piece pieces)
  obtain t x where piece: "piece = (t, x)" by (cases piece)
  obtain buf where buf: "console_step lib t x st = Some (st\<lparr>mm_command := buf\<rparr>, [])"
    "typed (p @ no_newlines x) (st\<lparr>mm_command := buf\<rparr>)"
    using console_piece [of p st x lib t] Cons.prems by (auto simp: piece)
  show ?case
    using Cons.IH [OF buf(2)] Cons.prems by (simp add: piece buf(1))
qed

lemma serial_read_full:
  assumes "10 \<notin> set cs" "length p + length junk = 521" "521 \<le> length p + length cs"
  shows "serial_read cs (length p) (p @ 0 # junk) =
    (521, p @ take (521 - length p) cs @ [0], drop (521 - length p) cs)"
  using assms
proof (induction cs arbitrary: p junk)
  case (Cons c cs)
  show ?case
  proof (cases junk)
    case Nil
    with Cons.prems show ?thesis by simp
  next
    case (Cons y zs)
    have upd: "(p @ 0 # y # zs)[length p := c, Suc (length p) := 0] = (p @ [c]) @ 0 # zs"
      by (simp add: list_update_append)
    have "521 - length p = Suc (521 - length (p @ [c]))" using Cons.prems Cons by simp
    moreover have "length (p @ [c]) + length zs = 521" using Cons.prems Cons by simp
    ultimately show ?thesis
      using Cons.IH [of "p @ [c]" zs] Cons.prems Cons upd by simp
  qed
next
  case (Nil p junk)
  then have "length junk = 0" unfolding list.size by linarith
  with Nil show ?case by simp
qed

text \<open>A line that is too long is a fault: when 521 characters have been read without a return, the
  code looks for the return one position before the one it puts it in, finds none, and the next
  turn's \<open>strlen\<close> runs past the end of the buffer.\<close>

theorem long_line_overread:
  assumes "typed [] st" "0 \<notin> set cs" "10 \<notin> set cs" "521 \<le> length cs" "cs ! 520 \<noteq> 13"
  shows "\<exists>st' rest. console_step lib now cs st = Some (st', rest) \<and> console_step lib later further st' = None"
proof -
  obtain junk where cmd: "mm_command st = 0 # junk" "length junk = 521"
    using assms(1) by (auto simp: typed_def)
  let ?full = "take 521 cs"
  have r: "serial_read cs (length (c_str (mm_command st))) (mm_command st) = (521, ?full @ [0], drop 521 cs)"
    using serial_read_full [of cs "[]" junk] assms(3,4) cmd typed_c_str [OF assms(1)] by simp
  have full: "length ?full = 521" using assms(4) by simp
  have "(?full @ [0])[length ?full := 13] = ?full @ [13]" by (simp only: list_update_length)
  then have upd: "(?full @ [0])[521 := 13] = ?full @ [13]" by (simp only: full)
  have "(?full @ [13]) ! 520 \<noteq> 13" "(?full @ [0]) ! 520 \<noteq> 13"
    using assms(5) full by (simp_all add: nth_append)
  then have "console_step lib now cs st = Some (st\<lparr>mm_command := ?full @ [13]\<rparr>, drop 521 cs)"
    using typed_c_str [OF assms(1)] unfolding console_step_def r by (simp add: Let_def upd)
  moreover have "\<not> c_terminated (?full @ [13])"
    using assms(2) by (auto simp: c_terminated_def list_ex_iff dest: in_set_takeD)
  ultimately show ?thesis by (auto simp: console_step_def)
qed

text \<open>A text for a channel is not checked against the array it is printed to: with the library's limit
  of at most 470 characters a command line of less than 520 characters overruns it.\<close>

theorem channel_text_overflow:
  assumes "ml_maxText lib \<le> 470" "500 \<le> length msg"
  shows "handleCommand lib now (str ''public '' @ msg) st = None \<and>
    handleCommand lib now (str ''mc-radar '' @ msg) st = None"
  using assms by (auto simp: handleCommand_def starts_def channel_text_def Let_def str_Cons)

section \<open>Raw messages\<close>

text \<open>The reading of a text as a raw message, kept for older senders, does not work: a raw message with
  a valid header is read as Base91 first, and its payload is enough for that to yield something.\<close>

theorem raw_message_rejected:
  "let raw = simple_message 2001 9218 (str ''GET /'') in
     isValidWDPMessage raw \<and> 0 \<notin> set raw \<and>
     inbox_datagram lib b (sender, pi_wdpData (queue_message now key raw slot), n) = None"
proof -
  define raw where "raw = simple_message 2001 9218 (str ''GET /'')"
  have raw: "raw = [6, 5, 4, 36, 2, 7, 209, 71, 69, 84, 32, 47]" unfolding raw_def by code_simp
  have nul: "0 \<notin> set raw" unfolding raw by simp
  obtain junk where "pi_wdpData (queue_message now key raw slot) = raw @ 0 # junk"
    by (simp add: queue_message_def raw)
  then have "Base91_decode (Some (pi_wdpData (queue_message now key raw slot))) False 256 = Base91_decode (Some raw) False 256"
    using Base91_decode_c_str [of "raw @ 0 # junk" False 256] c_str_terminated_append [OF nul]
    by simp
  moreover have "fst (Base91_decode (Some raw) False 256) = 4 \<and>
      \<not> isValidWDPMessage (take 4 (snd (Base91_decode (Some raw) False 256)))"
    unfolding raw by code_simp
  ultimately have "inbox_datagram lib b (sender, pi_wdpData (queue_message now key raw slot), n) = None"
    by (cases "Base91_decode (Some raw) False 256") (auto simp: inbox_datagram_def)
  moreover have "isValidWDPMessage raw" unfolding raw by code_simp
  ultimately show ?thesis using nul by (simp add: Let_def flip: raw_def)
qed


section \<open>A node to apply them to\<close>

definition sample_lib :: "send_result \<Rightarrow> ContactInfo \<Rightarrow> unit mesh_lib" where
  "sample_lib result c =
     \<lparr>ml_lookup = \<lambda>b p. Some c, ml_sendMessage = \<lambda>b c t x crc. (result, 1, ()), ml_addContact = \<lambda>c b. (True, ()),
      ml_resetPathTo = \<lambda>c b. (), ml_contacts = \<lambda>b. [c], ml_room = \<lambda>b. 10000, ml_search = \<lambda>b p. Some c,
      ml_fromHex = \<lambda>n x. None, ml_isHexChar = is_hex, ml_importContact = \<lambda>x b. (), ml_createSelfAdvert = \<lambda>b p. None,
      ml_createGroupDatagram = \<lambda>b r x. Some x, ml_maxText = 160, ml_chatType = 1, ml_strncpy = \<lambda>s n. take (n - 1) s,
      ml_atof = \<lambda>s. 0, ml_atoi = \<lambda>s. 0\<rparr>"

definition sample_prefs :: NodePrefs where
  "sample_prefs = \<lparr>np_airtime_factor = 0, np_node_name = [], np_node_lat = 0, np_node_lon = 0, np_freq = 0,
     np_tx_power_dbm = 22\<rparr>"

definition empty_inbox_slot :: PendingInbox where
  "empty_inbox_slot = \<lparr>pi_active = False, pi_time = 0, pi_senderIdStr = [], pi_wdpData = replicate 256 0, pi_wdpLen = 0\<rparr>"

definition sample_node :: "unit MyMesh" where
  "sample_node =
     \<lparr>mm_base = (), prefs = sample_prefs, expected_ack_crc = 1, last_msg_sent = 0, curr_recipient = None,
      mm_command = replicate 522 0, pending_inbox = replicate 16 empty_inbox_slot,
      pending_replies = replicate 16 \<lparr>pr_active = False, pr_time = 0, pr_senderPubKey = [], pr_replyText = []\<rparr>,
      messages_handled = 0, proxy_ping_pending = True, proxy_ping_sent_time = 0, mm_rtc = 5, mm_out = []\<rparr>"

lemma sample_lib_simps [simp]:
  "ml_lookup (sample_lib r c) b p = Some c" "ml_sendMessage (sample_lib r c) b d t x crc = (r, 1, ())"
  "ml_maxText (sample_lib r c) = 160" "getProxyContact (sample_lib r c) b = Some c"
  by (simp_all add: sample_lib_def getProxyContact_def PROXY_NODE_PUBKEY_def)

lemma sample_node_idle: "inbox_idle sample_node"
  by (simp add: inbox_idle_def sample_node_def empty_inbox_slot_def)

lemma sample_key: "length (ci_pub_key (sample_contact x)) = 32"
  by (simp add: sample_contact_def)

lemma sample_typed: "typed [] sample_node"
proof -
  have "replicate 522 (0 :: u8) = 0 # replicate 521 0"
    by (simp flip: replicate_Suc)
  then show ?thesis by (auto simp: typed_def sample_node_def)
qed

theorem message_travels_witness:
  "mm_out (sendWDPToMesh (sample_lib MSG_SEND_SENT_DIRECT (sample_contact 9)) [] 50 (node_id (replicate 32 9))
      (simple_message 2001 9218 [1, 2, 3]) sample_node) =
     [Text_Sent (replicate 32 9) (wdp_text (simple_message 2001 9218 [1, 2, 3]))] \<and>
   fst (next_datagram (sample_lib MSG_SEND_SENT_DIRECT (sample_contact 7)) 500
      (onMessageRecv 100 (sample_contact 7) (wdp_text (simple_message 2001 9218 [1, 2, 3])) sample_node)) =
     Some (node_id (replicate 32 7), simple_message 2001 9218 [1, 2, 3])"
  using message_travels [of "sample_lib MSG_SEND_SENT_DIRECT (sample_contact 9)" sample_node "replicate 32 9"
      "sample_contact 9" "simple_message 2001 9218 [1, 2, 3]" MSG_SEND_SENT_DIRECT 1 "()" sample_node 500 100
      "sample_contact 7" "sample_lib MSG_SEND_SENT_DIRECT (sample_contact 7)" "[]" 50]
  by (simp add: simple_is_valid parse_simple_message sample_node_idle sample_key)
    (simp add: sample_node_def sample_contact_def)



theorem discovery_stuck_witness:
  "ap_proxy_discovery_in_progress (snd (discovery_run (sample_lib MSG_SEND_FAILED (sample_contact 7))
     [(False, 9000), (False, 18000), (True, 27000)]
     (sample_node, ap_zero\<lparr>ap_proxy_discovery_in_progress := True, ap_proxy_discovery_attempts := 2\<rparr>)))"
proof -
  have "searching (sample_node, ap_zero\<lparr>ap_proxy_discovery_in_progress := True, ap_proxy_discovery_attempts := 2\<rparr>) 2 0"
    by (simp add: searching_def sample_node_def ap_zero_def)
  from discovery_stuck [OF this, of 9000 "sample_lib MSG_SEND_FAILED (sample_contact 7)" "sample_contact 7"
      "[(False, 18000), (True, 27000)]"]
  show ?thesis by (simp add: Let_def del: discovery_run.simps)
qed

theorem inbox_overtakes_witness:
  "fst (next_datagram (sample_lib MSG_SEND_FAILED (sample_contact 7)) 250
     (onMessageRecv 120 (sample_contact 7) (wdp_text (simple_message 1 2 [2]))
       (snd (next_datagram (sample_lib MSG_SEND_FAILED (sample_contact 7)) 110
         (onMessageRecv 50 (sample_contact 7) (wdp_text (simple_message 1 2 [1]))
           (onMessageRecv 0 (sample_contact 7) (wdp_text (simple_message 1 2 [0])) sample_node)))))) =
   Some (node_id (replicate 32 7), simple_message 1 2 [2])"
proof -
  have "isValidWDPMessage (simple_message 1 2 [of_nat i]) \<and> length (simple_message 1 2 [of_nat i]) \<le> 120" for i :: nat
    by (simp add: simple_is_valid parse_simple_message)
  from inbox_overtakes [of "\<lambda>i. simple_message 1 2 [of_nat i]", OF this sample_node_idle, of "sample_contact 7"
      "sample_lib MSG_SEND_FAILED (sample_contact 7)" 110 0 250 50 120 260]
  show ?thesis
    by (simp add: sample_key Let_def split_beta) (simp add: sample_node_def sample_contact_def split_beta)
qed

theorem console_line_witness:
  "\<exists>buf. c_str buf = str ''time 7'' \<and>
     console_run (sample_lib MSG_SEND_FAILED (sample_contact 7)) [(1, str ''ti''), (2, str ''me 7'' @ [13])] sample_node =
       map_option (\<lambda>st. st\<lparr>mm_command := (mm_command st)[0 := 0]\<rparr>)
         (handleCommand (sample_lib MSG_SEND_FAILED (sample_contact 7)) 2 (str ''time 7'') (sample_node\<lparr>mm_command := buf\<rparr>))"
  using console_line [OF sample_typed, of "[(1, str ''ti'')]" "str ''me 7''" "sample_lib MSG_SEND_FAILED (sample_contact 7)" 2]
  by (simp add: str_Cons)

theorem long_line_overread_witness:
  "\<exists>st' rest. console_step (sample_lib MSG_SEND_FAILED (sample_contact 7)) 1 (replicate 530 65) sample_node = Some (st', rest) \<and>
     console_step (sample_lib MSG_SEND_FAILED (sample_contact 7)) 2 [] st' = None"
  using long_line_overread [OF sample_typed, of "replicate 530 65" "sample_lib MSG_SEND_FAILED (sample_contact 7)" 1 2 "[]"]
  by simp

theorem channel_text_overflow_witness:
  "handleCommand (sample_lib MSG_SEND_FAILED (sample_contact 7)) 1 (str ''public '' @ replicate 500 65) sample_node = None"
  using channel_text_overflow [of "sample_lib MSG_SEND_FAILED (sample_contact 7)" "replicate 500 65" 1 sample_node] by simp

end
