(* ===== verification/ApProofs.thy ===== *)
theory ApProofs
  imports ApMode
begin

text \<open>
  What the access point promises: its copies of the datagram code agree with the proxy's, the
  reassembler is an instance of the common interface, a datagram from the proxy ends up whole in the
  response buffer, and what the HTTP client is sent.
\<close>

section \<open>The copies agree\<close>

lemma ap_parse_eq: "ap_parseUDH = parseUDH" "ap_parseConcatUDH = parseConcatUDH"
  "ap_clearConcatMessage = clearConcatMessage"
  by (auto simp: fun_eq_iff ap_parseUDH_def parseUDH_def ap_parseConcatUDH_def parseConcatUDH_def
      ap_clearConcatMessage_def clearConcatMessage_def)

lemma ap_messages_eq: "ap_messages = wdp_messages"
  by (simp add: fun_eq_iff ap_messages_def wdp_messages_def simple_message_def concat_message_def
      count_parts_def part_payload_def Let_def)

text \<open>The access point's own copies of the header parsers, of the routine that frees a slot and of the
  fragmentation compute the same as the proxy's, so that what one side sends the other side reads.\<close>

theorem ap_copies_agree:
  "ap_parseUDH data = parseUDH data \<and> ap_parseConcatUDH data = parseConcatUDH data \<and>
   ap_clearConcatMessage c = clearConcatMessage c \<and> ap_messages now s d data = wdp_messages now s d data"
  by (simp add: ap_parse_eq ap_messages_eq)

section \<open>Reassembly\<close>

interpretation ap_reassembly: reassembler ap_slot 4096
proof
  fix refNum totalParts :: u8 and sender :: bytes and table :: "ConcatMessage list"
    and i :: nat and now :: u32 and udh :: UDH
  assume "find_slot cm_active concat_key (refNum, sender) table = None"
    "first_index (\<lambda>c. \<not> cm_active c) table = Some i" "slots_sized 4096 table"
  then show "\<exists>c. ap_slot now sender refNum totalParts udh table = Some (i, table[i := c]) \<and>
      opened_for 4096 sender refNum totalParts udh c"
    by (auto simp: ap_slot_def opened_for_def)
qed (auto simp: ap_slot_def)

text \<open>\<open>decode\<close> starts from a cleared response.\<close>

lemma decode_start: "decode (Some d) (Some r) = None \<longleftrightarrow> decode (Some d) (Some zero_response) = None"
  by (simp add: decode_def)

lemma decode_some:
  "decode (Some d) (Some r) = Some (ok, ro) \<Longrightarrow> \<exists>r'. ro = Some r'"
  by (auto simp: decode_def decodeWithoutTID_def Let_def split: if_splits option.splits prod.splits)

text \<open>The part of the state that early headers and streaming leave alone.\<close>

definition same_response :: "APState \<Rightarrow> APState \<Rightarrow> bool" where
  "same_response st st' \<longleftrightarrow>
     ap_meshResponseBuffer st' = ap_meshResponseBuffer st \<and> ap_meshResponseLen st' = ap_meshResponseLen st \<and>
     ap_meshResponseReady st' = ap_meshResponseReady st \<and> ap_currentRequestPort st' = ap_currentRequestPort st \<and>
     ap_concatMessages st' = ap_concatMessages st \<and> ap_waitingClient st' = ap_waitingClient st \<and>
     ap_meshLoopCallback st' = ap_meshLoopCallback st \<and> ap_httpServer st' = ap_httpServer st"

lemma same_response_refl [simp]: "same_response st st"
  by (simp add: same_response_def)

lemma same_response_trans: "same_response a b \<Longrightarrow> same_response b c \<Longrightarrow> same_response a c"
  by (simp add: same_response_def)

lemma same_response_write [simp]: "same_response st (client_write x st)"
  by (simp add: same_response_def client_write_def)

lemma same_response_updates [simp]:
  "same_response st (st'\<lparr>ap_earlyResponse := r\<rparr>) \<longleftrightarrow> same_response st st'"
  "same_response st (st'\<lparr>ap_isWMLC := b\<rparr>) \<longleftrightarrow> same_response st st'"
  "same_response st (st'\<lparr>ap_headersSent := b\<rparr>) \<longleftrightarrow> same_response st st'"
  "same_response st (st'\<lparr>ap_bodyBytesReceived := n\<rparr>) \<longleftrightarrow> same_response st st'"
  "same_response st (st'\<lparr>ap_lastPartReceivedTime := t\<rparr>) \<longleftrightarrow> same_response st st'"
  "same_response st (st'\<lparr>ap_wdpReceivedParts := n\<rparr>) \<longleftrightarrow> same_response st st'"
  "same_response st (st'\<lparr>ap_wdpTotalParts := n\<rparr>) \<longleftrightarrow> same_response st st'"
  "same_response st (client_write x st') \<longleftrightarrow> same_response st st'"
  by (simp_all add: same_response_def client_write_def)

text \<open>What the early headers do once the first part decodes.\<close>

definition early_sent :: "HTTPResponse \<Rightarrow> APState \<Rightarrow> APState" where
  "early_sent r st =
     (let st = client_write (early_head (is_wmlc r) r) (st\<lparr>ap_earlyResponse := r, ap_isWMLC := is_wmlc r\<rparr>);
          st = (case body r of
                  Some b \<Rightarrow>
                    if \<not> is_wmlc r \<and> 0 < bodyLen r
                    then (client_write b st)\<lparr>ap_bodyBytesReceived := bodyLen r\<rparr> else st
                | None \<Rightarrow> st)
      in st\<lparr>ap_headersSent := True\<rparr>)"

lemma trySend_eq:
  "ap_trySendEarlyHeaders x st =
     (if \<not> ap_waitingClient st \<or> ap_headersSent st then Some (False, st)
      else
        (case decode (Some x) (Some (ap_earlyResponse st)) of
           None \<Rightarrow> None
         | Some (ok, r) \<Rightarrow>
             if ok then Some (True, early_sent (the r) st)
             else Some (False, st\<lparr>ap_earlyResponse := the r\<rparr>)))"
  by (auto simp: ap_trySendEarlyHeaders_def early_sent_def Let_def split: option.split prod.split)

lemma early_sent_same [simp]: "same_response st (early_sent r st)"
  by (simp add: early_sent_def Let_def split: option.split)

lemma trySend_same:
  "ap_trySendEarlyHeaders x st = Some (ok, st') \<Longrightarrow> same_response st st'"
  by (auto simp: trySend_eq split: if_splits option.splits)

lemma trySend_none:
  "ap_trySendEarlyHeaders x st = None \<Longrightarrow> decode (Some x) (Some zero_response) = None"
  by (auto simp: trySend_eq decode_start [of x "ap_earlyResponse st"] split: if_splits option.splits)

lemma part_stored_same:
  "ap_part_stored now con p x c st = Some st' \<Longrightarrow> same_response st st'"
  by (auto simp: ap_part_stored_def Let_def split: if_splits dest!: trySend_same elim: same_response_trans [rotated])

lemma part_stored_time:
  "ap_part_stored now con p x c st = Some st' \<Longrightarrow> ap_lastPartReceivedTime st' = now"
  by (auto simp: ap_part_stored_def Let_def trySend_eq early_sent_def client_write_def
      split: if_splits option.splits)

lemma part_stored_none:
  "ap_part_stored now con p x c st = None \<Longrightarrow> p = 1 \<and> decode (Some x) (Some zero_response) = None"
  by (auto simp: ap_part_stored_def Let_def split: if_splits dest!: trySend_none)

text \<open>The handler of a part does with the table what \<open>concat_step\<close> does.\<close>

lemma handleConcat_step:
  assumes h: "ap_handleConcat now con from hdr x st = Some st'"
    and t: "concat_step ap_slot now from hdr x (ap_concatMessages st) = (table, out)"
  shows "ap_concatMessages st' = table"
    "out = None \<Longrightarrow> same_response (st\<lparr>ap_concatMessages := table\<rparr>) st'"
    "out = Some c \<Longrightarrow> \<exists>st1. same_response st st1 \<and> st' = (ap_complete c st1)\<lparr>ap_concatMessages := table\<rparr>"
proof -
  obtain r n p udh where hdr: "hdr = (r, n, p, udh)" by (cases hdr)
  have "ap_concatMessages st' = table \<and>
    (out = None \<longrightarrow> same_response (st\<lparr>ap_concatMessages := table\<rparr>) st') \<and>
    (\<forall>c. out = Some c \<longrightarrow> (\<exists>st1. same_response st st1 \<and> st' = (ap_complete c st1)\<lparr>ap_concatMessages := table\<rparr>))"
  proof (cases "ap_slot now from r n udh (ap_concatMessages st)")
    case None
    then show ?thesis using h t by (auto simp: ap_handleConcat_def concat_step_def hdr)
  next
    case (Some it)
    obtain i tab where it: "it = (i, tab)" by (cases it)
    define st0 where "st0 = (if find_slot cm_active concat_key (r, from) (ap_concatMessages st) = None
      then st\<lparr>ap_wdpTotalParts := unat n, ap_wdpReceivedParts := 0\<rparr> else st)"
    have s0: "same_response st st0" by (simp add: st0_def same_response_def)
    define c where "c = store_part now p x (tab ! i)"
    define nxt where "nxt = (if accepts_part p x (tab ! i) then ap_part_stored now con p x c st0 else Some st0)"
    have eq: "ap_handleConcat now con from hdr x st =
      (case nxt of None \<Rightarrow> None
       | Some st1 \<Rightarrow> if concat_complete c
           then Some ((ap_complete c st1)\<lparr>ap_concatMessages := tab[i := clearConcatMessage c]\<rparr>)
           else Some (st1\<lparr>ap_concatMessages := tab[i := c]\<rparr>))"
      by (simp only: ap_handleConcat_def hdr Some it option.case prod.case Let_def ap_parse_eq c_def st0_def nxt_def)
    then obtain st1 where st1: "nxt = Some st1" using h by (cases nxt) auto
    then have s1: "same_response st st1"
      using s0 part_stored_same [of now con p x c st0 st1]
      by (auto simp: nxt_def split: if_splits intro: same_response_trans)
    have "st' = (if concat_complete c then (ap_complete c st1)\<lparr>ap_concatMessages := tab[i := clearConcatMessage c]\<rparr>
        else st1\<lparr>ap_concatMessages := tab[i := c]\<rparr>)"
      using h eq st1 by (simp split: if_splits)
    moreover have "(table, out) =
        (if concat_complete c then (tab[i := clearConcatMessage c], Some c) else (tab[i := c], None))"
      unfolding t [symmetric] by (simp add: concat_step_def hdr Some it c_def Let_def)
    ultimately show ?thesis
      using s1 by (auto simp: same_response_def split: if_splits)
  qed
  then show "ap_concatMessages st' = table"
    "out = None \<Longrightarrow> same_response (st\<lparr>ap_concatMessages := table\<rparr>) st'"
    "out = Some c \<Longrightarrow> \<exists>st1. same_response st st1 \<and> st' = (ap_complete c st1)\<lparr>ap_concatMessages := table\<rparr>"
    by blast+
qed

lemma handleConcat_none:
  assumes "ap_handleConcat now con from (r, n, p, udh) x st = None"
  shows "p = 1 \<and> decode (Some x) (Some zero_response) = None"
  using assms by (auto simp: ap_handleConcat_def Let_def split: option.splits if_splits dest!: part_stored_none)

section \<open>A whole datagram\<close>

text \<open>Messages from one node, with the time and whether the HTTP client is connected.\<close>

fun ap_run :: "bytes \<Rightarrow> (u32 \<times> bool \<times> bytes) list \<Rightarrow> APState \<Rightarrow> APState option" where
  "ap_run from [] st = Some st"
| "ap_run from ((now, con, data) # ms) st =
     (case ap_handleIncomingMesh now con from data st of None \<Rightarrow> None | Some st \<Rightarrow> ap_run from ms st)"

lemma handle_part_message:
  "ap_handleIncomingMesh now con from (part_message r s d msg p) st =
     ap_handleConcat now con from (r, of_nat (count_parts (length msg)), of_nat p, concat_header s d)
       (part_payload msg p) st"
  by (simp add: ap_handleIncomingMesh_def part_message_def ap_parse_eq parse_concat_message)

lemma part_one:
  assumes "(of_nat p :: u8) = 1" "1 \<le> p" "p \<le> 16"
  shows "p = 1"
  using arg_cong [OF assms(1), of unat] part_u8 [OF assms(3)] by simp

lemma ap_run_quiet:
  assumes n: "count_parts (length msg) \<le> 16"
    and dec: "decode (Some (part_payload msg 1)) (Some zero_response) \<noteq> None"
  shows "concat_run ap_slot from (part_sequence r (concat_header s d) msg ps) (ap_concatMessages st) = (t, []) \<Longrightarrow>
    snd ` set ps \<subseteq> {1..count_parts (length msg)} \<Longrightarrow> length con = length ps \<Longrightarrow>
    \<exists>st'. ap_run from (map2 (\<lambda>(now, p) c. (now, c, part_message r s d msg p)) ps con) st = Some st' \<and>
      same_response (st\<lparr>ap_concatMessages := t\<rparr>) st'"
proof (induction ps arbitrary: st con)
  case Nil
  then show ?case by (simp add: part_sequence_def same_response_def)
next
  case (Cons np ps)
  obtain now p where np: "np = (now, p)" by (cases np)
  obtain c cs where con: "con = c # cs" using Cons.prems(3) by (cases con) auto
  let ?n = "of_nat (count_parts (length msg)) :: u8" and ?x = "part_payload msg p"
  have p: "1 \<le> p" "p \<le> 16" using Cons.prems(2) n by (auto simp: np)
  obtain t1 r1 where st: "concat_step ap_slot now from (r, ?n, of_nat p, concat_header s d) ?x
      (ap_concatMessages st) = (t1, r1)" by fastforce
  have r1: "r1 = None" "concat_run ap_slot from (part_sequence r (concat_header s d) msg ps) t1 = (t, [])"
    using Cons.prems(1) by (auto simp: np part_sequence_def st split: prod.splits option.splits)
  obtain st1 where h: "ap_handleConcat now c from (r, ?n, of_nat p, concat_header s d) ?x st = Some st1"
    using handleConcat_none [of now c _ r ?n "of_nat p" "concat_header s d" ?x st] part_one [OF _ p] dec
    by (metis option.exhaust)
  note s1 = handleConcat_step(1,2) [OF h st]
  have "same_response (st\<lparr>ap_concatMessages := t1\<rparr>) st1" using s1(2) r1(1) by blast
  obtain st' where "ap_run from (map2 (\<lambda>(now, p) c. (now, c, part_message r s d msg p)) ps cs) st1 = Some st'"
    "same_response (st1\<lparr>ap_concatMessages := t\<rparr>) st'"
    using Cons.IH [of st1 cs] r1(2) s1(1) Cons.prems(2,3) con by auto
  then show ?case
    using h \<open>same_response (st\<lparr>ap_concatMessages := t1\<rparr>) st1\<close>
    by (auto simp: np con handle_part_message same_response_def)
qed

lemma ap_parts_of_messages:
  assumes "(snd \<circ> snd) ` set ms \<subseteq> f ` A"
  shows "\<exists>ps con. length con = length ps \<and> ms = map2 (\<lambda>(now, p) c. (now, c, f p)) ps con \<and> snd ` set ps \<subseteq> A"
  using assms
proof (induction ms)
  case Nil
  then show ?case by (intro exI [of _ "[]"]) simp
next
  case (Cons m ms)
  then obtain ps con where ps: "length con = length ps" "ms = map2 (\<lambda>(now, p) c. (now, c, f p)) ps con"
    "snd ` set ps \<subseteq> A" by auto
  obtain now c x where m: "m = (now, c, x)" by (cases m)
  obtain p where "p \<in> A" "x = f p" using Cons.prems by (auto simp: m)
  with ps m show ?case
    by (intro exI [of _ "(now, p) # ps"] exI [of _ "c # con"]) auto
qed

lemma map2_parts_image:
  assumes "length con = length ps"
  shows "(snd \<circ> snd) ` set (map2 (\<lambda>(now, p) c. (now, c, f p)) ps con) = f ` snd ` set ps"
  using assms by (induction ps con rule: list_induct2') (auto simp: split_beta)

lemma write_at_start: "take (length x) (write_at 0 x b) = x"
  by (simp add: write_at_def)

text \<open>C8: The answer the proxy sends as several messages (114 to 1728 bytes) reaches the response buffer
  whole, whatever order its messages arrive in and however often they are repeated; until the last
  one arrives no response is reported, and then the port is closed to further answers and the slot
  free.  It must be addressed to the port of the request in progress, if one is.\<close>

theorem ap_receives_datagram:
  assumes long: "113 < length data" and len: "length data \<le> 1728"
    and fresh: "find_slot cm_active concat_key (ucast (t AND 0xFF), from) (ap_concatMessages st) = None"
    and free: "first_index (\<lambda>c. \<not> cm_active c) (ap_concatMessages st) = Some i"
    and sized: "slots_sized 4096 (ap_concatMessages st)"
    and port: "ap_currentRequestPort st = 0 \<or> ap_currentRequestPort st = dstPort"
    and dec: "decode (Some (part_payload data 1)) (Some zero_response) \<noteq> None"
    and all: "insert m ((snd \<circ> snd) ` set ms) = set (wdp_messages t srcPort dstPort data)"
    and new: "m \<notin> (snd \<circ> snd) ` set ms"
  shows "\<exists>st'. ap_run from ms st = Some st' \<and> ap_meshResponseReady st' = ap_meshResponseReady st \<and>
    ap_currentRequestPort st' = ap_currentRequestPort st \<and>
    (\<exists>st''. ap_handleIncomingMesh now con from m st' = Some st'' \<and> ap_meshResponseReady st'' \<and>
      take (ap_meshResponseLen st'') (ap_meshResponseBuffer st'') = data \<and>
      ap_currentRequestPort st'' = 0 \<and> \<not> cm_active (ap_concatMessages st'' ! i))"
proof -
  let ?r = "ucast (t AND 0xFF) :: u8" and ?n = "count_parts (length data)"
  let ?f = "part_message ?r srcPort dstPort data" and ?hdr = "concat_header srcPort dstPort"
  have n: "?n \<le> 16" by (rule count_parts_le [OF len])
  from ap_parts_of_messages [OF messages_subset [OF long all]] obtain ps cs where
    ps: "length cs = length ps" "ms = map2 (\<lambda>(now, p) c. (now, c, ?f p)) ps cs" "snd ` set ps \<subseteq> {1..?n}"
    by blast
  have "(snd \<circ> snd) ` set ms = ?f ` snd ` set ps"
    unfolding ps(2) by (rule map2_parts_image [OF ps(1)])
  from datagram_parts [OF long len all new this ps(3)]
  obtain p where p16: "1 \<le> p" "p \<le> 16" and p: "m = ?f p" and pn: "p \<notin> snd ` set ps"
    and cover: "snd ` set (ps @ [(now, p)]) = {1..?n}" by blast
  obtain tab c where run: "concat_run ap_slot from (part_sequence ?r ?hdr data ps) (ap_concatMessages st) = (tab, [])"
    and step: "concat_step ap_slot now from (?r, of_nat ?n, of_nat p, ?hdr) (part_payload data p) tab =
      ((ap_concatMessages st)[i := clearConcatMessage c], Some c)"
    and c: "same_header from ?r ?hdr c" "take (concat_size c) (cm_data c) = data" "concat_size c \<le> length (cm_data c)"
    using ap_reassembly.run_complete [OF fresh free sized len cover pn] by blast
  obtain st' where st': "ap_run from ms st = Some st'" "same_response (st\<lparr>ap_concatMessages := tab\<rparr>) st'"
    using ap_run_quiet [OF n dec run ps(3,1)] unfolding ps(2) by blast
  obtain st'' where h: "ap_handleConcat now con from (?r, of_nat ?n, of_nat p, ?hdr) (part_payload data p) st' = Some st''"
    using handleConcat_none [of now con _ ?r "of_nat ?n" "of_nat p" ?hdr "part_payload data p" st']
      part_one [OF _ p16] dec by (metis option.exhaust)
  have tab: "ap_concatMessages st' = tab" using st'(2) by (simp add: same_response_def)
  obtain st1 where st1: "same_response st' st1"
    "st'' = (ap_complete c st1)\<lparr>ap_concatMessages := (ap_concatMessages st)[i := clearConcatMessage c]\<rparr>"
    using handleConcat_step(3) [OF h step [folded tab] refl] by blast
  have "length data = concat_size c" using c(2,3) by (metis length_take min_absorb2)
  then have "concat_size c < 4096" using len by simp
  moreover have "i < length (ap_concatMessages st)" using free by (auto dest: first_index_SomeD)
  moreover have "ap_currentRequestPort st1 = ap_currentRequestPort st"
    using st1(1) st'(2) by (simp add: same_response_def)
  ultimately show ?thesis
    using st' h st1(2) c port \<open>length data = concat_size c\<close> write_at_start [of data]
    by (auto simp: p handle_part_message ap_complete_def same_header_def same_response_def clearConcatMessage_def)
qed

section \<open>Streaming to the HTTP client\<close>

lemma ap_run_append:
  "ap_run from (ms @ ms') st = (case ap_run from ms st of None \<Rightarrow> None | Some st1 \<Rightarrow> ap_run from ms' st1)"
  by (induction "from" ms st rule: ap_run.induct) (auto split: option.splits)

text \<open>A part that is accepted by its slot.\<close>

lemma handle_accepted:
  assumes slot: "ap_slot now from r n udh (ap_concatMessages st) = Some (i, T[i := c])"
    and i: "i < length T" and acc: "accepts_part p x c"
  shows "ap_handleConcat now con from (r, n, p, udh) x st =
    (case ap_part_stored now con p x (store_part now p x c)
        (if find_slot cm_active concat_key (r, from) (ap_concatMessages st) = None
         then st\<lparr>ap_wdpTotalParts := unat n, ap_wdpReceivedParts := 0\<rparr> else st) of
       None \<Rightarrow> None
     | Some st \<Rightarrow>
         if concat_complete (store_part now p x c)
         then Some ((ap_complete (store_part now p x c) st)
           \<lparr>ap_concatMessages := T[i := clearConcatMessage (store_part now p x c)]\<rparr>)
         else Some (st\<lparr>ap_concatMessages := T[i := store_part now p x c]\<rparr>))"
proof -
  have "T[i := c] ! i = c" using i by simp
  then show ?thesis
    by (simp only: ap_handleConcat_def slot option.case prod.case Let_def ap_parse_eq list_update_overwrite
        acc if_True)
qed

text \<open>A new part of a datagram, whose slot holds the parts \<open>S\<close>.\<close>

lemma handle_new_part:
  assumes slot: "ap_slot now from r (of_nat (count_parts (length msg))) udh (ap_concatMessages st) = Some (i, T[i := c])"
    and i: "i < length T" and c: "assembling msg S c" "same_header from r udh c"
    and p: "1 \<le> p" "p \<le> count_parts (length msg)" "p \<notin> S" and len: "length msg \<le> 1728"
  shows "\<exists>c'. assembling msg (insert p S) c' \<and> same_header from r udh c' \<and>
    ap_handleConcat now con from (r, of_nat (count_parts (length msg)), of_nat p, udh) (part_payload msg p) st =
      map_option (\<lambda>st. if insert p S = {1..count_parts (length msg)}
          then (ap_complete c' st)\<lparr>ap_concatMessages := T[i := clearConcatMessage c']\<rparr>
          else st\<lparr>ap_concatMessages := T[i := c']\<rparr>)
        (ap_part_stored now con (of_nat p) (part_payload msg p) c'
          (if find_slot cm_active concat_key (r, from) (ap_concatMessages st) = None
           then st\<lparr>ap_wdpTotalParts := count_parts (length msg), ap_wdpReceivedParts := 0\<rparr> else st))"
proof -
  let ?n = "count_parts (length msg)" and ?x = "part_payload msg p"
  have n: "?n \<le> 16" by (rule count_parts_le [OF len])
  have acc: "accepts_part (of_nat p) ?x c"
    by (rule accepts_new_part [OF c(1) p(1) _ p(3)]) (use p(2) n in simp)
  have c': "assembling msg (insert p S) (store_part now (of_nat p) ?x c)"
    by (rule store_assembling [OF c(1) p(1,2,3) len])
  moreover have "same_header from r udh (store_part now (of_nat p) ?x c)"
    using c(2) by (simp add: store_same_header)
  ultimately show ?thesis
    by (intro exI [of _ "store_part now (of_nat p) ?x c"] conjI)
      (simp_all only: handle_accepted [OF slot i acc] part_u8 [OF n] map_option_case complete_iff [OF c' len]
        if_distrib [of Some])
qed

text \<open>A client that waits and has been sent the headers of a response that is not WMLC.\<close>

definition streaming :: "APState \<Rightarrow> bool" where
  "streaming st \<longleftrightarrow> ap_waitingClient st \<and> ap_headersSent st \<and> \<not> ap_isWMLC st"

lemma part_stored_streams:
  assumes "streaming st" "1 < p" "p \<le> 16"
  shows "\<exists>st'. ap_part_stored now True (of_nat p) x c st = Some st' \<and> streaming st' \<and>
    ap_out st' = ap_out st @ [Client_Write x]"
proof -
  have "(1 :: u8) < of_nat p" using assms part_u8 [OF assms(3)] by (simp add: word_less_nat_alt)
  then show ?thesis
    using assms(1) by (auto simp: ap_part_stored_def streaming_def client_write_def Let_def)
qed

lemma trySend_first:
  assumes "ap_waitingClient st" "\<not> ap_headersSent st"
    "decode (Some x) (Some zero_response) = Some (True, Some r)"
  shows "ap_trySendEarlyHeaders x st = Some (True, early_sent r st)"
  using assms by (cases "length x < 4") (auto simp: trySend_eq decode_def)

lemma early_sent_out:
  "ap_out (early_sent r st) = ap_out st @ [Client_Write (early_head (is_wmlc r) r)] @
     (case body r of Some b \<Rightarrow> if \<not> is_wmlc r \<and> 0 < bodyLen r then [Client_Write b] else [] | None \<Rightarrow> [])"
  "ap_headersSent (early_sent r st)" "ap_isWMLC (early_sent r st) = is_wmlc r"
  "ap_waitingClient (early_sent r st) = ap_waitingClient st"
  "ap_sendMeshCallback (early_sent r st) = ap_sendMeshCallback st"
  "ap_lastPartReceivedTime (early_sent r st) = ap_lastPartReceivedTime st"
  by (simp_all add: early_sent_def client_write_def Let_def split: option.split)

lemma first_part_stored:
  assumes "ap_waitingClient st" "\<not> ap_headersSent st"
    and "ap_currentRequestPort st = 0 \<or> cm_destPort c = ap_currentRequestPort st"
    and "decode (Some x) (Some zero_response) = Some (True, Some r)"
  shows "ap_part_stored now con 1 x c st =
    Some (early_sent r (st\<lparr>ap_lastPartReceivedTime := now, ap_wdpReceivedParts := unat (cm_receivedParts c)\<rparr>))"
  using assms by (simp add: ap_part_stored_def Let_def trySend_first)

text \<open>What the client has been sent once the parts up to \<open>k\<close> have arrived in order.\<close>

definition streamed :: "bytes \<Rightarrow> HTTPResponse \<Rightarrow> nat \<Rightarrow> ap_action list" where
  "streamed data r k =
     Client_Write (early_head False r) #
     (case body r of Some b \<Rightarrow> if 0 < bodyLen r then [Client_Write b] else [] | None \<Rightarrow> []) @
     map (\<lambda>p. Client_Write (part_payload data p)) [2..<Suc k]"

lemma stream_prefix:
  assumes len: "length data \<le> 1728"
    and fresh: "find_slot cm_active concat_key (r, from) (ap_concatMessages st) = None"
    and free: "first_index (\<lambda>c. \<not> cm_active c) (ap_concatMessages st) = Some i"
    and sized: "slots_sized 4096 (ap_concatMessages st)"
    and port: "ap_currentRequestPort st = 0 \<or> ap_currentRequestPort st = d"
    and wait: "ap_waitingClient st" "\<not> ap_headersSent st"
    and dec: "decode (Some (part_payload data 1)) (Some zero_response) = Some (True, Some rs)" "\<not> is_wmlc rs"
  shows "1 \<le> k \<Longrightarrow> k < count_parts (length data) \<Longrightarrow>
    \<exists>st' c. ap_run from (map (\<lambda>p. (now p, True, part_message r s d data p)) [1..<Suc k]) st = Some st' \<and>
      same_response (st\<lparr>ap_concatMessages := (ap_concatMessages st)[i := c]\<rparr>) st' \<and>
      assembling data {1..k} c \<and> same_header from r (concat_header s d) c \<and>
      streaming st' \<and> ap_out st' = ap_out st @ streamed data rs k \<and> ap_lastPartReceivedTime st' = now k"
proof (induction k rule: nat_induct_at_least)
  case base
  let ?n = "count_parts (length data)"
  have i: "i < length (ap_concatMessages st)" using free by (auto dest: first_index_SomeD)
  obtain c where c: "ap_slot (now 1) from r (of_nat ?n) (concat_header s d) (ap_concatMessages st) =
      Some (i, (ap_concatMessages st)[i := c])" "opened_for 4096 from r (of_nat ?n) (concat_header s d) c"
    using ap_reassembly.slot_new [OF fresh free sized] by blast
  note c0 = opened_assembling [OF c(2)]
  have ne: "insert 1 {} \<noteq> {1..?n}"
  proof
    assume "insert 1 {} = {1..?n}"
    then have "?n \<in> {1}" using base by auto
    then show False using base by simp
  qed
  have new: "(1::nat) \<le> 1" "1 \<le> ?n" "(1::nat) \<notin> {}" using base by simp_all
  from handle_new_part [OF c(1) i conjunct1 [OF c0] conjunct2 [OF c0] new len, where con = True]
  obtain c' where c': "assembling data {1} c'" "same_header from r (concat_header s d) c'"
    "ap_handleConcat (now 1) True from (r, of_nat ?n, of_nat 1, concat_header s d) (part_payload data 1) st =
      map_option (\<lambda>st'. st'\<lparr>ap_concatMessages := (ap_concatMessages st)[i := c']\<rparr>)
        (ap_part_stored (now 1) True (of_nat 1) (part_payload data 1) c'
          (st\<lparr>ap_wdpTotalParts := ?n, ap_wdpReceivedParts := 0\<rparr>))"
    using ne fresh by auto
  let ?st0 = "st\<lparr>ap_wdpTotalParts := ?n, ap_wdpReceivedParts := 0\<rparr>"
  have "ap_part_stored (now 1) True 1 (part_payload data 1) c' ?st0 =
      Some (early_sent rs (?st0\<lparr>ap_lastPartReceivedTime := now 1, ap_wdpReceivedParts := unat (cm_receivedParts c')\<rparr>))"
    by (rule first_part_stored) (use wait port dec c'(2) in \<open>auto simp: same_header_def\<close>)
  then show ?case
    using c' wait dec(2) part_stored_same [of "now 1" True 1 "part_payload data 1" c' ?st0]
    by (auto simp: handle_part_message early_sent_out streamed_def streaming_def same_response_def
        split: option.split)
next
  case (Suc k)
  let ?n = "count_parts (length data)"
  let ?T = "ap_concatMessages st"
  have i: "i < length ?T" using free by (auto dest: first_index_SomeD)
  obtain st' c where run: "ap_run from (map (\<lambda>p. (now p, True, part_message r s d data p)) [1..<Suc k]) st = Some st'"
    and same: "same_response (st\<lparr>ap_concatMessages := ?T[i := c]\<rparr>) st'"
    and c: "assembling data {1..k} c" "same_header from r (concat_header s d) c"
    and str: "streaming st'" "ap_out st' = ap_out st @ streamed data rs k"
    using Suc.IH Suc.prems by auto
  have tab: "ap_concatMessages st' = ?T[i := c]" using same by (simp add: same_response_def)
  have found: "find_slot cm_active concat_key (r, from) (?T[i := c]) = Some i"
    using fresh i c(2) unfolding find_slot_def
    by (intro first_index_upd) (auto simp: same_header_def concat_key_def)
  have slot: "ap_slot (now (Suc k)) from r (of_nat ?n) (concat_header s d) (ap_concatMessages st') = Some (i, ?T[i := c])"
    unfolding tab by (rule ap_reassembly.slot_found [OF found])
  have ins: "insert (Suc k) {1..k} = {1..Suc k}" by auto
  have proper: "{1..Suc k} \<noteq> {1..?n}" using Suc.prems by (metis atLeastAtMost_iff le_refl not_le le_SucI one_le_numeral Suc_le_eq zero_less_Suc One_nat_def)
  have new: "1 \<le> Suc k" "Suc k \<le> ?n" "Suc k \<notin> {1..k}" using Suc.prems by simp_all
  from handle_new_part [OF slot i c new len, where con = True, unfolded ins tab found]
  obtain c' where c': "assembling data {1..Suc k} c'" "same_header from r (concat_header s d) c'"
    "ap_handleConcat (now (Suc k)) True from (r, of_nat ?n, of_nat (Suc k), concat_header s d)
        (part_payload data (Suc k)) st' =
      map_option (\<lambda>st'. st'\<lparr>ap_concatMessages := ?T[i := c']\<rparr>)
        (ap_part_stored (now (Suc k)) True (of_nat (Suc k)) (part_payload data (Suc k)) c' st')"
    by (simp only: proper if_False option.distinct) blast
  have "Suc k \<le> 16" using Suc.prems count_parts_le [OF len] by simp
  then obtain st'' where st'': "ap_part_stored (now (Suc k)) True (of_nat (Suc k)) (part_payload data (Suc k)) c' st' = Some st''"
    "streaming st''" "ap_out st'' = ap_out st' @ [Client_Write (part_payload data (Suc k))]"
    using part_stored_streams [OF str(1), of "Suc k" "now (Suc k)" "part_payload data (Suc k)" c'] Suc.hyps by auto
  have "ap_run from (map (\<lambda>p. (now p, True, part_message r s d data p)) [1..<Suc (Suc k)]) st =
      Some (st''\<lparr>ap_concatMessages := ?T[i := c']\<rparr>)"
    using run c'(3) st''(1) by (simp add: ap_run_append handle_part_message)
  then show ?case
    using c'(1,2) st''(2,3) str(2) same part_stored_same [OF st''(1)] part_stored_time [OF st''(1)] Suc.hyps
    by (intro exI [of _ "st''\<lparr>ap_concatMessages := ?T[i := c']\<rparr>"] exI [of _ c'])
      (auto simp: same_response_def streaming_def streamed_def)
qed

text \<open>The body of a decoded response is a suffix of the data.\<close>

lemma decode_body_suffix:
  assumes "decode (Some d) (Some r0) = Some (True, Some r)"
  shows "bodyLen r \<le> length d \<and> body r = (if bodyLen r = 0 then None else Some (drop (length d - bodyLen r) d))"
proof -
  have *: "decodeWithoutTID (Some (drop 1 d)) (Some zero_response) = Some (True, Some r)" "4 \<le> length d"
    using assms by (auto simp: decode_def split: if_splits)
  obtain pos r1 where r: "r = decode_body (drop 1 d) pos r1"
    using * by (auto simp: decodeWithoutTID_def Let_def split: if_splits option.splits prod.splits)
  show ?thesis
    using *(2) by (auto simp: r decode_body_def Let_def)
qed

lemma first_part_length: "113 < length data \<Longrightarrow> length (part_payload data 1) = 108"
  by (simp add: length_part_payload)

lemma concat_from_second:
  assumes "113 < length data"
  shows "List.concat (map (part_payload data) [2..<Suc (count_parts (length data))]) = drop 108 data"
proof -
  let ?n = "count_parts (length data)"
  have n: "1 \<le> ?n" using assms by (simp add: count_parts_def)
  then have "[1..<Suc ?n] = 1 # [2..<Suc ?n]" by (simp add: upt_conv_Cons numeral_2_eq_2 del: upt_Suc)
  then have "part_payload data 1 @ List.concat (map (part_payload data) [2..<Suc ?n]) = data"
    using concat_part_payloads [of data ?n] count_parts_mult [of data] by simp
  moreover have "part_payload data 1 = take 108 data" by (simp add: part_payload_eq)
  ultimately show ?thesis by (metis append_take_drop_id same_append_eq)
qed

lemma streamed_bytes:
  assumes long: "113 < length data"
    and dec: "decode (Some (part_payload data 1)) (Some zero_response) = Some (True, Some rs)"
  shows "\<exists>xs. streamed data rs (count_parts (length data)) = Client_Write (early_head False rs) # map Client_Write xs \<and>
    List.concat xs = drop (108 - bodyLen rs) data \<and> bodyLen rs \<le> 108"
proof -
  let ?n = "count_parts (length data)"
  note sfx = decode_body_suffix [OF dec, unfolded first_part_length [OF long]]
  define ys where "ys = map (part_payload data) [2..<Suc ?n]"
  have ys: "List.concat ys = drop 108 data" unfolding ys_def by (rule concat_from_second [OF long])
  have p1: "part_payload data 1 = take 108 data" by (simp add: part_payload_eq)
  show ?thesis
  proof (cases "bodyLen rs = 0")
    case True
    then have "streamed data rs ?n = Client_Write (early_head False rs) # map Client_Write ys"
      using sfx by (simp add: streamed_def ys_def comp_def del: upt_Suc)
    with ys True show ?thesis by auto
  next
    case False
    let ?b = "drop (108 - bodyLen rs) (take 108 data)"
    have "streamed data rs ?n = Client_Write (early_head False rs) # map Client_Write (?b # ys)"
      using sfx False by (simp add: streamed_def ys_def comp_def p1 [unfolded One_nat_def] del: upt_Suc)
    moreover have "drop (108 - bodyLen rs) data = ?b @ drop 108 data"
    proof -
      have "drop (108 - bodyLen rs) data = drop (108 - bodyLen rs) (take 108 data @ drop 108 data)"
        by (simp only: append_take_drop_id)
      also have "\<dots> = ?b @ drop 108 data"
        using long by (simp only: drop_append) simp
      finally show ?thesis .
    qed
    ultimately show ?thesis using ys sfx by (intro exI [of _ "?b # ys"]) simp
  qed
qed

text \<open>C9: While the client waits, an answer that is not WMLC and whose parts arrive in order is passed on as
  it comes: the response head is sent with the first part, and what follows the headers is written
  part by part, complete and in order; the response then counts as received.\<close>

theorem streamed_in_order:
  assumes long: "113 < length data" and len: "length data \<le> 1728"
    and fresh: "find_slot cm_active concat_key (ucast (t AND 0xFF), from) (ap_concatMessages st) = None"
    and free: "first_index (\<lambda>c. \<not> cm_active c) (ap_concatMessages st) = Some i"
    and sized: "slots_sized 4096 (ap_concatMessages st)"
    and port: "ap_currentRequestPort st = 0 \<or> ap_currentRequestPort st = d"
    and wait: "ap_waitingClient st" "\<not> ap_headersSent st"
    and dec: "decode (Some (part_payload data 1)) (Some zero_response) = Some (True, Some rs)" "\<not> is_wmlc rs"
    and nows: "length nows = length (wdp_messages t s d data)"
  shows "\<exists>st' xs. ap_run from (map2 (\<lambda>now m. (now, True, m)) nows (wdp_messages t s d data)) st = Some st' \<and>
    ap_out st' = ap_out st @ Client_Write (early_head False rs) # map Client_Write xs \<and>
    List.concat xs = drop (108 - bodyLen rs) data \<and> ap_meshResponseReady st'"
proof -
  let ?n = "count_parts (length data)" and ?r = "ucast (t AND 0xFF) :: u8" and ?T = "ap_concatMessages st"
  let ?hdr = "concat_header s d"
  define now where "now = (\<lambda>p. nows ! (p - 1))"
  have n: "2 \<le> ?n" "?n \<le> 16" using long count_parts_le [OF len] by (simp_all add: count_parts_def)
  obtain k where k: "?n = Suc k" "1 \<le> k" using n by (cases ?n) auto
  let ?m = "\<lambda>p. (now p, True, part_message ?r s d data p)"
  have ms: "map2 (\<lambda>now m. (now, True, m)) nows (wdp_messages t s d data) = map ?m [1..<Suc k] @ [?m (Suc k)]"
  proof -
    have "map2 (\<lambda>now m. (now, True, m)) nows (wdp_messages t s d data) = map ?m [1..<Suc (Suc k)]"
      by (rule nth_equalityI)
        (use nows in \<open>auto simp: wdp_messages_parts [OF long] k(1) now_def nth_upt simp del: upt_Suc\<close>)
    then show ?thesis by simp
  qed
  have i: "i < length ?T" using free by (auto dest: first_index_SomeD)
  obtain st' c where run: "ap_run from (map ?m [1..<Suc k]) st = Some st'"
    and same: "same_response (st\<lparr>ap_concatMessages := ?T[i := c]\<rparr>) st'"
    and c: "assembling data {1..k} c" "same_header from ?r ?hdr c"
    and str: "streaming st'" "ap_out st' = ap_out st @ streamed data rs k"
    using stream_prefix [OF len fresh free sized port wait dec k(2), where now = now and s = s] k(1) lessI [of k]
    by (simp only:) blast
  have tab: "ap_concatMessages st' = ?T[i := c]" using same by (simp add: same_response_def)
  have found: "find_slot cm_active concat_key (?r, from) (?T[i := c]) = Some i"
    using fresh i c(2) unfolding find_slot_def
    by (intro first_index_upd) (auto simp: same_header_def concat_key_def)
  have slot: "ap_slot (now (Suc k)) from ?r (of_nat ?n) ?hdr (ap_concatMessages st') = Some (i, ?T[i := c])"
    unfolding tab by (rule ap_reassembly.slot_found [OF found])
  have ins: "insert (Suc k) {1..k} = {1..?n}" by (auto simp: k(1))
  have new: "1 \<le> Suc k" "Suc k \<le> ?n" "Suc k \<notin> {1..k}" by (simp_all add: k(1))
  from handle_new_part [OF slot i c new len, where con = True, unfolded ins tab found]
  obtain c' where c': "assembling data {1..?n} c'" "same_header from ?r ?hdr c'"
    "ap_handleConcat (now (Suc k)) True from (?r, of_nat ?n, of_nat (Suc k), ?hdr) (part_payload data (Suc k)) st' =
      map_option (\<lambda>st'. (ap_complete c' st')\<lparr>ap_concatMessages := ?T[i := clearConcatMessage c']\<rparr>)
        (ap_part_stored (now (Suc k)) True (of_nat (Suc k)) (part_payload data (Suc k)) c' st')"
    by (simp only: if_True refl simp_thms if_False option.distinct) blast
  obtain st'' where st'': "ap_part_stored (now (Suc k)) True (of_nat (Suc k)) (part_payload data (Suc k)) c' st' = Some st''"
    "ap_out st'' = ap_out st' @ [Client_Write (part_payload data (Suc k))]"
    using part_stored_streams [OF str(1), of "Suc k" "now (Suc k)" "part_payload data (Suc k)" c'] k n(2) by auto
  define fin where "fin = (ap_complete c' st'')\<lparr>ap_concatMessages := ?T[i := clearConcatMessage c']\<rparr>"
  have "ap_run from (map2 (\<lambda>now m. (now, True, m)) nows (wdp_messages t s d data)) st = Some fin"
    using run c'(3) st''(1) by (simp add: ms ap_run_append handle_part_message fin_def)
  moreover have "ap_currentRequestPort st'' = 0 \<or> ap_currentRequestPort st'' = cm_destPort c'"
    using port same part_stored_same [OF st''(1)] c'(2) by (auto simp: same_response_def same_header_def)
  then have "ap_meshResponseReady fin"
    using complete_payload(1) [OF c'(1) len] len by (auto simp: fin_def ap_complete_def)
  moreover have "ap_out fin = ap_out st @ streamed data rs ?n"
    using str(2) st''(2) k by (auto simp: fin_def ap_complete_def streamed_def)
  ultimately show ?thesis using streamed_bytes [OF long dec(1)] by metis
qed

text \<open>The order matters: when the second part of such an answer overtakes the first, its bytes are never
  written to the client, although the response counts as received; nothing is added later, so the
  client gets a response whose body stops after the first part.\<close>

theorem overtaking_part_is_lost:
  assumes long: "113 < length data" and len: "length data \<le> 216"
    and fresh: "find_slot cm_active concat_key (ucast (t AND 0xFF), from) (ap_concatMessages st) = None"
    and free: "first_index (\<lambda>c. \<not> cm_active c) (ap_concatMessages st) = Some i"
    and sized: "slots_sized 4096 (ap_concatMessages st)"
    and port: "ap_currentRequestPort st = 0 \<or> ap_currentRequestPort st = d"
    and wait: "ap_waitingClient st" "\<not> ap_headersSent st"
    and dec: "decode (Some (part_payload data 1)) (Some zero_response) = Some (True, Some rs)" "\<not> is_wmlc rs"
    and msgs: "wdp_messages t s d data = [m1, m2]"
  shows "\<exists>st'. ap_run from [(now1, True, m2), (now2, True, m1)] st = Some st' \<and> ap_meshResponseReady st' \<and>
    ap_out st' = ap_out st @ Client_Write (early_head False rs) #
      (if bodyLen rs = 0 then [] else [Client_Write (drop (108 - bodyLen rs) (take 108 data))]) \<and>
    (\<forall>env x. \<exists>st''. finish_early env x (wait_answered st') = Some st'' \<and> ap_out st'' = ap_out st')"
proof -
  let ?r = "ucast (t AND 0xFF) :: u8" and ?T = "ap_concatMessages st" and ?hdr = "concat_header s d"
  have n: "count_parts (length data) = 2" and len': "length data \<le> 1728"
    using long len by (simp_all add: count_parts_def)
  have m: "m1 = part_message ?r s d data 1" "m2 = part_message ?r s d data 2"
    using msgs by (simp_all add: wdp_messages_parts [OF long] n upt_rec numeral_2_eq_2)
  have i: "i < length ?T" using free by (auto dest: first_index_SomeD)
  obtain c where c: "ap_slot now1 from ?r (of_nat 2) ?hdr ?T = Some (i, ?T[i := c])"
    "opened_for 4096 from ?r (of_nat 2) ?hdr c"
    using ap_reassembly.slot_new [OF fresh free sized] by blast
  note c0 = opened_assembling [OF c(2) [folded n]]
  have two: "{1..count_parts (length data)} = {1, 2}" unfolding n by auto
  have new1: "(1::nat) \<le> 2" "2 \<le> count_parts (length data)" "(2::nat) \<notin> {}"
    "insert 2 {} \<noteq> {1..count_parts (length data)}" unfolding two by (auto simp: n)
  from handle_new_part [OF c(1) [folded n] i conjunct1 [OF c0] conjunct2 [OF c0] new1(1-3) len', where con = True]
  obtain c1 where c1: "assembling data {2} c1" "same_header from ?r ?hdr c1"
    "ap_handleConcat now1 True from (?r, of_nat 2, of_nat 2, ?hdr) (part_payload data 2) st =
      map_option (\<lambda>st. st\<lparr>ap_concatMessages := ?T[i := c1]\<rparr>)
        (ap_part_stored now1 True (of_nat 2) (part_payload data 2) c1
          (st\<lparr>ap_wdpTotalParts := 2, ap_wdpReceivedParts := 0\<rparr>))"
    using new1(4) fresh by (auto simp: n)
  define st1 where "st1 = st\<lparr>ap_wdpTotalParts := 2, ap_wdpReceivedParts := unat (cm_receivedParts c1),
    ap_lastPartReceivedTime := now1, ap_concatMessages := ?T[i := c1]\<rparr>"
  have h1: "ap_handleIncomingMesh now1 True from m2 st = Some st1"
    using c1(3) wait(2) by (simp add: m handle_part_message n ap_part_stored_def Let_def st1_def)
  have found: "find_slot cm_active concat_key (?r, from) (?T[i := c1]) = Some i"
    using fresh i c1(2) unfolding find_slot_def
    by (intro first_index_upd) (auto simp: same_header_def concat_key_def)
  have tab: "ap_concatMessages st1 = ?T[i := c1]" by (simp add: st1_def)
  have slot: "ap_slot now2 from ?r (of_nat (count_parts (length data))) ?hdr (ap_concatMessages st1) = Some (i, ?T[i := c1])"
    unfolding tab by (rule ap_reassembly.slot_found [OF found])
  have new2: "(1::nat) \<le> 1" "1 \<le> count_parts (length data)" "(1::nat) \<notin> {2}"
    and ins: "insert 1 {2} = {1..count_parts (length data)}" unfolding two by (simp_all add: n)
  from handle_new_part [OF slot i c1(1,2) new2 len', where con = True, unfolded ins tab found]
  obtain c2 where c2: "assembling data {1..count_parts (length data)} c2" "same_header from ?r ?hdr c2"
    "ap_handleConcat now2 True from (?r, of_nat 2, of_nat 1, ?hdr) (part_payload data 1) st1 =
      map_option (\<lambda>st. (ap_complete c2 st)\<lparr>ap_concatMessages := ?T[i := clearConcatMessage c2]\<rparr>)
        (ap_part_stored now2 True (of_nat 1) (part_payload data 1) c2 st1)"
    unfolding n by (simp only: if_True refl simp_thms if_False option.distinct) blast
  define st2 where "st2 = early_sent rs (st1\<lparr>ap_lastPartReceivedTime := now2, ap_wdpReceivedParts := unat (cm_receivedParts c2)\<rparr>)"
  have "ap_part_stored now2 True 1 (part_payload data 1) c2 st1 = Some st2"
    unfolding st2_def
    by (rule first_part_stored) (use wait port dec(1) c2(2) in \<open>auto simp: st1_def same_header_def\<close>)
  then have h2: "ap_handleIncomingMesh now2 True from m1 st1 =
      Some ((ap_complete c2 st2)\<lparr>ap_concatMessages := ?T[i := clearConcatMessage c2]\<rparr>)"
    using c2(3) by (simp add: m handle_part_message n)
  have same: "same_response st1 st2"
    unfolding st2_def by (rule same_response_trans [OF _ early_sent_same]) simp
  have out: "ap_out st2 = ap_out st @ Client_Write (early_head False rs) #
      (if bodyLen rs = 0 then [] else [Client_Write (drop (108 - bodyLen rs) (take 108 data))])"
    using decode_body_suffix [OF dec(1)] dec(2) long
    by (auto simp: st2_def early_sent_out st1_def part_payload_eq split: if_splits)
  have "ap_meshResponseReady (ap_complete c2 st2)"
    using complete_payload(1) [OF c2(1) len'] len same port c2(2)
    by (auto simp: ap_complete_def same_response_def same_header_def st1_def)
  moreover have "ap_out (ap_complete c2 st2) = ap_out st2" "\<not> ap_isWMLC (ap_complete c2 st2)"
    using dec(2) by (simp_all add: ap_complete_def st2_def early_sent_out)
  ultimately show ?thesis
    using h1 h2 out by (simp add: finish_early_def wait_answered_def)
qed

section \<open>The wait\<close>


text \<open>A round in which no message arrives and the client stays.\<close>

definition silent_round :: "wait_round \<Rightarrow> bool" where
  "silent_round r \<longleftrightarrow>
     (case r of (now, events, connected) \<Rightarrow>
        connected \<and> (\<forall>e \<in> set events. case e of Mesh_In _ _ _ _ \<Rightarrow> False | AP_Loop _ _ \<Rightarrow> True))"

lemma silent_events:
  assumes "\<forall>e \<in> set es. case e of Mesh_In _ _ _ _ \<Rightarrow> False | AP_Loop _ _ \<Rightarrow> True"
  shows "\<exists>st'. mesh_events es st = Some st' \<and> ap_meshResponseReady st' = ap_meshResponseReady st \<and>
    ap_lastPartReceivedTime st' = ap_lastPartReceivedTime st"
  using assms
proof (induction es arbitrary: st)
  case (Cons e es)
  then obtain n t where e: "e = AP_Loop n t" by (cases e) auto
  let ?st = "if ap_initialized st then ap_cleanup t (ap_stations n st) else st"
  have "ap_meshResponseReady ?st = ap_meshResponseReady st" "ap_lastPartReceivedTime ?st = ap_lastPartReceivedTime st"
    by (simp_all add: ap_cleanup_def ap_stations_def)
  then show ?case using Cons.IH [of ?st] Cons.prems by (auto simp: e)
qed simp

text \<open>C12: The wait ends: if the proxy stays silent, the first turn of the loop that sees the clock the timeout
  past the last received part ends it with a timeout, whatever else the mesh does.\<close>

theorem wait_times_out:
  assumes "list_all silent_round rs" and "\<not> ap_meshResponseReady st"
    and "\<exists>r \<in> set rs. timeoutMs \<le> fst r - ap_lastPartReceivedTime st"
  shows "\<exists>st'. ap_wait keepAlive timeoutMs maxLen rs st = Some (Timed_Out, st')"
  using assms
proof (induction rs arbitrary: st)
  case (Cons r rs)
  obtain now events connected where r: "r = (now, events, connected)" by (cases r)
  show ?case
  proof (cases "timeoutMs \<le> now - ap_lastPartReceivedTime st")
    case False
    obtain st1 where st1: "(if ap_meshLoopCallback st then mesh_events events st else Some st) = Some st1"
      "\<not> ap_meshResponseReady st1" "ap_lastPartReceivedTime st1 = ap_lastPartReceivedTime st"
      using Cons.prems(1,2) silent_events [of events st]
      by (cases "ap_meshLoopCallback st") (auto simp: r silent_round_def)
    then show ?thesis
      using Cons.IH [of st1] Cons.prems False by (auto simp: r silent_round_def)
  qed (simp add: r)
qed simp

section \<open>Concrete runs\<close>

text \<open>A reply of type text/plain without other headers.\<close>

definition text_reply :: "bytes \<Rightarrow> bytes" where
  "text_reply content = [7, 0x04, 0x20, 0x01, 0x83] @ content"

lemma text_reply_decode:
  assumes "length content < 2 ^ 31"
  shows "\<exists>r. decode (Some (text_reply content)) (Some r0) = Some (True, Some r) \<and> \<not> is_wmlc r \<and>
    body r = (if content = [] then None else Some content) \<and> bodyLen r = length content \<and>
    contentLength r = length content \<and> server r = [] \<and> contentType r = str ''text/plain''"
proof -
  have hs: "[0x83] = (0x03 OR 0x80) # concat (map field_bytes [])" by simp
  have "uintvar 1 = [1]" by code_simp
  then have pdu: "text_reply content = [7, 0x04, 0x20] @ uintvar (of_nat (length [0x83 :: u8])) @ [0x83] @ content"
    by (simp add: text_reply_def)
  have ty: "contentTypeToString 0x03 = str ''text/plain''"
    by (simp add: contentTypeToString_def contentTypeTable_def)
  have "\<not> strstr (str ''text/plain'') (str ''wmlc'')" by code_simp
  moreover have "length (text_reply content) < 2 ^ 32"
    using assms by (simp add: text_reply_def)
  from decode_wellformed_lemma [of "[]" "0x03", OF _ _ hs pdu this, of r0]
  obtain r where "decode (Some (text_reply content)) (Some r0) = Some (True, Some r)"
    "contentType r = str ''text/plain''" "server r = []" "contentLength r = length content"
    "body r = (if content = [] then None else Some content)" "bodyLen r = length content"
    by (auto simp: ty zero_response_def)
  ultimately show ?thesis by (intro exI [of _ r]) (simp add: is_wmlc_def)
qed

text \<open>A running access point whose client waits for an answer on port 1024.\<close>

definition waiting_ap :: APState where
  "waiting_ap = ap_zero\<lparr>ap_initialized := True, ap_sendMeshCallback := True, ap_meshLoopCallback := True,
     ap_waitingClient := True, ap_currentRequestPort := 1024\<rparr>"

lemma waiting_ap_simps [simp]:
  "ap_waitingClient waiting_ap" "\<not> ap_headersSent waiting_ap" "ap_currentRequestPort waiting_ap = 1024"
  "\<not> ap_meshResponseReady waiting_ap" "ap_lastPartReceivedTime waiting_ap = 0" "ap_out waiting_ap = []"
  "ap_meshLoopCallback waiting_ap"
  by (simp_all add: waiting_ap_def ap_zero_def)

lemma waiting_ap_tables:
  "find_slot cm_active concat_key k (ap_concatMessages waiting_ap) = None"
  "first_index (\<lambda>c. \<not> cm_active c) (ap_concatMessages waiting_ap) = Some 0"
  "slots_sized 4096 (ap_concatMessages waiting_ap)"
  by (simp_all add: waiting_ap_def ap_zero_def find_slot_def first_index_replicate slots_sized_def)

definition long_reply :: bytes where "long_reply = text_reply (replicate 120 65)"

lemma long_reply_parts:
  "length long_reply = 125" "part_payload long_reply 1 = text_reply (replicate 103 65)"
  "wdp_messages 0 9200 1024 long_reply =
     [part_message 0 9200 1024 long_reply 1, part_message 0 9200 1024 long_reply 2]"
  by (simp_all add: long_reply_def text_reply_def part_payload_eq wdp_messages_parts count_parts_def upt_rec
      numeral_2_eq_2)

lemma long_reply_decode:
  "\<exists>rs. decode (Some (part_payload long_reply 1)) (Some zero_response) = Some (True, Some rs) \<and>
    \<not> is_wmlc rs \<and> bodyLen rs = 103"
  using text_reply_decode [of "replicate 103 65" zero_response] unfolding long_reply_parts(2) by auto

theorem ap_receives_datagram_witness:
  "\<exists>st'. ap_run [1] [(5, True, part_message 0 9200 1024 long_reply 2)] waiting_ap = Some st' \<and>
    \<not> ap_meshResponseReady st' \<and>
    (\<exists>st''. ap_handleIncomingMesh 6 True [1] (part_message 0 9200 1024 long_reply 1) st' = Some st'' \<and>
      ap_meshResponseReady st'' \<and> take (ap_meshResponseLen st'') (ap_meshResponseBuffer st'') = long_reply)"
proof -
  have "decode (Some (part_payload long_reply 1)) (Some zero_response) \<noteq> None"
    using long_reply_decode by auto
  moreover have "part_message 0 9200 1024 long_reply 1 \<noteq> part_message 0 9200 1024 long_reply 2"
    using part_message_inj [of 0 9200 1024 long_reply 1 2] by auto
  ultimately show ?thesis
    using ap_receives_datagram [of long_reply 0 "[1]" waiting_ap 0 1024 "part_message 0 9200 1024 long_reply 1"
        "[(5, True, part_message 0 9200 1024 long_reply 2)]" 9200 6 True]
    by (auto simp: waiting_ap_tables long_reply_parts)
qed

theorem streamed_in_order_witness:
  "\<exists>rs st' xs. decode (Some (part_payload long_reply 1)) (Some zero_response) = Some (True, Some rs) \<and>
    ap_run [1] [(5, True, part_message 0 9200 1024 long_reply 1), (6, True, part_message 0 9200 1024 long_reply 2)]
      waiting_ap = Some st' \<and>
    ap_out st' = Client_Write (early_head False rs) # map Client_Write xs \<and> List.concat xs = replicate 120 65"
proof -
  obtain rs where rs: "decode (Some (part_payload long_reply 1)) (Some zero_response) = Some (True, Some rs)"
    "\<not> is_wmlc rs" "bodyLen rs = 103"
    using long_reply_decode by blast
  have "drop 5 long_reply = replicate 120 65" by (simp add: long_reply_def text_reply_def)
  then show ?thesis
    using streamed_in_order [of long_reply 0 "[1]" waiting_ap 0 1024 rs "[5, 6]" 9200] rs
    by (auto simp: waiting_ap_tables long_reply_parts)
qed

theorem overtaking_part_is_lost_witness:
  "\<exists>rs st'. ap_run [1] [(5, True, part_message 0 9200 1024 long_reply 2), (6, True, part_message 0 9200 1024 long_reply 1)]
      waiting_ap = Some st' \<and> ap_meshResponseReady st' \<and>
    ap_out st' = [Client_Write (early_head False rs), Client_Write (replicate 103 65)]"
proof -
  obtain rs where rs: "decode (Some (part_payload long_reply 1)) (Some zero_response) = Some (True, Some rs)"
    "\<not> is_wmlc rs" "bodyLen rs = 103"
    using long_reply_decode by blast
  have "drop 5 (take 108 long_reply) = replicate 103 65"
    by (simp add: long_reply_def text_reply_def)
  then show ?thesis
    using overtaking_part_is_lost [of long_reply 0 "[1]" waiting_ap 0 1024 rs 9200 _ _ 5 6] rs
    by (auto simp: waiting_ap_tables long_reply_parts)
qed


theorem wait_times_out_witness:
  "\<exists>st'. ap_wait True 15000 4096 [(10, [AP_Loop 1 10], True), (15000, [], True)] waiting_ap = Some (Timed_Out, st')"
  by (rule wait_times_out) (simp_all add: silent_round_def)

end
