(* ===== verification/ApHttp.thy ===== *)
theory ApHttp
  imports ApProofs
begin

text \<open>
  The HTTP side of the access point: what the request parser makes of a request text, the URL and
  the WAP request built from it, and the whole life of a request, errors included.
\<close>

section \<open>Parsing\<close>

text \<open>The characters the client sends; turns of the loop without one do not matter.\<close>

fun poll_bytes :: "client_poll list \<Rightarrow> bytes" where
  "poll_bytes [] = []"
| "poll_bytes (Poll_Byte c # ps) = c # poll_bytes ps"
| "poll_bytes (Poll_Idle # ps) = poll_bytes ps"
| "poll_bytes (Poll_Stop # ps) = []"

definition text_line :: "bytes \<Rightarrow> bool" where
  "text_line s \<longleftrightarrow> 10 \<notin> set s \<and> 13 \<notin> set s \<and> 0 \<notin> set s"

lemma read_line_text:
  assumes "10 \<notin> set l" "13 \<notin> set l" "poll_bytes ps = l @ [13, 10] @ rest"
  shows "\<exists>ps'. read_line ps ln = (ln @ l, ps') \<and> poll_bytes ps' = rest"
  using assms
proof (induction ps ln arbitrary: l rule: read_line.induct)
  case (4 c ps ln)
  show ?case
  proof (cases l)
    case Nil
    then have "poll_bytes ps = [10] @ rest" "c = 13" using "4.prems" by auto
    moreover have "\<exists>ps'. read_line ps ln = (ln, ps') \<and> poll_bytes ps' = rest"
      if "poll_bytes ps = [10] @ rest" for ps using that
      by (induction ps ln rule: read_line.induct) auto
    ultimately show ?thesis by (simp add: Nil)
  next
    case (Cons d l')
    then show ?thesis using "4.IH" [of l'] "4.prems" by auto
  qed
qed auto

definition header_lines :: "(bytes \<times> bytes) list \<Rightarrow> bytes list" where
  "header_lines hs = map (\<lambda>(n, v). n @ [58] @ v) hs"

lemma read_headers_text:
  assumes "\<forall>l \<in> set ls. l \<noteq> [] \<and> text_line l"
    and "poll_bytes ps = List.concat (map (\<lambda>l. l @ [13, 10]) ls) @ [13, 10] @ rest"
  shows "\<exists>ps'. read_headers ps req = (fold parse_header_line ls req, ps') \<and> poll_bytes ps' = rest"
  using assms
proof (induction ls arbitrary: ps req)
  case Nil
  then obtain p qs where ps: "ps = p # qs" by (cases ps) auto
  then have "p \<noteq> Poll_Stop" using Nil.prems(2) by auto
  then show ?case
    using read_line_text [of "[]" ps rest "[]"] Nil.prems(2) by (auto simp: ps)
next
  case (Cons l ls)
  then obtain p qs where ps: "ps = p # qs" by (cases ps) auto
  have "p \<noteq> Poll_Stop" using Cons.prems by (auto simp: ps)
  moreover obtain ps' where "read_line ps [] = (l, ps')"
    "poll_bytes ps' = List.concat (map (\<lambda>l. l @ [13, 10]) ls) @ [13, 10] @ rest"
    using read_line_text [of l ps _ "[]"] Cons.prems by (auto simp: text_line_def)
  ultimately show ?case
    using Cons.IH [of ps' "parse_header_line l req"] Cons.prems(1) by (auto simp: ps)
qed

lemma indexOf_first: "c \<notin> set a \<Longrightarrow> indexOf c 0 (a @ c # b) = Some (length a)"
proof -
  assume "c \<notin> set a"
  then have "takeWhile (\<lambda>x. x \<noteq> c) (a @ c # b) = a" by (induction a) auto
  then show ?thesis by (simp add: indexOf_def first_index_def Let_def)
qed

lemma indexOf_from:
  "c \<notin> set a \<Longrightarrow> indexOf c (length p) (p @ a @ c # b) = Some (length p + length a)"
  using indexOf_first [of c a b] by (simp add: indexOf_def)

text \<open>C11: From the text of a request (method, path, any headers, empty line), however it is chopped up by
  turns of the loop without a character, the parser recovers the method and the path, cut to 15 and
  255 characters, and applies the header lines in order.\<close>

theorem parse_request_text:
  assumes ps: "poll_bytes ps = method @ [32] @ path @ [32] @ version @ [13, 10] @
      List.concat (map (\<lambda>l. l @ [13, 10]) ls) @ [13, 10] @ rest"
    and ok: "text_line method" "text_line path" "text_line version" "32 \<notin> set method" "32 \<notin> set path"
    and ls: "\<forall>l \<in> set ls. l \<noteq> [] \<and> text_line l"
    and req: "req = fold parse_header_line ls
      (empty_request\<lparr>hr_method := take 15 method, hr_path := take 255 path\<rparr>)"
    and no_body: "hr_contentLength req = 0"
  shows "parseHTTPRequest ps = (True, req)"
proof -
  let ?l = "method @ 32 # path @ 32 # version"
  obtain ps1 where l: "read_line ps [] = (?l, ps1)"
    "poll_bytes ps1 = List.concat (map (\<lambda>l. l @ [13, 10]) ls) @ [13, 10] @ rest"
    using read_line_text [of ?l ps _ "[]"] ps ok by (auto simp: text_line_def)
  obtain ps2 where h: "read_headers ps1 (empty_request\<lparr>hr_method := take 15 method, hr_path := take 255 path\<rparr>) = (req, ps2)"
    using read_headers_text [OF ls l(2)] req by blast
  have i: "indexOf 32 0 ?l = Some (length method)"
    by (rule indexOf_first [OF ok(4)])
  have j: "indexOf 32 (Suc (length method)) ?l = Some (Suc (length method + length path))"
    using indexOf_from [OF ok(5), of "method @ [32]" version] by simp
  have "c_str method = method" "c_str path = path"
    using ok by (auto simp: text_line_def c_str_ident)
  then show ?thesis
    using l i j h no_body by (simp add: parseHTTPRequest_def Let_def)
qed

section \<open>The WAP request\<close>

text \<open>What the parser guarantees of the C strings it fills.\<close>

definition request_ok :: "HTTPRequest \<Rightarrow> bool" where
  "request_ok req \<longleftrightarrow>
     length (hr_method req) \<le> 15 \<and> length (hr_path req) \<le> 255 \<and> length (hr_host req) \<le> 127 \<and>
     0 \<notin> set (hr_method req) \<and> 0 \<notin> set (hr_path req) \<and> 0 \<notin> set (hr_host req)"

lemma take_c_str_no_nul: "0 \<notin> set (take n (c_str s))"
  using c_str_no_nul [of s] by (meson in_set_takeD)

lemma header_line_ok: "request_ok req \<Longrightarrow> request_ok (parse_header_line l req)"
  by (auto simp: request_ok_def parse_header_line_def Let_def take_c_str_no_nul split: option.splits)

lemma read_headers_ok: "request_ok req \<Longrightarrow> read_headers ps req = (req', ps') \<Longrightarrow> request_ok req'"
proof (induction ps req rule: read_headers.induct)
  case (2 p ps req)
  then show ?case
    using header_line_ok [of req] by (auto split: if_splits prod.splits)
qed simp

lemma parse_request_ok: "parseHTTPRequest ps = (True, req) \<Longrightarrow> request_ok req"
proof -
  have start: "request_ok (empty_request\<lparr>hr_method := take 15 (c_str a), hr_path := take 255 (c_str b)\<rparr>)" for a b
    by (simp add: request_ok_def empty_request_def take_c_str_no_nul)
  have body: "request_ok (r\<lparr>hr_body := x, hr_bodyLen := n\<rparr>) = request_ok r" for r x n
    by (simp add: request_ok_def)
  assume "parseHTTPRequest ps = (True, req)"
  then show ?thesis
    by (auto simp: parseHTTPRequest_def Let_def body split: prod.splits if_splits option.splits
        intro: read_headers_ok [OF start])
qed

lemma buildURL_ok:
  assumes "request_ok req"
  shows "length (buildURL req 512) \<le> 389" "buildURL req 512 \<noteq> []" "0 \<notin> set (buildURL req 512)"
proof -
  have 0: "0 \<notin> set (str ''http://'')" "0 \<notin> set (str ''http://wap.bevelgacom.be'')"
    by (simp_all add: str_def)
  have ne: "hr_path req \<noteq> []" if "take 7 (hr_path req) = str ''http://'' \<or> take 8 (hr_path req) = str ''https://''"
    using that by (auto simp: str_def)
  show "length (buildURL req 512) \<le> 389" "buildURL req 512 \<noteq> []"
    using assms ne by (auto simp: buildURL_def request_ok_def str_def)
  show "0 \<notin> set (buildURL req 512)"
    using assms 0 by (auto simp: buildURL_def request_ok_def dest: in_set_takeD)
qed

text \<open>C15: The internal error of the request builder cannot happen: for every request the parser accepts, the
  URL (389 characters at most, uncut) and the headers fit the 512-byte request buffer, and the PDU
  built is the one a server reads back as this URL.\<close>

theorem wap_request_always_fits:
  assumes "parseHTTPRequest ps = (True, req)"
  shows "createGetRequest (Some (buildURL req 512 @ [0])) tid False 512 True =
      (let url = buildURL req 512; pdu = get_pdu tid url (request_headers True url) in (length pdu, pdu))
    \<and> length (buildURL req 512) \<le> 389 \<and> 0 \<notin> set (buildURL req 512)"
proof -
  note ok = buildURL_ok [OF parse_request_ok [OF assms]]
  have "c_str (buildURL req 512 @ [0]) = buildURL req 512"
    using ok(3) by (rule c_str_terminated_append)
  then show ?thesis
    using ok length_request_headers [of True "buildURL req 512"]
    by (simp add: createGetRequest_eq Let_def)
qed

text \<open>The request is sent as at most five messages.\<close>

definition wap_pdu :: "HTTPRequest \<Rightarrow> u8 \<Rightarrow> bytes" where
  "wap_pdu req tid = (let url = buildURL req 512 in get_pdu tid url (request_headers True url))"

section \<open>Ports\<close>

text \<open>Every random number gives a source port from 1024 to 9999, so never the 0 that means "no request".\<close>

lemma source_port_range:
  "1024 \<le> unat (ap_generateSourcePort rnd) \<and> unat (ap_generateSourcePort rnd) \<le> 9999"
proof -
  have m: "unat (rnd mod 8976) < 8976"
    by (simp add: unat_mod)
  have "unat (1024 + rnd mod 8976 :: u32) = 1024 + unat (rnd mod 8976)"
    using m by (simp add: unat_word_ariths)
  then show ?thesis
    using m by (simp add: ap_generateSourcePort_def unat_ucast_mod)
qed

lemma source_port_nonzero: "ap_generateSourcePort rnd \<noteq> 0"
  using source_port_range [of rnd] by auto

section \<open>The life of a request\<close>

lemma handle_get:
  assumes "parseHTTPRequest (he_polls env) = (True, req)" "\<not> blocked_host (hr_host req)"
    and "hr_method req = str ''GET'' \<or> hr_method req = str ''HEAD''"
  shows "handleHTTPRequest env st =
    (case sendWAPRequestViaMesh env (wap_pdu req (transactionCounter st)) 4096 15000 True
        (st\<lparr>transactionCounter := transactionCounter st + 1\<rparr>) of
       None \<Rightarrow> None
     | Some (Waiting, st) \<Rightarrow> Some (False, st)
     | Some (Answered wapResponse, st) \<Rightarrow>
         if ap_headersSent st
         then map_option (\<lambda>st. (True, ap_restoreNormalDisplay st)) (finish_early env wapResponse st)
         else map_option (\<lambda>(ok, st). (True, if ok then ap_restoreNormalDisplay st else st))
                (finish_full env wapResponse st)
     | Some (outcome, st) \<Rightarrow>
         Some (True, client_write (error_page ''HTTP/1.1 504 Gateway Timeout''
           (line ''Mesh proxy did not respond'')) st))"
proof -
  have "createGetRequest (Some (buildURL req 512 @ [0])) (transactionCounter st) False 512 True =
      (length (wap_pdu req (transactionCounter st)), wap_pdu req (transactionCounter st))"
    "wap_pdu req (transactionCounter st) \<noteq> []"
    using buildURL_ok [OF parse_request_ok [OF assms(1)]] length_request_headers [of True "buildURL req 512"]
      c_str_terminated_append [of "buildURL req 512" "[]"]
    by (simp_all add: createGetRequest_eq Let_def wap_pdu_def get_pdu_def)
  note req = this
  show ?thesis
  proof (cases "hr_method req = str ''GET''")
    case True
    then show ?thesis using assms(1,2) req by (simp add: handleHTTPRequest_def Let_def)
  next
    case False
    then have "hr_method req = str ''HEAD''" using assms(3) by blast
    then show ?thesis using assms(1,2) req by (simp add: handleHTTPRequest_def Let_def)
  qed
qed

text \<open>What the client gets when the request goes nowhere: a 400 page for a text that is not a request, no
  byte at all for a connectivity check, a 501 page that repeats the method for anything but GET and
  HEAD; in none of these cases is anything sent over the mesh.\<close>

lemma request_refused:
  assumes "parseHTTPRequest (he_polls env) = (ok, req)"
  shows "handleHTTPRequest env st =
    (if \<not> ok then
       Some (True, client_write (str ''HTTP/1.1 400 Bad Request'' @ crlf @ str ''Content-Type: text/plain'' @ crlf @
         str ''Connection: close'' @ crlf @ crlf @ str ''Bad Request'' @ crlf) st)
     else if blocked_host (hr_host req) then Some (True, st)
     else if hr_method req \<noteq> str ''GET'' \<and> hr_method req \<noteq> str ''HEAD'' then
       Some (True, client_write (str ''HTTP/1.1 501 Not Implemented'' @ crlf @ str ''Content-Type: text/plain'' @ crlf @
         str ''Connection: close'' @ crlf @ crlf @ str ''Method '' @ hr_method req @
         str '' not implemented for WAP proxy'' @ [10]) (st\<lparr>transactionCounter := transactionCounter st + 1\<rparr>))
     else handleHTTPRequest env st)"
  using assms by (simp add: handleHTTPRequest_def Let_def error_page_def line_def)

text \<open>The state in which the wait for the answer starts.\<close>

definition wait_start :: "http_env \<Rightarrow> bytes \<Rightarrow> APState \<Rightarrow> APState" where
  "wait_start env request st =
     (ap_sendWDPViaMesh (he_sendTime env) PROXY_NODE_PUBKEY (ap_generateSourcePort (he_rnd env)) WAPBOX_PORT request
        (request_started True (he_rnd env) st))\<lparr>ap_lastPartReceivedTime := he_startTime env\<rparr>"

lemma send_wait:
  "sendWAPRequestViaMesh env request 4096 15000 True st = ap_wait True 15000 4096 (he_rounds env) (wait_start env request st)"
  by (simp add: sendWAPRequestViaMesh_def wait_start_def Let_def request_started_def)

lemma wait_start_simps [simp]:
  "ap_currentRequestPort (wait_start env x st) = ap_generateSourcePort (he_rnd env)"
  "ap_waitingClient (wait_start env x st)" "\<not> ap_headersSent (wait_start env x st)"
  "\<not> ap_meshResponseReady (wait_start env x st)" "ap_lastPartReceivedTime (wait_start env x st) = he_startTime env"
  "ap_meshLoopCallback (wait_start env x st) = ap_meshLoopCallback st"
  "ap_concatMessages (wait_start env x st) = ap_concatMessages st"
  "ap_meshResponseBuffer (wait_start env x st) = ap_meshResponseBuffer st"
  by (simp_all add: wait_start_def ap_sendWDPViaMesh_def request_started_def)

lemma wait_start_out:
  "ap_sendMeshCallback st \<Longrightarrow> ap_out (wait_start env x st) =
     ap_out st @ map (Mesh_Message PROXY_NODE_PUBKEY)
       (wdp_messages (he_sendTime env) (ap_generateSourcePort (he_rnd env)) WAPBOX_PORT x)"
  by (simp add: wait_start_def ap_sendWDPViaMesh_def request_started_def ap_messages_eq)






text \<open>When only the first part of an answer arrives in time, its head (and body) have been sent early,
  and the timeout then writes a second status line, 504, into the middle of that response.\<close>

theorem timeout_after_early_headers:
  assumes parse: "parseHTTPRequest (he_polls env) = (True, req)" "\<not> blocked_host (hr_host req)"
      "hr_method req = str ''GET'' \<or> hr_method req = str ''HEAD''"
    and callbacks: "ap_sendMeshCallback st" "ap_meshLoopCallback st"
    and long: "113 < length data" and len: "length data \<le> 1728"
    and fresh: "find_slot cm_active concat_key (r, from) (ap_concatMessages st) = None"
    and free: "first_index (\<lambda>c. \<not> cm_active c) (ap_concatMessages st) = Some i"
    and sized: "slots_sized 4096 (ap_concatMessages st)"
    and dec: "decode (Some (part_payload data 1)) (Some zero_response) = Some (True, Some rs)" "\<not> is_wmlc rs"
    and rounds: "he_rounds env =
      [(t, [Mesh_In now True from (part_message r s (ap_generateSourcePort (he_rnd env)) data 1)], True), (t', [], True)]"
      "t - he_startTime env < 15000" "15000 \<le> t' - now"
  shows "\<exists>st'. handleHTTPRequest env st = Some (True, st') \<and>
    ap_out st' = ap_out st @
      map (Mesh_Message PROXY_NODE_PUBKEY)
        (wdp_messages (he_sendTime env) (ap_generateSourcePort (he_rnd env)) WAPBOX_PORT
           (wap_pdu req (transactionCounter st))) @
      streamed data rs 1 @
      [Client_Write (error_page ''HTTP/1.1 504 Gateway Timeout'' (line ''Mesh proxy did not respond''))]"
proof -
  let ?x = "wap_pdu req (transactionCounter st)" and ?st = "st\<lparr>transactionCounter := transactionCounter st + 1\<rparr>"
  define w where "w = wait_start env ?x ?st"
  have tabs: "ap_concatMessages w = ap_concatMessages st"
    and port: "ap_currentRequestPort w = 0 \<or> ap_currentRequestPort w = ap_generateSourcePort (he_rnd env)"
    and wait: "ap_waitingClient w" "\<not> ap_headersSent w" by (simp_all add: w_def)
  note fresh' = fresh [folded tabs] and free' = free [folded tabs] and sized' = sized [folded tabs]
  have "1 < count_parts (length data)" using long by (simp add: count_parts_def)
  then obtain a c where a: "ap_handleIncomingMesh now True from
      (part_message r s (ap_generateSourcePort (he_rnd env)) data 1) w = Some a"
    "same_response (w\<lparr>ap_concatMessages := (ap_concatMessages w)[i := c]\<rparr>) a"
    "ap_out a = ap_out w @ streamed data rs 1" "ap_lastPartReceivedTime a = now"
    using stream_prefix [OF len fresh' free' sized' port wait dec, where now = "\<lambda>_. now" and s = s and k = 1]
    by (auto split: option.splits)
  then have "ap_wait True 15000 4096 (he_rounds env) w = Some (Timed_Out, wait_timeout a)"
    using rounds(2,3) callbacks(2) by (simp add: rounds(1) w_def same_response_def not_le)
  then have "handleHTTPRequest env st = Some (True, client_write (error_page ''HTTP/1.1 504 Gateway Timeout''
      (line ''Mesh proxy did not respond'')) (wait_timeout a))"
    by (simp add: handle_get [OF parse] send_wait w_def [symmetric])
  then show ?thesis
    using a(3) callbacks(1)
    by (simp add: client_write_def wait_timeout_def ap_restoreNormalDisplay_def w_def wait_start_out)
qed

section \<open>Concrete runs\<close>

definition get_text :: bytes where
  "get_text = str ''GET / HTTP/1.1'' @ crlf @ str ''Host: a'' @ crlf @ crlf"

definition get_request :: HTTPRequest where
  "get_request = empty_request\<lparr>hr_method := str ''GET'', hr_path := str ''/'', hr_host := str ''a''\<rparr>"

lemma get_text_parse: "parseHTTPRequest (map Poll_Byte get_text) = (True, get_request)"
  by code_simp

lemma get_request_ok: "\<not> blocked_host (hr_host get_request)" "hr_method get_request = str ''GET''"
  by code_simp+

theorem parse_request_text_witness:
  "parseHTTPRequest (Poll_Idle # map Poll_Byte get_text) = (True, get_request)"
proof (rule parse_request_text)
  show "poll_bytes (Poll_Idle # map Poll_Byte get_text) = str ''GET'' @ [32] @ str ''/'' @ [32] @ str ''HTTP/1.1'' @ [13, 10] @
      List.concat (map (\<lambda>l. l @ [13, 10]) [str ''Host: a'']) @ [13, 10] @ []"
    by code_simp
  show "get_request = fold parse_header_line [str ''Host: a'']
      (empty_request\<lparr>hr_method := take 15 (str ''GET''), hr_path := take 255 (str ''/'')\<rparr>)"
    by code_simp
  show "hr_contentLength get_request = 0" by code_simp
qed (simp_all add: text_line_def str_def)

theorem wap_request_always_fits_witness:
  "fst (createGetRequest (Some (buildURL get_request 512 @ [0])) 0 False 512 True) \<noteq> 0"
  using wap_request_always_fits [OF get_text_parse, of 0]
  by (simp add: Let_def get_pdu_def)

text \<open>An access point between requests, and an environment in which the answer comes in one message.\<close>

definition idle_ap :: APState where
  "idle_ap = ap_zero\<lparr>ap_initialized := True, ap_httpServer := True, ap_sendMeshCallback := True,
     ap_meshLoopCallback := True\<rparr>"

lemma idle_ap_simps [simp]:
  "ap_sendMeshCallback idle_ap" "ap_meshLoopCallback idle_ap" "ap_out idle_ap = []"
  "find_slot cm_active concat_key k (ap_concatMessages idle_ap) = None"
  "first_index (\<lambda>c. \<not> cm_active c) (ap_concatMessages idle_ap) = Some 0"
  "slots_sized 4096 (ap_concatMessages idle_ap)"
  by (simp_all add: idle_ap_def ap_zero_def find_slot_def first_index_replicate slots_sized_def)

definition get_env :: "wait_round list \<Rightarrow> http_env" where
  "get_env rounds = \<lparr>he_polls = map Poll_Byte get_text, he_rnd = 0, he_sendTime = 5, he_startTime = 10,
     he_rounds = rounds, he_fuel = 1000, he_uninit = 0\<rparr>"

lemma get_env_simps [simp]:
  "he_polls (get_env rs) = map Poll_Byte get_text" "he_rnd (get_env rs) = 0"
  "he_sendTime (get_env rs) = 5" "he_startTime (get_env rs) = 10" "he_rounds (get_env rs) = rs"
  by (simp_all add: get_env_def)


theorem timeout_after_early_headers_witness:
  "\<exists>rs st'. handleHTTPRequest (get_env [(20, [Mesh_In 20 True [1]
        (part_message 0 9200 (ap_generateSourcePort 0) long_reply 1)], True), (15020, [], True)]) idle_ap = Some (True, st') \<and>
    last (ap_out st') = Client_Write (error_page ''HTTP/1.1 504 Gateway Timeout'' (line ''Mesh proxy did not respond'')) \<and>
    Client_Write (early_head False rs) \<in> set (ap_out st')"
proof -
  let ?env = "get_env [(20, [Mesh_In 20 True [1]
    (part_message 0 9200 (ap_generateSourcePort 0) long_reply 1)], True), (15020, [], True)]"
  obtain rs where rs: "decode (Some (part_payload long_reply 1)) (Some zero_response) = Some (True, Some rs)" "\<not> is_wmlc rs"
    using long_reply_decode by blast
  show ?thesis
    using timeout_after_early_headers [of ?env get_request idle_ap long_reply 0 "[1]" 0 rs 20 20 9200 15020]
      get_text_parse get_request_ok rs
    by (auto simp: long_reply_parts(1) streamed_def)
qed

end
