(* ===== verification/Journey.thy ===== *)
theory Journey
  imports NodeConsole ApHttp
begin

text \<open>
  What the components do together: a request crosses the proxy node and its answer comes back as a
  text, and a compiled page that arrives as such a text reaches the waiting browser as WML.  The
  sections on single nodes and gateways in a quiet state are the lemmas for the two journeys.
\<close>

section \<open>A request on its way to the WAP box\<close>

text \<open>A node with nothing queued and no line typed; a gateway without connections.\<close>

definition node_quiet :: "'b MyMesh \<Rightarrow> bool" where
  "node_quiet st \<longleftrightarrow> inbox_idle st \<and> (\<forall>m \<in> set (pending_replies st). \<not> pr_active m) \<and> typed [] st"

definition gateway_quiet :: "WDPGateway \<Rightarrow> bool" where
  "gateway_quiet gw \<longleftrightarrow> gw_pendingConnections gw \<noteq> [] \<and> (\<forall>c \<in> set (gw_pendingConnections gw). \<not> pc_active c)"

lemma console_quiet: "typed [] st \<Longrightarrow> console_step lib now [] st = Some (st, [])"
  using typed_c_str [of "[]" st] by (auto simp: console_step_def Let_def)

lemma reply_quiet: "\<forall>m \<in> set (pending_replies st). \<not> pr_active m \<Longrightarrow> reply_step lib now st = st"
  using first_index_None [of "\<lambda>m. pr_active m \<and> now - pr_time m > 100" "pending_replies st"]
  by (simp add: reply_step_def)

lemma loop_quiet:
  assumes "gateway_quiet gw"
  shows "gateway_loop (\<lambda>i. None) now gw =
    (gw\<lparr>gw_concatMessages := map (expire_concat now) (gw_concatMessages gw)\<rparr>, [])"
proof -
  have one: "for_slots (\<lambda>i. recv_step cb None i) k cs = (cs, [])" for cb k cs
    by (induction cs arbitrary: k) (auto simp: recv_step_def)
  have two: "\<forall>c \<in> set cs. \<not> pc_active c \<Longrightarrow> for_slots (expire_step now) k cs = (cs, [])" for k cs
    by (induction cs arbitrary: k) (auto simp: expire_step_def)
  show ?thesis
    using assms two [of "gw_pendingConnections gw"] by (simp add: gateway_loop_def one gateway_quiet_def)
qed

lemma forward_quiet:
  assumes "gateway_quiet gw" "ue_fromString udp (gw_wapBoxHost gw) = Some ip"
  shows "\<exists>conn. forwardToWAPBox udp now sender p q x gw =
      (gw\<lparr>gw_pendingConnections := (gw_pendingConnections gw)[0 := conn]\<rparr>,
       [Udp_Stop 0, Udp_Begin 0 p, Udp_Send 0 ip q x]) \<and>
    pc_active conn \<and> pc_clientSourcePort conn = p \<and> pc_meshRecipient conn = sender"
proof -
  obtain c cs where cs: "gw_pendingConnections gw = c # cs" "\<not> pc_active c" "\<forall>c \<in> set cs. \<not> pc_active c"
    using assms(1) by (cases "gw_pendingConnections gw") (auto simp: gateway_quiet_def)
  have "find_slot pc_active pc_key (p, sender) (gw_pendingConnections gw) = None"
    using cs by (auto simp: find_slot_def first_index_None)
  moreover have "first_index (\<lambda>c. pc_active c \<longrightarrow> 60000 < now - pc_timestamp c) (gw_pendingConnections gw) = Some 0"
    using cs by (simp add: first_index_def)
  moreover define conn where "conn = \<lparr>pc_active = True, pc_clientSourcePort = p, pc_wapboxPort = q,
      pc_meshRecipient = sender, pc_timestamp = now, pc_udpSocket = (if ue_begin udp p then Some p else None)\<rparr>"
  ultimately show ?thesis
    using assms(2) by (intro exI [of _ conn]) (simp add: forwardToWAPBox_def Let_def)
qed

lemma proxy_prefix: "target_prefix stack PROXY_NODE_PUBKEY = [0x21, 0xBD, 0xD7, 0x70]"
proof -
  have "length PROXY_NODE_PUBKEY = 64" by (simp add: PROXY_NODE_PUBKEY_def)
  then have "target_prefix stack PROXY_NODE_PUBKEY = hexDecode PROXY_NODE_PUBKEY 8 4"
    by (simp add: target_prefix_def hexDecode_def)
  also have "\<dots> = [0x21, 0xBD, 0xD7, 0x70]" by code_simp
  finally show ?thesis .
qed


text \<open>A text that arrives at a quiet proxy, in a later turn.\<close>

lemma proxy_hears:
  assumes "node_quiet pn" "gateway_quiet gw" "ne_serial env = []" "ne_now env - now > 100"
    and "4 \<le> length (ci_pub_key sender)" "ml_lookup lib (mm_base pn) (take 4 (ci_pub_key sender)) \<noteq> None"
    and "length x \<le> 113" "p \<noteq> 0" "q \<noteq> 0" "ue_fromString udp (gw_wapBoxHost gw) = Some ip"
  shows "\<exists>pn' gw' conn. proxy_turn lib env udp (\<lambda>i. None)
      (onMessageRecv now sender (wdp_text (simple_message p q x)) pn, Some gw) =
      Some ((pn', Some gw'), [Udp_Stop 0, Udp_Begin 0 p, Udp_Send 0 ip q x]) \<and>
    gw_pendingConnections gw' = (gw_pendingConnections gw)[0 := conn] \<and>
    pc_active conn \<and> pc_clientSourcePort conn = p \<and> pc_meshRecipient conn = node_id (ci_pub_key sender) \<and>
    gw_callback gw' = gw_callback gw \<and> node_quiet pn' \<and> mm_base pn' = mm_base pn"
proof -
  let ?m = "simple_message p q x" and ?id = "node_id (ci_pub_key sender)"
  define g where "g = gw\<lparr>gw_concatMessages := map (expire_concat (ne_now env)) (gw_concatMessages gw)\<rparr>"
  have m: "isValidWDPMessage ?m" "length ?m \<le> 120"
    using assms(7-9) by (simp_all add: simple_is_valid parse_simple_message)
  obtain box where nxt: "next_datagram lib (ne_now env) (onMessageRecv now sender (wdp_text ?m) pn) =
      (Some (?id, ?m), pn\<lparr>pending_inbox := box, messages_handled := messages_handled pn + 1\<rparr>)"
    and box: "\<forall>x \<in> set box. \<not> pi_active x" "box \<noteq> []"
    using receive_message_text [OF m _ assms(4-6)] assms(1) by (auto simp: node_quiet_def)
  have "gateway_quiet g" "ue_fromString udp (gw_wapBoxHost g) = Some ip"
    using assms(2,10) by (simp_all add: g_def gateway_quiet_def)
  from forward_quiet [OF this, of "ne_now env" ?id p q x]
  obtain conn where fw: "forwardToWAPBox udp (ne_now env) ?id p q x g =
      (g\<lparr>gw_pendingConnections := (gw_pendingConnections g)[0 := conn]\<rparr>, [Udp_Stop 0, Udp_Begin 0 p, Udp_Send 0 ip q x])"
    and conn: "pc_active conn" "pc_clientSourcePort conn = p" "pc_meshRecipient conn = ?id" by blast
  have handle: "proxy_handleIncomingMesh udp (ne_now env) ?id ?m (Some g) =
      Some (Some (g\<lparr>gw_pendingConnections := (gw_pendingConnections g)[0 := conn]\<rparr>),
        [Udp_Stop 0, Udp_Begin 0 p, Udp_Send 0 ip q x])"
    by (simp add: proxy_handleIncomingMesh_def handleIncomingMesh_def parse_simple_message fw)
  let ?pn = "pn\<lparr>pending_inbox := box, messages_handled := messages_handled pn + 1\<rparr>"
  have quiet: "node_quiet ?pn" "reply_step lib (ne_now env) ?pn = ?pn" "console_step lib (ne_now env) [] ?pn = Some (?pn, [])"
    using assms(1) box by (auto simp: node_quiet_def inbox_idle_def typed_def intro!: reply_quiet console_quiet)
  have "proxy_turn lib env udp (\<lambda>i. None) (onMessageRecv now sender (wdp_text ?m) pn, Some gw) =
      Some ((?pn, Some (g\<lparr>gw_pendingConnections := (gw_pendingConnections g)[0 := conn]\<rparr>)),
        [Udp_Stop 0, Udp_Begin 0 p, Udp_Send 0 ip q x])"
    by (simp add: proxy_turn_def proxy_loop_def loop_quiet [OF assms(2)] mesh_sends_def send_datagrams_def nxt handle
        quiet assms(3) flip: g_def)
  then show ?thesis
    using conn quiet(1)
    by (intro exI [of _ ?pn] exI [of _ "g\<lparr>gw_pendingConnections := (gw_pendingConnections g)[0 := conn]\<rparr>"] exI [of _ conn])
      (simp add: g_def)
qed

text \<open>An answer of the WAP box on the connection of slot 0, in a turn of the proxy.\<close>

lemma proxy_answers:
  assumes "node_quiet pn" "ne_serial env = []" "gw_callback gw"
    and conns: "gw_pendingConnections gw = conn # cs" "\<forall>c \<in> set cs. \<not> pc_active c" "pc_active conn"
    and "pc_meshRecipient conn = node_id key" "4 \<le> length key"
    and "ml_lookup lib (mm_base pn) (take 4 key) = Some c"
    and "ml_sendMessage lib (mm_base pn) c (mm_rtc pn) (wdp_text (simple_message s (pc_clientSourcePort conn) y))
       (expected_ack_crc pn) = (result, crc, b)" "result \<noteq> MSG_SEND_FAILED"
    and "y \<noteq> []" "length y \<le> 113"
  shows "\<exists>pn' gw'. proxy_turn lib env udp (\<lambda>i. if i = 0 then Some (t, s, y) else None) (pn, Some gw) =
      Some ((pn', Some gw'), [Mesh_Send (node_id key) (simple_message s (pc_clientSourcePort conn) y), Udp_Stop 0]) \<and>
    mm_out pn' = mm_out pn @ [Text_Sent (ci_pub_key c) (wdp_text (simple_message s (pc_clientSourcePort conn) y))] \<and>
    gateway_quiet gw'"
proof -
  let ?m = "simple_message s (pc_clientSourcePort conn) y"
  have quiet: "for_slots (\<lambda>i. recv_step cb (if i = 0 then Some (t, s, y) else None) i) (Suc k) cs = (cs, [])" for cb k
    using conns(2) by (induction cs arbitrary: k) (auto simp: recv_step_def)
  have quiet': "for_slots (expire_step (ne_now env)) k cs = (cs, [])" for k
    using conns(2) by (induction cs arbitrary: k) (auto simp: expire_step_def)
  have msgs: "sendWDPViaMesh True t (node_id key) s (pc_clientSourcePort conn) (take 1500 y) = [Mesh_Send (node_id key) ?m]"
    using assms(13) by (simp add: sendWDPViaMesh_def wdp_messages_def maxPayload_simps)
  obtain gw' where gw': "gateway_loop (\<lambda>i. if i = 0 then Some (t, s, y) else None) (ne_now env) gw =
      (gw', [Mesh_Send (node_id key) ?m, Udp_Stop 0])" "gateway_quiet gw'"
    using conns(3) assms(3,12) msgs quiet [of True 0] quiet' conns(2)
    by (simp add: gateway_loop_def conns(1) recv_step_def expire_step_def clearPendingConnection_def Let_def
        assms(7) gateway_quiet_def)
  have look: "ml_lookup lib (mm_base pn) (target_prefix (ne_stack env) (node_id key)) = Some c"
    using assms(9) by (simp add: node_id_prefix(2) [OF assms(8)])
  define pn' where "pn' = pn\<lparr>mm_base := b, expected_ack_crc := crc, last_msg_sent := ne_now env,
      mm_out := mm_out pn @ [Text_Sent (ci_pub_key c) (wdp_text ?m)]\<rparr>"
  have "?m \<noteq> []" "length ?m \<le> 120" using assms(13) by (simp_all add: simple_message_def)
  from send_message_text [OF look assms(10,11) this]
  have send: "send_datagrams lib env [(node_id key, ?m)] pn = pn'"
    by (simp add: send_datagrams_def pn'_def)
  have "first_index (\<lambda>m. pi_active m \<and> ne_now env - pi_time m > 100) (pending_inbox pn') = None"
    using assms(1) by (auto simp: first_index_None node_quiet_def inbox_idle_def pn'_def)
  then have nxt: "next_datagram lib (ne_now env) pn' = (None, pn')"
    by (simp add: next_datagram_def take_inbox_def)
  have "reply_step lib (ne_now env) pn' = pn'" "console_step lib (ne_now env) [] pn' = Some (pn', [])"
    using assms(1) by (auto simp: node_quiet_def typed_def pn'_def intro!: reply_quiet console_quiet)
  then have "proxy_turn lib env udp (\<lambda>i. if i = 0 then Some (t, s, y) else None) (pn, Some gw) =
      Some ((pn', Some gw'), [Mesh_Send (node_id key) ?m, Udp_Stop 0])"
    using send by (simp add: proxy_turn_def proxy_loop_def gw'(1) mesh_sends_def nxt assms(2))
  then show ?thesis using gw'(2) by (intro exI conjI) (auto simp: pn'_def)
qed


text \<open>C23: A request crosses the proxy and its answer comes back: the text of a datagram of at most 113 bytes
  from a contact of the proxy leads, in a turn more than 100 ms later, to one UDP packet with exactly
  this datagram from the client's port to the WAP box; the answer that arrives on this socket in a
  later turn is sent as one text to the node the request came from, addressed to the client's port,
  and the connection is free again.\<close>

theorem proxy_round_trip:
  assumes "node_quiet pn" "gateway_quiet gw" "gw_callback gw" "ue_fromString udp (gw_wapBoxHost gw) = Some ip"
    and "ne_serial env = []" "ne_serial env' = []" "ne_now env - now > 100"
    and "4 \<le> length (ci_pub_key sender)" "ml_lookup lib (mm_base pn) (take 4 (ci_pub_key sender)) = Some sender"
    and "\<And>tm tx crc. fst (ml_sendMessage lib (mm_base pn) sender tm tx crc) \<noteq> MSG_SEND_FAILED"
    and "length x \<le> 113" "p \<noteq> 0" "q \<noteq> 0" "y \<noteq> []" "length y \<le> 113"
  shows "\<exists>pn1 gw1 pn2 gw2. proxy_turn lib env udp (\<lambda>i. None)
      (onMessageRecv now sender (wdp_text (simple_message p q x)) pn, Some gw) =
      Some ((pn1, Some gw1), [Udp_Stop 0, Udp_Begin 0 p, Udp_Send 0 ip q x]) \<and>
    proxy_turn lib env' udp (\<lambda>i. if i = 0 then Some (t, s, y) else None) (pn1, Some gw1) =
      Some ((pn2, Some gw2), [Mesh_Send (node_id (ci_pub_key sender)) (simple_message s p y), Udp_Stop 0]) \<and>
    mm_out pn2 = mm_out pn1 @ [Text_Sent (ci_pub_key sender) (wdp_text (simple_message s p y))] \<and> gateway_quiet gw2"
proof -
  have known: "ml_lookup lib (mm_base pn) (take 4 (ci_pub_key sender)) \<noteq> None" using assms(9) by simp
  obtain pn1 gw1 conn where turn: "proxy_turn lib env udp (\<lambda>i. None)
      (onMessageRecv now sender (wdp_text (simple_message p q x)) pn, Some gw) =
      Some ((pn1, Some gw1), [Udp_Stop 0, Udp_Begin 0 p, Udp_Send 0 ip q x])"
    and gw1: "gw_pendingConnections gw1 = (gw_pendingConnections gw)[0 := conn]" "gw_callback gw1"
    and conn: "pc_active conn" "pc_clientSourcePort conn = p" "pc_meshRecipient conn = node_id (ci_pub_key sender)"
    and pn1: "node_quiet pn1" "mm_base pn1 = mm_base pn"
    using proxy_hears [OF assms(1,2,5,7,8) known assms(11-13,4)] assms(3) by auto
  obtain c0 cs where cs: "gw_pendingConnections gw = c0 # cs" "\<forall>c \<in> set cs. \<not> pc_active c"
    using assms(2) by (cases "gw_pendingConnections gw") (auto simp: gateway_quiet_def)
  obtain result crc b where snd: "ml_sendMessage lib (mm_base pn1) sender (mm_rtc pn1)
      (wdp_text (simple_message s (pc_clientSourcePort conn) y)) (expected_ack_crc pn1) = (result, crc, b)" "result \<noteq> MSG_SEND_FAILED"
    using assms(10) by (metis fst_conv pn1(2) prod_cases3)
  have "gw_pendingConnections gw1 = conn # cs" using gw1(1) cs(1) by simp
  from proxy_answers [OF pn1(1) assms(6) gw1(2) this cs(2) conn(1,3) assms(8) _ snd assms(14,15), of udp t]
  show ?thesis using turn assms(9) pn1(2) conn(2) by auto
qed

section \<open>A page for the browser\<close>






section \<open>Concrete runs\<close>

definition quiet_env :: "u32 \<Rightarrow> node_env" where
  "quiet_env now = \<lparr>ne_now = now, ne_stack = [], ne_serial = []\<rparr>"

lemma quiet_env_simps [simp]: "ne_now (quiet_env t) = t" "ne_serial (quiet_env t) = []"
  by (simp_all add: quiet_env_def)

lemma sample_node_quiet: "node_quiet sample_node"
  using sample_node_idle sample_typed by (simp add: node_quiet_def) (simp add: sample_node_def)

theorem proxy_round_trip_witness:
  "\<exists>pn1 gw1 pn2 gw2. proxy_turn (sample_lib MSG_SEND_SENT_DIRECT (sample_contact 7)) (quiet_env 500) open_env (\<lambda>i. None)
      (onMessageRecv 100 (sample_contact 7) (wdp_text (simple_message 1025 9200 [1, 2])) sample_node, Some (new_gateway 0)) =
      Some ((pn1, Some gw1), [Udp_Stop 0, Udp_Begin 0 1025, Udp_Send 0 1 9200 [1, 2]]) \<and>
    proxy_turn (sample_lib MSG_SEND_SENT_DIRECT (sample_contact 7)) (quiet_env 900) open_env
      (\<lambda>i. if i = 0 then Some (850, 9200, [3]) else None) (pn1, Some gw1) =
      Some ((pn2, Some gw2), [Mesh_Send (node_id (replicate 32 7)) (simple_message 9200 1025 [3]), Udp_Stop 0]) \<and>
    gateway_quiet gw2"
proof -
  have "gateway_quiet (new_gateway 0)" by (simp add: gateway_quiet_def unused_connection_def)
  from proxy_round_trip [OF sample_node_quiet this, of open_env 1 "quiet_env 500" "quiet_env 900" 100 "sample_contact 7"
      "sample_lib MSG_SEND_SENT_DIRECT (sample_contact 7)" "[1, 2]" 1025 9200 "[3]" 850 9200]
  show ?thesis by (auto simp: open_env_def sample_key sample_contact_def)
qed








end
