(* ===== verification/NodeBoot.thy ===== *)
theory NodeBoot
  imports NodeConsole
begin

text \<open>
  The start of a node (\<^verbatim>\<open>begin\<close> and \<^verbatim>\<open>setup\<close> of \<^verbatim>\<open>src/main.cpp\<close>, the WLAN of \<^verbatim>\<open>src/mode_proxy.h\<close>), its
  main loop, the lines it shows, and the time-outs it gives the mesh library.  What the hardware and
  the file system answer is the record \<open>boot_env\<close>; None is the result of a start that never ends.
\<close>

section \<open>The display\<close>

text \<open>Four lines, None for one that is not drawn; \<open>snprintf\<close> keeps what fits with its terminator.\<close>

type_synonym screen = "bytes option list"

definition snprintf :: "nat \<Rightarrow> bytes \<Rightarrow> bytes option" where
  "snprintf room s = Some (take (room - 1) s)"

definition node_title :: "bytes option" where
  "node_title = Some (str ''MeshAccessProtocol'')"

definition messages_line :: "string \<Rightarrow> u32 \<Rightarrow> bytes" where
  "messages_line label n = str label @ fmt_nat (unat n)"

text \<open>\<open>updateDisplay\<close> in either mode, \<open>freq\<close> printed by \<open>fmt\<close>; None while a session has the display.\<close>

definition proxy_screen :: "(64 word \<Rightarrow> bytes) \<Rightarrow> 'b MyMesh \<Rightarrow> screen" where
  "proxy_screen fmt st =
     [node_title, snprintf 32 (str ''Proxy ready!''), snprintf 32 (str ''Freq: '' @ fmt (np_freq (prefs st)) @ str '' MHz''),
      snprintf 48 (messages_line ''Messages: '' (messages_handled st))]"

definition ap_screen :: "'b MyMesh \<Rightarrow> APState \<Rightarrow> screen option" where
  "ap_screen st ap =
     (if ap_wdpSessionActive ap then None
      else if ap_proxy_discovery_in_progress ap then
        Some [node_title, snprintf 32 (str ''Finding proxy...''),
              snprintf 32 (str ''Attempt '' @ fmt_int (ap_proxy_discovery_attempts ap) @ str ''/'' @ fmt_int AP_PROXY_DISCOVERY_MAX_RETRIES),
              snprintf 48 (str ''Pinging via flood'')]
      else if ap_proxy_path_discovered ap then
        (let pathLen = ap_proxy_path_len ap; clientCount = ap_connected_clients ap
         in Some [node_title,
                  (if pathLen = 0 then snprintf 32 (str ''Path: direct'')
                   else snprintf 32 (str ''Path: '' @ fmt_int pathLen @ str '' hop'' @ (if pathLen = 1 then [] else str ''s''))),
                  snprintf 32 (str ''WiFi Clients: '' @ fmt_int clientCount),
                  snprintf 48 (messages_line ''Msgs: '' (messages_handled st))])
      else
        Some [node_title, snprintf 32 (str ''Proxy: NOT FOUND!''),
              snprintf 32 (str ''WiFi Clients: '' @ fmt_int (ap_connected_clients ap)),
              snprintf 48 (messages_line ''Msgs: '' (messages_handled st))])"

text \<open>\<open>ap_updateWDPDisplay\<close>; the cast to \<open>int\<close> is of the size's 32 bits.\<close>

definition ap_updateWDPDisplay :: "APState \<Rightarrow> screen" where
  "ap_updateWDPDisplay ap =
     [node_title, snprintf 32 (str ''WDP Session''),
      snprintf 32 (str ''Sent: '' @ fmt_int (sint (of_nat (ap_wdpBytesSent ap) :: u32)) @ str '' bytes''),
      (if ap_wdpTotalParts ap > 0
       then snprintf 32 (str ''Recv: '' @ fmt_nat (ap_wdpReceivedParts ap) @ str ''/'' @ fmt_nat (ap_wdpTotalParts ap) @ str '' parts'')
       else snprintf 32 (str ''Waiting for reply...''))]"

section \<open>Time-outs\<close>

text \<open>A number as a \<open>float\<close>: 24 significant bits, halves to even.\<close>

fun bit_length :: "nat \<Rightarrow> nat" where
  "bit_length n = (if n = 0 then 0 else Suc (bit_length (n div 2)))"

declare bit_length.simps [simp del]

definition to_float :: "nat \<Rightarrow> nat" where
  "to_float n =
     (let k = bit_length n - 24; q = n div 2 ^ k; r = n mod 2 ^ k
      in if k = 0 then n
         else (if 2 * r > 2 ^ k \<or> (2 * r = 2 ^ k \<and> odd q) then q + 1 else q) * 2 ^ k)"

text \<open>The conversion back is undefined from 2^32 on: None.\<close>

definition float_to_u32 :: "nat \<Rightarrow> u32 option" where
  "float_to_u32 x = (if x < 2 ^ 32 then Some (of_nat x) else None)"

definition calcFloodTimeoutMillisFor :: "u32 \<Rightarrow> u32 option" where
  "calcFloodTimeoutMillisFor pkt_airtime_millis =
     float_to_u32 (to_float (500 + to_float (16 * to_float (unat pkt_airtime_millis))))"

definition calcDirectTimeoutMillisFor :: "u32 \<Rightarrow> u8 \<Rightarrow> u32 option" where
  "calcDirectTimeoutMillisFor pkt_airtime_millis path_len =
     float_to_u32 (to_float (500 + to_float (to_float (to_float (to_float (unat pkt_airtime_millis) * 6) + 250) * (unat path_len + 1))))"

section \<open>The WLAN of a proxy\<close>

text \<open>\<open>status k\<close>: whether the network is connected when it is asked for the time \<open>k\<close>.  The attempts made and
  the screens shown.\<close>

definition attempt_screen :: "bytes \<Rightarrow> nat \<Rightarrow> screen" where
  "attempt_screen ssid attempts =
     [Some (str ''WiFi [Proxy]''), snprintf 32 (str ''Connecting'' @ replicate (attempts mod 4 + 1) 46), Some ssid,
      snprintf 32 (str ''Attempt '' @ fmt_nat attempts @ str ''/'' @ fmt_nat 30)]"

function wifi_wait :: "(nat \<Rightarrow> bool) \<Rightarrow> bytes \<Rightarrow> nat \<Rightarrow> nat \<times> screen list" where
  "wifi_wait status ssid attempts =
     (if \<not> status attempts \<and> attempts < 30
      then (case wifi_wait status ssid (attempts + 1) of (n, screens) \<Rightarrow> (n, attempt_screen ssid (attempts + 1) # screens))
      else (attempts, []))"
  by pat_completeness auto
termination by (relation "measure (\<lambda>(status, ssid, attempts). 30 - attempts)") auto

declare wifi_wait.simps [simp del]

definition proxy_connectToWiFi :: "(nat \<Rightarrow> bool) \<Rightarrow> bytes \<Rightarrow> bytes \<Rightarrow> nat \<times> screen list" where
  "proxy_connectToWiFi status ssid ip =
     (case wifi_wait status ssid 0 of (attempts, screens) \<Rightarrow>
        (attempts,
         [[Some (str ''WiFi [Proxy]''), Some (str ''Connecting to:''), Some ssid, None]] @ screens @
         [if status (attempts + 1)
          then [Some (str ''WiFi Connected!''), Some ssid, snprintf 32 (str ''IP: '' @ ip), None]
          else [Some (str ''WiFi FAILED!''), Some (str ''Could not connect''), Some ssid, Some (str ''Continuing...'')]]))"

section \<open>The start\<close>

record 'b boot_env =
  be_lib :: "'b mesh_lib"
  be_now :: u32
  be_softAP :: bool
  be_wifi :: "nat \<Rightarrow> bool"
  be_ssid :: bytes
  be_ip :: bytes
  be_connected :: bool
  be_radio :: bool
  be_identity :: "(bytes \<times> bytes) option"
  be_serial :: bytes
  be_keys :: "nat \<Rightarrow> bytes"
  be_prefs :: "NodePrefs option"
  be_contacts :: "bytes option"
  be_addChannel :: "bytes \<Rightarrow> bytes \<Rightarrow> 'b \<Rightarrow> 'b"

text \<open>The node, its key, the identity it saved if it made one, and what the radio was set to.\<close>

record 'b booted =
  bo_node :: "'b MyMesh"
  bo_key :: bytes
  bo_saved :: "bytes option"
  bo_freq :: "64 word"
  bo_power :: u8

text \<open>\<open>while (c != '\n')\<close>: what follows the line end; None when it is not typed.\<close>

fun wait_enter :: "bytes \<Rightarrow> bytes option" where
  "wait_enter [] = None"
| "wait_enter (c # cs) = (if c = 10 then Some cs else wait_enter cs)"

text \<open>\<open>store.load\<close> finds the key and writes the name it was saved with; a key is made after ENTER.\<close>

definition load_identity :: "'b boot_env \<Rightarrow> 'b MyMesh \<Rightarrow> 'b booted option" where
  "load_identity env st =
     (case be_identity env of
        Some (key, name) \<Rightarrow>
          Some \<lparr>bo_node = st\<lparr>prefs := (prefs st)\<lparr>np_node_name := name\<rparr>\<rparr>, bo_key = key, bo_saved = None, bo_freq = 0, bo_power = 0\<rparr>
      | None \<Rightarrow>
          (case wait_enter (be_serial env) of
             None \<Rightarrow> None
           | Some rest \<Rightarrow>
               (let key = new_identity (be_keys env)
                in Some \<lparr>bo_node = st, bo_key = key, bo_saved = Some key, bo_freq = 0, bo_power = 0\<rparr>)))"

definition load_prefs :: "'b boot_env \<Rightarrow> 'b MyMesh \<Rightarrow> 'b MyMesh" where
  "load_prefs env st = (case be_prefs env of Some p \<Rightarrow> st\<lparr>prefs := p\<rparr> | None \<Rightarrow> st)"

definition load_contacts :: "'b boot_env \<Rightarrow> 'b MyMesh \<Rightarrow> 'b MyMesh" where
  "load_contacts env st =
     (case be_contacts env of
        Some disk \<Rightarrow> st\<lparr>mm_base := loadContacts (ml_addContact (be_lib env)) disk (mm_base st)\<rparr>
      | None \<Rightarrow> st)"

definition PUBLIC_GROUP_PSK :: bytes where "PUBLIC_GROUP_PSK = str ''izOH6cXN6mrJ5e26oRXNcg==''"
definition MCRADAR_GROUP_PSK :: bytes where "MCRADAR_GROUP_PSK = str ''8nrPC/GFwuxLn9Nr8S+h7g==''"

definition add_channels :: "'b boot_env \<Rightarrow> 'b MyMesh \<Rightarrow> 'b MyMesh" where
  "add_channels env st =
     (let b = be_addChannel env (str ''Public'') PUBLIC_GROUP_PSK (mm_base st)
      in st\<lparr>mm_base := be_addChannel env (str ''MC-Radar'') MCRADAR_GROUP_PSK b\<rparr>)"

definition node_begin :: "'b boot_env \<Rightarrow> 'b MyMesh \<Rightarrow> 'b booted option" where
  "node_begin env st =
     map_option (\<lambda>b. b\<lparr>bo_node := add_channels env (load_contacts env (load_prefs env (bo_node b)))\<rparr>) (load_identity env st)"

text \<open>\<open>radio_set_params\<close> and \<open>radio_set_tx_power\<close> with the node's preferences.\<close>

definition configure_radio :: "'b booted \<Rightarrow> 'b booted" where
  "configure_radio b = b\<lparr>bo_freq := np_freq (prefs (bo_node b)), bo_power := np_tx_power_dbm (prefs (bo_node b))\<rparr>"

definition advertise :: "'b boot_env \<Rightarrow> 'b booted \<Rightarrow> 'b booted" where
  "advertise env b = b\<lparr>bo_node := sendSelfAdvert (be_lib env) (bo_node b)\<rparr>"

definition setup_ap :: "'b boot_env \<Rightarrow> 'b MyMesh \<times> APState \<Rightarrow> ('b booted \<times> APState) option" where
  "setup_ap env = (\<lambda>(st, ap).
     (let ap = ap_init (be_softAP env) ap
      in if \<not> be_radio env then None
         else case node_begin env st of
           None \<Rightarrow> None
         | Some b \<Rightarrow>
             (let b = configure_radio b;
                  (st, ap) = (if ap_initialized ap
                     then startProxyDiscovery (be_lib env) (be_now env) (bo_node b, ap_setMeshLoopCallback (ap_setMeshCallback ap))
                     else (bo_node b, ap))
              in Some (advertise env (b\<lparr>bo_node := st\<rparr>), ap))))"

definition WAPBOX_HOST :: bytes where "WAPBOX_HOST = str ''206.83.40.166''"

definition setup_proxy ::
  "'b boot_env \<Rightarrow> PendingConnection list \<Rightarrow> ConcatMessage list \<Rightarrow> 'b MyMesh \<Rightarrow> ('b booted \<times> WDPGateway option) option" where
  "setup_proxy env mem cmem st =
     (if \<not> be_radio env then None
      else case node_begin env st of
        None \<Rightarrow> None
      | Some b \<Rightarrow>
          (let b = configure_radio b;
               gw = (if be_connected env then proxy_begin (proxy_init WAPBOX_HOST WAPBOX_PORT mem cmem) else None)
           in Some (advertise env b, gw)))"

section \<open>The main loop\<close>

text \<open>A turn of the node, then the button; the second component says that the node goes to sleep.\<close>

definition main_loop_ap ::
  "'b mesh_lib \<Rightarrow> node_env \<Rightarrow> int \<Rightarrow> bool \<Rightarrow> (http_env \<times> 'b MyMesh) option \<Rightarrow> bool \<Rightarrow> ('b MyMesh \<times> APState) \<times> (u32 \<times> bool)
     \<Rightarrow> (('b MyMesh \<times> APState) \<times> bool \<times> (u32 \<times> bool)) option" where
  "main_loop_ap lib env stations connected client pressed = (\<lambda>(s, button).
     map_option (\<lambda>s. (s, checkUserButton (ne_now env) pressed button)) (ap_turn lib env stations connected client s))"

definition main_loop_proxy ::
  "'b mesh_lib \<Rightarrow> node_env \<Rightarrow> udp_env \<Rightarrow> (nat \<Rightarrow> (u32 \<times> u16 \<times> bytes) option) \<Rightarrow> bool \<Rightarrow> ('b MyMesh \<times> WDPGateway option) \<times> (u32 \<times> bool)
     \<Rightarrow> ((('b MyMesh \<times> WDPGateway option) \<times> proxy_action list) \<times> bool \<times> (u32 \<times> bool)) option" where
  "main_loop_proxy lib env udp recv pressed = (\<lambda>(s, button).
     map_option (\<lambda>s. (s, checkUserButton (ne_now env) pressed button)) (proxy_turn lib env udp recv s))"

end
