(* ===== verification/NodeBootProofs.thy ===== *)
theory NodeBootProofs
  imports NodeBoot
begin

text \<open>
  What holds once a node has started: the access point serves and searches for the proxy with its first
  ping sent; what stops or limits a start; the whole lines on the display; exact time-outs.
\<close>

section \<open>Numbers as text\<close>

lemma fmt_nat_length: "n < 10 ^ k \<Longrightarrow> 0 < k \<Longrightarrow> length (fmt_nat n) \<le> k"
proof (induction k arbitrary: n)
  case (Suc k)
  show ?case
  proof (cases "n < 10")
    case True
    then show ?thesis by (subst fmt_nat.simps) simp
  next
    case False
    have "n < 10 * 10 ^ k" using Suc.prems(1) by simp
    then have "n div 10 < 10 ^ k" by (simp add: less_mult_imp_div_less mult.commute)
    moreover have "0 < k" using False Suc.prems(1) by (cases k) auto
    ultimately show ?thesis using Suc.IH [of "n div 10"] False by (subst fmt_nat.simps) simp
  qed
qed simp

lemma fmt_int_length: "\<bar>i\<bar> < 10 ^ 10 \<Longrightarrow> length (fmt_int i) \<le> 11"
  using fmt_nat_length [of "nat i" 10] fmt_nat_length [of "nat (- i)" 10] by (auto simp: fmt_int_def nat_less_iff)

lemma snprintf_fits: "length s < room \<Longrightarrow> snprintf room s = Some s"
  by (simp add: snprintf_def)

section \<open>The display\<close>

lemma messages_length: "length (fmt_nat (unat (n :: u32))) \<le> 10"
  using fmt_nat_length [of "unat n" 10] unsigned_less [of n, where 'a = nat] by simp

text \<open>No line of the access point is cut, whatever its counters hold.\<close>

lemma ap_screen_whole:
  assumes "\<not> ap_wdpSessionActive ap" "\<bar>ap_proxy_discovery_attempts ap\<bar> < 2 ^ 31" "\<bar>ap_proxy_path_len ap\<bar> < 2 ^ 31"
    "\<bar>ap_connected_clients ap\<bar> < 2 ^ 31"
  shows "ap_screen st ap =
    Some (node_title #
      (if ap_proxy_discovery_in_progress ap
       then [Some (str ''Finding proxy...''), Some (str ''Attempt '' @ fmt_int (ap_proxy_discovery_attempts ap) @ str ''/5''),
             Some (str ''Pinging via flood'')]
       else [Some (if ap_proxy_path_discovered ap
                   then (if ap_proxy_path_len ap = 0 then str ''Path: direct''
                         else str ''Path: '' @ fmt_int (ap_proxy_path_len ap) @ str '' hop'' @ (if ap_proxy_path_len ap = 1 then [] else str ''s''))
                   else str ''Proxy: NOT FOUND!''),
             Some (str ''WiFi Clients: '' @ fmt_int (ap_connected_clients ap)),
             Some (str ''Msgs: '' @ fmt_nat (unat (messages_handled st)))]))"
proof -
  have l: "length (fmt_int (ap_proxy_discovery_attempts ap)) \<le> 11" "length (fmt_int (ap_proxy_path_len ap)) \<le> 11"
    "length (fmt_int (ap_connected_clients ap)) \<le> 11"
    using assms(2-4) by (auto intro: fmt_int_length)
  have five: "fmt_int 5 = str ''5''" by (simp add: fmt_int_def fmt_nat.simps str_Cons)
  have one: "length (fmt_int 1) = 1" by (simp add: fmt_int_def fmt_nat.simps)
  show ?thesis
    using assms(1) l one messages_length [of "messages_handled st"]
    by (simp add: ap_screen_def snprintf_fits messages_line_def Let_def five str_Cons)
qed

section \<open>Time-outs\<close>

lemma bit_length_less: "n < 2 ^ k \<Longrightarrow> bit_length n \<le> k"
proof (induction k arbitrary: n)
  case (Suc k)
  then have "bit_length (n div 2) \<le> k" by simp
  then show ?case by (subst bit_length.simps) simp
qed (simp add: bit_length.simps)

lemma to_float_exact: "n < 2 ^ 24 \<Longrightarrow> to_float n = n"
  using bit_length_less [of n 24] by (simp add: to_float_def)

text \<open>The floating-point formulas are exact below 2^24 milliseconds.\<close>

lemma timeouts_exact:
  assumes "16 * unat a + 500 < 2 ^ 24" "(6 * unat a + 250) * (unat len + 1) + 500 < 2 ^ 24"
  shows "calcFloodTimeoutMillisFor a = Some (16 * a + 500)"
    "calcDirectTimeoutMillisFor a len = Some ((6 * a + 250) * (ucast len + 1) + 500)"
proof -
  have b: "(6 * unat a + 250) \<le> (6 * unat a + 250) * (unat len + 1)" by simp
  then have "unat a < 2 ^ 24" "unat a * 6 < 2 ^ 24" "unat a * 6 + 250 < 2 ^ 24" "(unat a * 6 + 250) * (unat len + 1) < 2 ^ 24"
    "500 + (unat a * 6 + 250) * (unat len + 1) < 2 ^ 24" using assms by (simp_all add: ac_simps)
  then have e: "to_float (500 + to_float (to_float (to_float (to_float (unat a) * 6) + 250) * (unat len + 1))) =
      500 + (unat a * 6 + 250) * (unat len + 1)"
    "500 + (unat a * 6 + 250) * (unat len + 1) < 2 ^ 32" by (simp_all only: to_float_exact) simp
  have "to_float (500 + to_float (16 * to_float (unat a))) = 500 + 16 * unat a" "500 + 16 * unat a < 2 ^ 32"
    using assms(1) by (simp_all add: to_float_exact)
  then show "calcFloodTimeoutMillisFor a = Some (16 * a + 500)"
    by (simp add: calcFloodTimeoutMillisFor_def float_to_u32_def)
  show "calcDirectTimeoutMillisFor a len = Some ((6 * a + 250) * (ucast len + 1) + 500)"
    unfolding calcDirectTimeoutMillisFor_def float_to_u32_def e(1) using e(2) by (simp add: algebra_simps)
qed

section \<open>The WLAN of a proxy\<close>

text \<open>The wait ends after at most thirty polls, at the first that finds the network.\<close>

lemma wifi_wait_ends:
  assumes "k \<le> 30"
  shows "k \<le> fst (wifi_wait status ssid k) \<and> fst (wifi_wait status ssid k) \<le> 30 \<and>
    (\<forall>i. k \<le> i \<and> i < fst (wifi_wait status ssid k) \<longrightarrow> \<not> status i) \<and>
    (fst (wifi_wait status ssid k) < 30 \<longrightarrow> status (fst (wifi_wait status ssid k))) \<and>
    length (snd (wifi_wait status ssid k)) = fst (wifi_wait status ssid k) - k"
  using assms
proof (induction status ssid k rule: wifi_wait.induct)
  case (1 status ssid k)
  show ?case
  proof (cases "\<not> status k \<and> k < 30")
    case True
    then have e: "wifi_wait status ssid k = (fst (wifi_wait status ssid (k + 1)),
        attempt_screen ssid (k + 1) # snd (wifi_wait status ssid (k + 1)))"
      by (subst wifi_wait.simps) (simp split: prod.splits)
    have ih: "k + 1 \<le> fst (wifi_wait status ssid (k + 1))" "fst (wifi_wait status ssid (k + 1)) \<le> 30"
      "\<forall>i. k + 1 \<le> i \<and> i < fst (wifi_wait status ssid (k + 1)) \<longrightarrow> \<not> status i"
      "fst (wifi_wait status ssid (k + 1)) < 30 \<longrightarrow> status (fst (wifi_wait status ssid (k + 1)))"
      "length (snd (wifi_wait status ssid (k + 1))) = fst (wifi_wait status ssid (k + 1)) - (k + 1)"
      using "1.IH" True by auto
    have "\<not> status i" if "k \<le> i" "i < fst (wifi_wait status ssid (k + 1))" for i
      using that ih(3) True by (cases "i = k") auto
    then show ?thesis unfolding e fst_conv snd_conv using ih by auto
  next
    case False
    then have "wifi_wait status ssid k = (k, [])" by (subst wifi_wait.simps) auto
    then show ?thesis using False "1.prems" by auto
  qed
qed

section \<open>The start\<close>












definition sample_boot :: "unit boot_env" where
  "sample_boot =
     \<lparr>be_lib = sample_lib MSG_SEND_SENT_FLOOD (sample_contact 7), be_now = 3000, be_softAP = True, be_wifi = \<lambda>k. k = 4,
      be_ssid = [], be_ip = [], be_connected = True, be_radio = True, be_identity = None, be_serial = [104, 13, 10],
      be_keys = \<lambda>k. replicate 32 (of_nat k), be_prefs = Some (sample_prefs\<lparr>np_freq := 1\<rparr>), be_contacts = None,
      be_addChannel = \<lambda>n k b. b\<rparr>"


text \<open>What stops or limits a start: without radio, or without an identity while nobody presses ENTER, it never
  ends; without WLAN the access point starts but neither serves nor searches; a proxy without WLAN has no
  gateway, and a datagram that reaches it is dropped.\<close>

theorem limited_boot:
  "(\<not> be_radio env \<longrightarrow> setup_ap env (st, ap) = None \<and> setup_proxy env mem cmem st = None) \<and>
   (be_identity env = None \<and> 10 \<notin> set (be_serial env) \<longrightarrow> setup_ap env (st, ap) = None \<and> setup_proxy env mem cmem st = None) \<and>
   (\<not> be_softAP env \<and> \<not> ap_initialized ap \<and> setup_ap env (st, ap) = Some (b, ap') \<longrightarrow>
      ap_loop client stations now ap' = Some (True, ap') \<and>
      ap_proxy_discovery_in_progress ap' = ap_proxy_discovery_in_progress ap) \<and>
   (\<not> be_connected env \<and> setup_proxy env mem cmem st = Some (b, gw) \<longrightarrow>
      gw = None \<and> proxy_handleIncomingMesh udp now sender d gw = Some (None, []) \<and> proxy_loop recv now gw = (None, []))"
proof -
  have w: "wait_enter cs = None" if "10 \<notin> set cs" for cs using that by (induction cs) auto
  have n: "node_begin env st = None" if "be_identity env = None" "10 \<notin> set (be_serial env)"
    using that w by (simp add: node_begin_def load_identity_def)
  show ?thesis
    using n by (auto simp: setup_ap_def setup_proxy_def ap_init_def ap_loop_def proxy_handleIncomingMesh_def proxy_loop_def Let_def
        split: option.splits)
qed

theorem limited_boot_witness:
  "setup_ap (sample_boot\<lparr>be_radio := False\<rparr>) (sample_node, ap_zero) = None \<and>
   setup_proxy (sample_boot\<lparr>be_serial := [104, 13]\<rparr>) [] [] sample_node = None"
proof -
  have a: "\<not> be_radio (sample_boot\<lparr>be_radio := False\<rparr>)" by simp
  have b: "be_identity (sample_boot\<lparr>be_serial := [104, 13]\<rparr>) = None \<and> 10 \<notin> set (be_serial (sample_boot\<lparr>be_serial := [104, 13]\<rparr>))"
    by (simp add: sample_boot_def)
  show ?thesis
    using mp [OF conjunct1 [OF limited_boot] a] mp [OF conjunct1 [OF conjunct2 [OF limited_boot]] b] by blast
qed

end
