(* ===== verification/Fe.thy ===== *)
theory Fe
  imports MapPrelude
begin

text \<open>
  Arithmetic of the field of \<open>2^255 - 19\<close> elements (\<open>src/lib/ed25519/fe.c\<close>): a field element is an
  array of ten 32-bit limbs, alternately of weight 26 and 25 bits.  The limbs and the 64-bit
  intermediates are words read by \<^const>\<open>sint\<close>; \<open>>>\<close> on them is \<^const>\<open>signed_drop_bit\<close>.  This
  theory has the operations; their correctness is in the theories that follow.  Every function of
  the source copies its arguments to locals before it writes, so overlapping arguments are harmless
  and a result array is the value of the function.
\<close>

section \<open>Field elements\<close>

type_synonym i32 = "32 word"
type_synonym i64 = "64 word"
type_synonym fe = "i32 list"
type_synonym wide = "i64 list"

text \<open>\<open>wide\<close>: the ten 64-bit locals \<open>h0\<close> to \<open>h9\<close> of a function before they are stored.\<close>

definition fe_0 :: fe where
  "fe_0 = [0, 0, 0, 0, 0, 0, 0, 0, 0, 0]"

definition fe_1 :: fe where
  "fe_1 = [1, 0, 0, 0, 0, 0, 0, 0, 0, 0]"

definition fe_add :: "fe \<Rightarrow> fe \<Rightarrow> fe" where
  "fe_add f g = map2 (+) f g"

definition fe_sub :: "fe \<Rightarrow> fe \<Rightarrow> fe" where
  "fe_sub f g = map2 (-) f g"

definition fe_neg :: "fe \<Rightarrow> fe" where
  "fe_neg f = map uminus f"

definition fe_copy :: "fe \<Rightarrow> fe" where
  "fe_copy f = f"

text \<open>The new first argument, and the new pair; \<open>b\<close> becomes the mask \<open>- b\<close>.\<close>

definition masked_xor :: "u32 \<Rightarrow> i32 \<Rightarrow> i32 \<Rightarrow> i32" where
  "masked_xor b f g = (f XOR g) AND (- b)"

definition fe_cmov :: "fe \<Rightarrow> fe \<Rightarrow> u32 \<Rightarrow> fe" where
  "fe_cmov f g b = map2 (\<lambda>f g. f XOR masked_xor b f g) f g"

definition fe_cswap :: "fe \<Rightarrow> fe \<Rightarrow> u32 \<Rightarrow> fe \<times> fe" where
  "fe_cswap f g b =
     (map2 (\<lambda>f g. f XOR masked_xor b f g) f g, map2 (\<lambda>f g. g XOR masked_xor b f g) f g)"

section \<open>Carries\<close>

text \<open>\<open>carry = (h + (1 << 25)) >> 26; h' += carry; h -= carry << 26\<close> where \<open>h\<close> is an even limb, the
  same with 24 and 25 for an odd one; the carry out of limb 9 comes back into limb 0 multiplied by 19.\<close>

definition limb_bits :: "nat \<Rightarrow> nat" where
  "limb_bits i = (if even i then 26 else 25)"

definition carry_at :: "nat \<Rightarrow> wide \<Rightarrow> wide" where
  "carry_at i h =
     (let carry = signed_drop_bit (limb_bits i) (h ! i + push_bit (limb_bits i - 1) 1);
          h = (if i = 9 then h[0 := h ! 0 + carry * 19] else h[i + 1 := h ! (i + 1) + carry])
      in h[i := h ! i - push_bit (limb_bits i) carry])"

text \<open>The stores \<open>h[i] = (int32_t) hi\<close>, after the carries in the order that ends \<open>fe_mul\<close>, \<open>fe_sq\<close> and
  \<open>fe_sq2\<close>, and in the one that ends \<open>fe_frombytes\<close> and \<open>fe_mul121666\<close>.\<close>

definition mul_carries :: "wide \<Rightarrow> fe" where
  "mul_carries h = map scast (fold carry_at [0, 4, 1, 5, 2, 6, 3, 7, 4, 8, 9, 0] h)"

definition odd_even_carries :: "wide \<Rightarrow> fe" where
  "odd_even_carries h = map scast (fold carry_at [9, 1, 3, 5, 7, 0, 2, 4, 6, 8] h)"

section \<open>Products\<close>

text \<open>\<open>f * (int64_t) g\<close>\<close>

definition mul64 :: "i32 \<Rightarrow> i32 \<Rightarrow> i64" where
  "mul64 f g = scast f * scast g"

definition fe_mul_sums :: "fe \<Rightarrow> fe \<Rightarrow> wide" where
  "fe_mul_sums f g =
     (let f0 = f ! 0; f1 = f ! 1; f2 = f ! 2; f3 = f ! 3; f4 = f ! 4;
         f5 = f ! 5; f6 = f ! 6; f7 = f ! 7; f8 = f ! 8; f9 = f ! 9;
         g0 = g ! 0; g1 = g ! 1; g2 = g ! 2; g3 = g ! 3; g4 = g ! 4;
         g5 = g ! 5; g6 = g ! 6; g7 = g ! 7; g8 = g ! 8; g9 = g ! 9;
         g1_19 = 19 * g1; g2_19 = 19 * g2; g3_19 = 19 * g3; g4_19 = 19 * g4;
         g5_19 = 19 * g5; g6_19 = 19 * g6; g7_19 = 19 * g7; g8_19 = 19 * g8;
         g9_19 = 19 * g9; f1_2 = 2 * f1; f3_2 = 2 * f3; f5_2 = 2 * f5;
         f7_2 = 2 * f7; f9_2 = 2 * f9;
         h0 = mul64 f0 g0 + mul64 f1_2 g9_19 + mul64 f2 g8_19 + mul64 f3_2 g7_19 +
              mul64 f4 g6_19 + mul64 f5_2 g5_19 + mul64 f6 g4_19 + mul64 f7_2 g3_19 +
              mul64 f8 g2_19 + mul64 f9_2 g1_19;
         h1 = mul64 f0 g1 + mul64 f1 g0 + mul64 f2 g9_19 + mul64 f3 g8_19 +
              mul64 f4 g7_19 + mul64 f5 g6_19 + mul64 f6 g5_19 + mul64 f7 g4_19 +
              mul64 f8 g3_19 + mul64 f9 g2_19;
         h2 = mul64 f0 g2 + mul64 f1_2 g1 + mul64 f2 g0 + mul64 f3_2 g9_19 +
              mul64 f4 g8_19 + mul64 f5_2 g7_19 + mul64 f6 g6_19 + mul64 f7_2 g5_19 +
              mul64 f8 g4_19 + mul64 f9_2 g3_19;
         h3 = mul64 f0 g3 + mul64 f1 g2 + mul64 f2 g1 + mul64 f3 g0 +
              mul64 f4 g9_19 + mul64 f5 g8_19 + mul64 f6 g7_19 + mul64 f7 g6_19 +
              mul64 f8 g5_19 + mul64 f9 g4_19;
         h4 = mul64 f0 g4 + mul64 f1_2 g3 + mul64 f2 g2 + mul64 f3_2 g1 +
              mul64 f4 g0 + mul64 f5_2 g9_19 + mul64 f6 g8_19 + mul64 f7_2 g7_19 +
              mul64 f8 g6_19 + mul64 f9_2 g5_19;
         h5 = mul64 f0 g5 + mul64 f1 g4 + mul64 f2 g3 + mul64 f3 g2 +
              mul64 f4 g1 + mul64 f5 g0 + mul64 f6 g9_19 + mul64 f7 g8_19 +
              mul64 f8 g7_19 + mul64 f9 g6_19;
         h6 = mul64 f0 g6 + mul64 f1_2 g5 + mul64 f2 g4 + mul64 f3_2 g3 +
              mul64 f4 g2 + mul64 f5_2 g1 + mul64 f6 g0 + mul64 f7_2 g9_19 +
              mul64 f8 g8_19 + mul64 f9_2 g7_19;
         h7 = mul64 f0 g7 + mul64 f1 g6 + mul64 f2 g5 + mul64 f3 g4 +
              mul64 f4 g3 + mul64 f5 g2 + mul64 f6 g1 + mul64 f7 g0 +
              mul64 f8 g9_19 + mul64 f9 g8_19;
         h8 = mul64 f0 g8 + mul64 f1_2 g7 + mul64 f2 g6 + mul64 f3_2 g5 +
              mul64 f4 g4 + mul64 f5_2 g3 + mul64 f6 g2 + mul64 f7_2 g1 +
              mul64 f8 g0 + mul64 f9_2 g9_19;
         h9 = mul64 f0 g9 + mul64 f1 g8 + mul64 f2 g7 + mul64 f3 g6 +
              mul64 f4 g5 + mul64 f5 g4 + mul64 f6 g3 + mul64 f7 g2 +
              mul64 f8 g1 + mul64 f9 g0
      in [h0, h1, h2, h3, h4, h5, h6, h7, h8, h9])"

definition fe_mul :: "fe \<Rightarrow> fe \<Rightarrow> fe" where
  "fe_mul f g = mul_carries (fe_mul_sums f g)"

definition fe_sq_sums :: "fe \<Rightarrow> wide" where
  "fe_sq_sums f =
     (let f0 = f ! 0; f1 = f ! 1; f2 = f ! 2; f3 = f ! 3; f4 = f ! 4;
         f5 = f ! 5; f6 = f ! 6; f7 = f ! 7; f8 = f ! 8; f9 = f ! 9;
         f0_2 = 2 * f0; f1_2 = 2 * f1; f2_2 = 2 * f2; f3_2 = 2 * f3;
         f4_2 = 2 * f4; f5_2 = 2 * f5; f6_2 = 2 * f6; f7_2 = 2 * f7;
         f5_38 = 38 * f5; f6_19 = 19 * f6; f7_38 = 38 * f7; f8_19 = 19 * f8;
         f9_38 = 38 * f9;
         h0 = mul64 f0 f0 + mul64 f1_2 f9_38 + mul64 f2_2 f8_19 + mul64 f3_2 f7_38 +
              mul64 f4_2 f6_19 + mul64 f5 f5_38;
         h1 = mul64 f0_2 f1 + mul64 f2 f9_38 + mul64 f3_2 f8_19 + mul64 f4 f7_38 +
              mul64 f5_2 f6_19;
         h2 = mul64 f0_2 f2 + mul64 f1_2 f1 + mul64 f3_2 f9_38 + mul64 f4_2 f8_19 +
              mul64 f5_2 f7_38 + mul64 f6 f6_19;
         h3 = mul64 f0_2 f3 + mul64 f1_2 f2 + mul64 f4 f9_38 + mul64 f5_2 f8_19 +
              mul64 f6 f7_38;
         h4 = mul64 f0_2 f4 + mul64 f1_2 f3_2 + mul64 f2 f2 + mul64 f5_2 f9_38 +
              mul64 f6_2 f8_19 + mul64 f7 f7_38;
         h5 = mul64 f0_2 f5 + mul64 f1_2 f4 + mul64 f2_2 f3 + mul64 f6 f9_38 +
              mul64 f7_2 f8_19;
         h6 = mul64 f0_2 f6 + mul64 f1_2 f5_2 + mul64 f2_2 f4 + mul64 f3_2 f3 +
              mul64 f7_2 f9_38 + mul64 f8 f8_19;
         h7 = mul64 f0_2 f7 + mul64 f1_2 f6 + mul64 f2_2 f5 + mul64 f3_2 f4 +
              mul64 f8 f9_38;
         h8 = mul64 f0_2 f8 + mul64 f1_2 f7_2 + mul64 f2_2 f6 + mul64 f3_2 f5_2 +
              mul64 f4 f4 + mul64 f9 f9_38;
         h9 = mul64 f0_2 f9 + mul64 f1_2 f8 + mul64 f2_2 f7 + mul64 f3_2 f6 +
              mul64 f4_2 f5
      in [h0, h1, h2, h3, h4, h5, h6, h7, h8, h9])"

definition fe_sq :: "fe \<Rightarrow> fe" where
  "fe_sq f = mul_carries (fe_sq_sums f)"

text \<open>\<open>fe_sq2\<close> repeats the sums of \<open>fe_sq\<close> and doubles each before the carries.\<close>

definition fe_sq2 :: "fe \<Rightarrow> fe" where
  "fe_sq2 f = mul_carries (map (\<lambda>h. h + h) (fe_sq_sums f))"

definition fe_mul121666 :: "fe \<Rightarrow> fe" where
  "fe_mul121666 f = odd_even_carries (map (\<lambda>x. mul64 x 121666) f)"

section \<open>Powers\<close>

text \<open>A first \<open>fe_sq\<close> and the loop \<open>for (i = 1; i < n; ++i)\<close> of further ones.\<close>

definition fe_sqn :: "nat \<Rightarrow> fe \<Rightarrow> fe" where
  "fe_sqn n f = (fe_sq ^^ (n - 1)) (fe_sq f)"

definition fe_invert :: "fe \<Rightarrow> fe" where
  "fe_invert z =
     (let t0 = fe_sqn 1 z;
          t1 = fe_sqn 2 t0;
          t1 = fe_mul z t1;
          t0 = fe_mul t0 t1;
          t2 = fe_sqn 1 t0;
          t1 = fe_mul t1 t2;
          t2 = fe_sqn 5 t1;
          t1 = fe_mul t2 t1;
          t2 = fe_sqn 10 t1;
          t2 = fe_mul t2 t1;
          t3 = fe_sqn 20 t2;
          t2 = fe_mul t3 t2;
          t2 = fe_sqn 10 t2;
          t1 = fe_mul t2 t1;
          t2 = fe_sqn 50 t1;
          t2 = fe_mul t2 t1;
          t3 = fe_sqn 100 t2;
          t2 = fe_mul t3 t2;
          t2 = fe_sqn 50 t2;
          t1 = fe_mul t2 t1;
          t1 = fe_sqn 5 t1
      in fe_mul t1 t0)"

definition fe_pow22523 :: "fe \<Rightarrow> fe" where
  "fe_pow22523 z =
     (let t0 = fe_sqn 1 z;
          t1 = fe_sqn 2 t0;
          t1 = fe_mul z t1;
          t0 = fe_mul t0 t1;
          t0 = fe_sqn 1 t0;
          t0 = fe_mul t1 t0;
          t1 = fe_sqn 5 t0;
          t0 = fe_mul t1 t0;
          t1 = fe_sqn 10 t0;
          t1 = fe_mul t1 t0;
          t2 = fe_sqn 20 t1;
          t1 = fe_mul t2 t1;
          t1 = fe_sqn 10 t1;
          t0 = fe_mul t1 t0;
          t1 = fe_sqn 50 t0;
          t1 = fe_mul t1 t0;
          t2 = fe_sqn 100 t1;
          t1 = fe_mul t2 t1;
          t1 = fe_sqn 50 t1;
          t0 = fe_mul t1 t0;
          t0 = fe_sqn 2 t0
      in fe_mul t0 z)"

section \<open>Bytes\<close>

text \<open>The loads from the address \<open>at\<close> of the array.\<close>

definition load_3 :: "bytes \<Rightarrow> nat \<Rightarrow> i64" where
  "load_3 s at = ucast (s ! at) OR push_bit 8 (ucast (s ! (at + 1))) OR push_bit 16 (ucast (s ! (at + 2)))"

definition load_4 :: "bytes \<Rightarrow> nat \<Rightarrow> i64" where
  "load_4 s at = ucast (s ! at) OR push_bit 8 (ucast (s ! (at + 1))) OR push_bit 16 (ucast (s ! (at + 2))) OR
     push_bit 24 (ucast (s ! (at + 3)))"

definition frombytes_loads :: "bytes \<Rightarrow> wide" where
  "frombytes_loads s =
     [load_4 s 0, push_bit 6 (load_3 s 4), push_bit 5 (load_3 s 7), push_bit 3 (load_3 s 10),
      push_bit 2 (load_3 s 13), load_4 s 16, push_bit 7 (load_3 s 20), push_bit 5 (load_3 s 23),
      push_bit 4 (load_3 s 26), push_bit 2 (load_3 s 29 AND 8388607)]"

definition fe_frombytes :: "bytes \<Rightarrow> fe" where
  "fe_frombytes s = odd_even_carries (frombytes_loads s)"

text \<open>\<open>q\<close>, the exact carries (the one out of the top limb is dropped), and the bytes.\<close>

definition tobytes_q :: "fe \<Rightarrow> i32" where
  "tobytes_q h =
     (let q = signed_drop_bit 25 (19 * h ! 9 + push_bit 24 1)
      in fold (\<lambda>i q. signed_drop_bit (limb_bits i) (h ! i + q)) [0, 1, 2, 3, 4, 5, 6, 7, 8, 9] q)"

text \<open>\<open>carry = h >> 26; h' += carry; h -= carry << 26\<close>\<close>

definition exact_carry_at :: "nat \<Rightarrow> fe \<Rightarrow> fe" where
  "exact_carry_at i h =
     (let carry = signed_drop_bit (limb_bits i) (h ! i);
          h = (if i = 9 then h else h[i + 1 := h ! (i + 1) + carry])
      in h[i := h ! i - push_bit (limb_bits i) carry])"

definition tobytes_reduce :: "fe \<Rightarrow> fe" where
  "tobytes_reduce h =
     fold exact_carry_at [0, 1, 2, 3, 4, 5, 6, 7, 8, 9] (h[0 := h ! 0 + 19 * tobytes_q h])"

definition u8_at :: "nat \<Rightarrow> i32 \<Rightarrow> u8" where
  "u8_at k h = ucast (signed_drop_bit k h)"

definition u8_join :: "nat \<Rightarrow> i32 \<Rightarrow> nat \<Rightarrow> i32 \<Rightarrow> u8" where
  "u8_join k h l h' = ucast (signed_drop_bit k h OR push_bit l h')"

definition tobytes_pack :: "fe \<Rightarrow> bytes" where
  "tobytes_pack h =
     [u8_at 0 (h ! 0), u8_at 8 (h ! 0), u8_at 16 (h ! 0), u8_join 24 (h ! 0) 2 (h ! 1), u8_at 6 (h ! 1), u8_at 14 (h ! 1), u8_join 22 (h ! 1) 3 (h ! 2),
      u8_at 5 (h ! 2), u8_at 13 (h ! 2), u8_join 21 (h ! 2) 5 (h ! 3), u8_at 3 (h ! 3), u8_at 11 (h ! 3), u8_join 19 (h ! 3) 6 (h ! 4),
      u8_at 2 (h ! 4), u8_at 10 (h ! 4), u8_at 18 (h ! 4),
      u8_at 0 (h ! 5), u8_at 8 (h ! 5), u8_at 16 (h ! 5), u8_join 24 (h ! 5) 1 (h ! 6), u8_at 7 (h ! 6), u8_at 15 (h ! 6), u8_join 23 (h ! 6) 3 (h ! 7),
      u8_at 5 (h ! 7), u8_at 13 (h ! 7), u8_join 21 (h ! 7) 4 (h ! 8), u8_at 4 (h ! 8), u8_at 12 (h ! 8), u8_join 20 (h ! 8) 6 (h ! 9),
      u8_at 2 (h ! 9), u8_at 10 (h ! 9), u8_at 18 (h ! 9)]"

definition fe_tobytes :: "fe \<Rightarrow> bytes" where
  "fe_tobytes h = tobytes_pack (tobytes_reduce h)"

definition fe_isnegative :: "fe \<Rightarrow> i32" where
  "fe_isnegative f = ucast (fe_tobytes f ! 0 AND 1)"

definition fe_isnonzero :: "fe \<Rightarrow> i32" where
  "fe_isnonzero f =
     (let s = fe_tobytes f; r = fold (\<lambda>i r. r OR s ! i) [1..<32] (s ! 0) in if r \<noteq> 0 then 1 else 0)"

end
