(* ===== verification/FeSpec.thy ===== *)
theory FeSpec
  imports Fe
begin

text \<open>
  What a field element stands for, and the facts about signed words and carries the field
  operations share: a signed 32-bit or 64-bit operation yields the mathematical result when that
  result is in range, a carry keeps the sum of the weighted limbs and bounds the limb it leaves.
\<close>

section \<open>Signed words\<close>

lemma sint_word_of_int_32: "- (2 ^ 31) \<le> x \<Longrightarrow> x < 2 ^ 31 \<Longrightarrow> sint (word_of_int x :: i32) = x"
  unfolding sint_sbintrunc' by (rule signed_take_bit_int_eq_self) simp_all

lemma sint_word_of_int_64: "- (2 ^ 63) \<le> x \<Longrightarrow> x < 2 ^ 63 \<Longrightarrow> sint (word_of_int x :: i64) = x"
  unfolding sint_sbintrunc' by (rule signed_take_bit_int_eq_self) simp_all

lemma sint_range_32: "- (2 ^ 31) \<le> sint (a :: i32)" "sint (a :: i32) < 2 ^ 31"
  using sint_greater_eq [of a] sint_lt [of a] by simp_all

lemma sint_range_64: "- (2 ^ 63) \<le> sint (a :: i64)" "sint (a :: i64) < 2 ^ 63"
  using sint_greater_eq [of a] sint_lt [of a] by simp_all

lemma sint_add_32: "\<bar>sint a + sint b\<bar> < 2 ^ 31 \<Longrightarrow> sint (a + b :: i32) = sint a + sint b"
  using sint_word_of_int_32 [of "sint a + sint b"] by (simp flip: wi_hom_add)

lemma sint_sub_32: "\<bar>sint a - sint b\<bar> < 2 ^ 31 \<Longrightarrow> sint (a - b :: i32) = sint a - sint b"
  using sint_word_of_int_32 [of "sint a - sint b"] by (simp flip: wi_hom_sub)

lemma sint_neg_32: "\<bar>sint a\<bar> < 2 ^ 31 \<Longrightarrow> sint (- a :: i32) = - sint a"
  using sint_word_of_int_32 [of "- sint a"] by (simp flip: wi_hom_neg)

lemma sint_add_64: "\<bar>sint a + sint b\<bar> < 2 ^ 63 \<Longrightarrow> sint (a + b :: i64) = sint a + sint b"
  using sint_word_of_int_64 [of "sint a + sint b"] by (simp flip: wi_hom_add)

lemma sint_sub_64: "\<bar>sint a - sint b\<bar> < 2 ^ 63 \<Longrightarrow> sint (a - b :: i64) = sint a - sint b"
  using sint_word_of_int_64 [of "sint a - sint b"] by (simp flip: wi_hom_sub)

lemma sint_scale_32:
  assumes "\<bar>int k * sint a\<bar> < 2 ^ 31"
  shows "sint (of_nat k * a :: i32) = int k * sint a"
proof -
  have "of_nat k * a = word_of_int (int k * sint a)" by (simp flip: wi_hom_mult)
  then show ?thesis using assms sint_word_of_int_32 [of "int k * sint a"] by simp
qed

lemma sint_scale_64:
  assumes "\<bar>int k * sint a\<bar> < 2 ^ 63"
  shows "sint (of_nat k * a :: i64) = int k * sint a"
proof -
  have "of_nat k * a = word_of_int (int k * sint a)" by (simp flip: wi_hom_mult)
  then show ?thesis using assms sint_word_of_int_64 [of "int k * sint a"] by simp
qed

lemma sint_shift_down: "sint (signed_drop_bit k (a :: 'a::len word)) = sint a div 2 ^ k"
  by (simp add: sint_signed_drop_bit_eq drop_bit_eq_div)

lemma push_bit_scale: "push_bit k (a :: 'a::len word) = of_nat (2 ^ k) * a"
  by (simp add: push_bit_eq_mult)

lemma sint_scast_32: "\<bar>sint (a :: i64)\<bar> < 2 ^ 31 \<Longrightarrow> sint (scast a :: i32) = sint a"
  unfolding scast_eq by (rule sint_word_of_int_32) (simp_all add: abs_less_iff)

lemma sint_mul64: "sint (mul64 a b) = sint a * sint b"
proof -
  have a: "\<bar>sint a\<bar> \<le> 2 ^ 31" and b: "\<bar>sint b\<bar> \<le> 2 ^ 31"
    using sint_range_32 [of a] sint_range_32 [of b] by linarith+
  have "\<bar>sint a * sint b\<bar> \<le> 2 ^ 31 * 2 ^ 31"
    unfolding abs_mult using a b by (rule mult_mono) simp_all
  moreover have "mul64 a b = word_of_int (sint a * sint b)"
    unfolding mul64_def scast_eq by (simp only: wi_hom_mult)
  ultimately show ?thesis using sint_word_of_int_64 [of "sint a * sint b"] by simp
qed

lemma mul64_bound:
  assumes "\<bar>sint a\<bar> \<le> A" "\<bar>sint b\<bar> \<le> B" "A * B \<le> M"
  shows "\<bar>sint (mul64 a b)\<bar> \<le> M"
proof -
  have "\<bar>sint a * sint b\<bar> \<le> A * B"
    unfolding abs_mult using assms(1,2) by (rule mult_mono) (use assms(1) in simp_all)
  then show ?thesis using assms(3) by (simp add: sint_mul64)
qed

section \<open>Carries\<close>

text \<open>The quotient rounded to the nearest integer, and what it leaves.\<close>

lemma round_div_bounds:
  fixes x H :: int
  assumes "\<bar>x\<bar> \<le> H" "0 < k"
  defines "c \<equiv> (x + 2 ^ (k - 1)) div 2 ^ k"
  shows "\<bar>c\<bar> \<le> (H + 2 ^ (k - 1)) div 2 ^ k" "\<bar>x - 2 ^ k * c\<bar> \<le> 2 ^ (k - 1)"
proof -
  define K :: int where "K = 2 ^ (k - 1)"
  have K: "0 < K" "2 ^ k = 2 * K" unfolding K_def using assms(2) by (cases k; simp)+
  let ?m = "(H + K) div (2 * K)"
  have "2 * K * ?m + (H + K) mod (2 * K) = H + K" by (rule mult_div_mod_eq)
  moreover have "(H + K) mod (2 * K) < 2 * K" using K(1) by simp
  ultimately have m: "H < 2 * K * ?m + K" by linarith
  have "2 * K * c + (x + K) mod (2 * K) = x + K" unfolding c_def K(2) K_def [symmetric] by (rule mult_div_mod_eq)
  moreover have "0 \<le> (x + K) mod (2 * K)" "(x + K) mod (2 * K) < 2 * K" using K(1) by simp_all
  ultimately have c: "2 * K * c \<le> x + K" "x < 2 * K * c + K" by linarith+
  then show "\<bar>x - 2 ^ k * c\<bar> \<le> 2 ^ (k - 1)" unfolding K(2) K_def [symmetric] abs_le_iff by linarith
  have "2 * K * c < 2 * K * (?m + 1)" using c(1) m assms(1) by (simp add: algebra_simps)
  then have "c < ?m + 1" using K(1) by (simp only: mult_less_cancel_left_pos)
  moreover have "2 * K * (- ?m) < 2 * K * (c + 1)" using c(2) m assms(1) by (simp add: algebra_simps)
  then have "- ?m < c + 1" using K(1) by (simp only: mult_less_cancel_left_pos)
  ultimately show "\<bar>c\<bar> \<le> (H + 2 ^ (k - 1)) div 2 ^ k" unfolding K(2) K_def [symmetric] abs_le_iff by linarith
qed

section \<open>The value of limbs\<close>

definition fe_p :: int where
  "fe_p = 2 ^ 255 - 19"

definition limb_weight :: "nat \<Rightarrow> nat" where
  "limb_weight i = (51 * i + 1) div 2"

definition limbs_val :: "int list \<Rightarrow> int" where
  "limbs_val xs = (\<Sum>i<10. 2 ^ limb_weight i * xs ! i)"

definition fe_val :: "'a::len word list \<Rightarrow> int" where
  "fe_val f = limbs_val (map sint f)"

text \<open>The limbs are bounded, one by one, by the numbers of the list; \<open>fe_bound a b\<close>: the even limbs
  by \<open>a\<close> and the odd ones by \<open>b\<close>.\<close>

definition bounded :: "int list \<Rightarrow> 'a::len word list \<Rightarrow> bool" where
  "bounded bs h = list_all2 (\<lambda>b x. \<bar>sint x\<bar> \<le> b) bs h"

definition fe_bound :: "int \<Rightarrow> int \<Rightarrow> 'a::len word list \<Rightarrow> bool" where
  "fe_bound a b f = bounded [a, b, a, b, a, b, a, b, a, b] f"

lemma limb_weight_Suc: "i < 9 \<Longrightarrow> limb_weight (Suc i) = limb_weight i + limb_bits i"
  by (simp add: limb_weight_def limb_bits_def) presburger

lemma limbs_val_upd:
  assumes "i < 10" "length xs = 10"
  shows "limbs_val (xs[i := y]) = limbs_val xs + 2 ^ limb_weight i * (y - xs ! i)"
proof -
  have "2 ^ limb_weight j * xs[i := y] ! j =
      2 ^ limb_weight j * xs ! j + (if j = i then 2 ^ limb_weight i * (y - xs ! i) else 0)" if "j < 10" for j
    using that assms by (simp add: nth_list_update algebra_simps)
  then show ?thesis
    using assms(1) by (simp add: limbs_val_def sum.distrib)
qed

lemma limbs_val_map:
  assumes "length xs = 10"
  shows "limbs_val (map (\<lambda>x. c * x) xs) = c * limbs_val xs"
  using assms by (simp add: limbs_val_def sum_distrib_left ac_simps)

lemma bounded_length: "bounded bs h \<Longrightarrow> length h = length bs"
  by (simp add: bounded_def list_all2_lengthD)

lemma bounded_nth: "bounded bs h \<Longrightarrow> i < length bs \<Longrightarrow> \<bar>sint (h ! i)\<bar> \<le> bs ! i"
  by (auto simp: bounded_def list_all2_conv_all_nth)

lemma bounded_upd: "bounded bs h \<Longrightarrow> \<bar>sint x\<bar> \<le> b \<Longrightarrow> bounded (bs[i := b]) (h[i := x])"
  by (simp add: bounded_def list_all2_update_cong)

section \<open>A carry\<close>

lemma sint_push_one:
  assumes "k \<le> 30" shows "sint (push_bit k 1 :: i64) = 2 ^ k"
proof -
  have "(2::int) ^ k \<le> 2 ^ 30" using assms by (intro power_increasing) simp_all
  moreover have "- (2 ^ 63) \<le> (2::int) ^ k" by (rule order_trans [of _ 0]) simp_all
  ultimately show ?thesis
    using sint_word_of_int_64 [of "2 ^ k"] by (simp add: word_of_int_2p push_bit_eq_mult)
qed

text \<open>A carry of \<open>k\<close> bits from a limb \<open>h\<close> to \<open>h'\<close>, which gets \<open>m\<close> times the carry \<open>c\<close>.\<close>

lemma carry_step:
  fixes h h' :: i64
  assumes "\<bar>sint h\<bar> \<le> H" "\<bar>sint h'\<bar> \<le> H'" "0 < k" "k \<le> 31" "H < 2 ^ 63 - 2 ^ 31"
    "H' + int m * ((H + 2 ^ (k - 1)) div 2 ^ k) < 2 ^ 63"
  defines "c \<equiv> signed_drop_bit k (h + push_bit (k - 1) 1)"
  obtains y where "sint (h - push_bit k c) = sint h - 2 ^ k * y" "sint (h' + c * of_nat m) = sint h' + int m * y"
    "\<bar>sint (h - push_bit k c)\<bar> \<le> 2 ^ (k - 1)"
    "\<bar>sint (h' + c * of_nat m)\<bar> \<le> H' + int m * ((H + 2 ^ (k - 1)) div 2 ^ k)"
proof -
  define x where "x = sint h"
  define y where "y = (x + 2 ^ (k - 1)) div 2 ^ k"
  have K: "(2::int) ^ (k - 1) \<le> 2 ^ 30" using assms(4) by (intro power_increasing) simp_all
  have K0: "0 \<le> (2::int) ^ (k - 1)" "(2::int) ^ 30 + 2 ^ 30 \<le> 2 ^ 31" "(2::int) ^ 31 < 2 ^ 63" by simp_all
  have n: "sint (push_bit (k - 1) 1 :: i64) = 2 ^ (k - 1)" using assms(4) by (intro sint_push_one) simp
  have "\<bar>sint h + 2 ^ (k - 1)\<bar> < 2 ^ 63" using K K0 assms(1,5) by linarith
  then have "sint (h + push_bit (k - 1) 1) = x + 2 ^ (k - 1)"
    unfolding n [symmetric] x_def by (rule sint_add_64)
  then have c: "sint c = y" by (simp add: c_def sint_shift_down y_def x_def)
  have b: "\<bar>y\<bar> \<le> (H + 2 ^ (k - 1)) div 2 ^ k" "\<bar>x - 2 ^ k * y\<bar> \<le> 2 ^ (k - 1)"
    using round_div_bounds [of x H k] assms(1,3) by (simp_all add: y_def x_def)
  have xy: "\<bar>int (2 ^ k) * y\<bar> < 2 ^ 63"
    using b(2) K K0 assms(1,5) unfolding x_def of_nat_power of_nat_numeral by linarith
  have p: "sint (push_bit k c) = 2 ^ k * y"
    unfolding push_bit_scale using sint_scale_64 [of "2 ^ k" c] xy by (simp add: c)
  have d: "sint (h - push_bit k c) = x - 2 ^ k * y"
    using b(2) K K0 unfolding p [symmetric] x_def by (intro sint_sub_64) linarith
  have my: "\<bar>int m * y\<bar> \<le> int m * ((H + 2 ^ (k - 1)) div 2 ^ k)"
    unfolding abs_mult abs_of_nat using b(1) by (rule mult_left_mono) simp
  have H': "0 \<le> H'" using assms(2) by simp
  have q: "sint (of_nat m * c) = int m * y"
    using my H' assms(6) sint_scale_64 [of m c] unfolding c by linarith
  have e: "sint (h' + c * of_nat m) = sint h' + int m * y"
    using my assms(2,6) sint_add_64 [of h' "of_nat m * c"] unfolding q mult.commute [of c] by linarith
  show thesis
    using d e b(2) my assms(2) by (intro that [of y]) (simp_all add: x_def)
qed

text \<open>The bounds after a carry, and the condition under which no 64-bit operation of it overflows.\<close>

definition carry_bound :: "nat \<Rightarrow> int list \<Rightarrow> int list" where
  "carry_bound i bs =
     (let k = limb_bits i; C = (bs ! i + 2 ^ (k - 1)) div 2 ^ k;
          bs = (if i = 9 then bs[0 := bs ! 0 + 19 * C] else bs[i + 1 := bs ! (i + 1) + C])
      in bs[i := 2 ^ (k - 1)])"

definition carry_ok :: "nat \<Rightarrow> int list \<Rightarrow> bool" where
  "carry_ok i bs =
     (bs ! i < 2 ^ 63 - 2 ^ 31 \<and> (carry_bound i bs) ! (if i = 9 then 0 else i + 1) < 2 ^ 63)"

lemma carry_at_spec:
  assumes "bounded bs h" "carry_ok i bs" "i < 10" "length bs = 10"
  shows "bounded (carry_bound i bs) (carry_at i h) \<and> fe_val (carry_at i h) mod fe_p = fe_val h mod fe_p"
proof -
  let ?k = "limb_bits i" and ?j = "if i = 9 then 0 else i + 1" and ?m = "if i = 9 then 19 else 1 :: nat"
  define c where "c = signed_drop_bit ?k (h ! i + push_bit (?k - 1) 1)"
  let ?C = "(bs ! i + 2 ^ (?k - 1)) div 2 ^ ?k"
  have k: "0 < ?k" "?k \<le> 31" and j: "?j < 10" "i \<noteq> ?j" using assms(3) by (auto simp: limb_bits_def)
  have len: "length h = 10" using bounded_length [OF assms(1)] assms(4) by simp
  have at: "carry_at i h = (h[?j := h ! ?j + c * of_nat ?m])[i := h ! i - push_bit ?k c]"
    using j by (simp add: carry_at_def c_def Let_def)
  have bd: "carry_bound i bs = (bs[?j := bs ! ?j + int ?m * ?C])[i := 2 ^ (?k - 1)]"
    by (simp add: carry_bound_def Let_def)
  have ok: "bs ! i < 2 ^ 63 - 2 ^ 31" "bs ! ?j + int ?m * ?C < 2 ^ 63"
    using assms(2) j assms(4) unfolding carry_ok_def bd by (simp_all split: if_splits)
  have b1: "\<bar>sint (h ! i)\<bar> \<le> bs ! i" and b2: "\<bar>sint (h ! ?j)\<bar> \<le> bs ! ?j"
    using bounded_nth [OF assms(1)] assms(3,4) j by simp_all
  obtain y where y: "sint (h ! i - push_bit ?k c) = sint (h ! i) - 2 ^ ?k * y"
      "sint (h ! ?j + c * of_nat ?m) = sint (h ! ?j) + int ?m * y"
      "\<bar>sint (h ! i - push_bit ?k c)\<bar> \<le> 2 ^ (?k - 1)"
      "\<bar>sint (h ! ?j + c * of_nat ?m)\<bar> \<le> bs ! ?j + int ?m * ?C"
    unfolding c_def by (rule carry_step [OF b1 b2 k ok])
  have "bounded (carry_bound i bs) (carry_at i h)"
    unfolding at bd by (intro bounded_upd assms(1) y(3,4))
  moreover have "fe_val (carry_at i h) = fe_val h + 2 ^ limb_weight ?j * (int ?m * y) - 2 ^ limb_weight i * (2 ^ ?k * y)"
    using j assms(3) len unfolding at fe_val_def map_update y(1,2)
    by (simp add: limbs_val_upd nth_list_update algebra_simps)
  moreover define z where "z = (if i = 9 then - y else 0)"
  have "2 ^ limb_weight ?j * (int ?m * y) - 2 ^ limb_weight i * (2 ^ ?k * y) = z * fe_p"
    using assms(3) limb_weight_Suc [of i]
    by (auto simp: z_def power_add fe_p_def limb_weight_def limb_bits_def algebra_simps)
  ultimately have "fe_val (carry_at i h) = fe_val h + z * fe_p" by linarith
  then have "fe_val (carry_at i h) mod fe_p = fe_val h mod fe_p" by (simp only: mod_mult_self1)
  with \<open>bounded (carry_bound i bs) (carry_at i h)\<close> show ?thesis by simp
qed

section \<open>The two chains of carries\<close>

fun carries_ok :: "nat list \<Rightarrow> int list \<Rightarrow> bool" where
  "carries_ok [] bs = True"
| "carries_ok (i # is) bs = (i < 10 \<and> carry_ok i bs \<and> carries_ok is (carry_bound i bs))"

lemma length_carry_bound [simp]: "length (carry_bound i bs) = length bs"
  by (simp add: carry_bound_def Let_def)

lemma fold_carries:
  assumes "bounded bs h" "carries_ok is bs" "length bs = 10"
  shows "bounded (fold carry_bound is bs) (fold carry_at is h) \<and> fe_val (fold carry_at is h) mod fe_p = fe_val h mod fe_p"
  using assms
proof (induction "is" arbitrary: bs h)
  case (Cons i "is")
  from Cons.prems have "bounded (carry_bound i bs) (carry_at i h) \<and> fe_val (carry_at i h) mod fe_p = fe_val h mod fe_p"
    by (intro carry_at_spec) simp_all
  with Cons.IH [of "carry_bound i bs" "carry_at i h"] Cons.prems show ?case by simp
qed simp

lemma bounded_mono: "bounded bs h \<Longrightarrow> list_all2 (\<le>) bs cs \<Longrightarrow> bounded cs h"
  by (fastforce simp: bounded_def list_all2_conv_all_nth)

lemma bounded_replicate: "bounded (replicate n a) h \<longleftrightarrow> length h = n \<and> (\<forall>x \<in> set h. \<bar>sint x\<bar> \<le> a)"
  by (auto simp: bounded_def list_all2_conv_all_nth all_set_conv_all_nth)

lemma fe_bound_set: "fe_bound a b f \<Longrightarrow> b \<le> a \<Longrightarrow> x \<in> set f \<Longrightarrow> \<bar>sint x\<bar> \<le> a"
  using bounded_mono [of "[a, b, a, b, a, b, a, b, a, b]" f "replicate 10 a"]
  by (simp add: fe_bound_def bounded_replicate numeral_eq_Suc del: replicate.simps) (simp add: numeral_eq_Suc)

text \<open>Storing limbs that fit 32 bits changes nothing.\<close>

lemma stored:
  assumes "bounded bs (h :: wide)" "list_all (\<lambda>b. b < 2 ^ 31) bs"
  shows "map sint (map scast h :: fe) = map sint h"
proof -
  have "\<bar>sint x\<bar> < 2 ^ 31" if "x \<in> set h" for x
    using that assms by (fastforce simp: bounded_def list_all2_conv_all_nth list_all_length in_set_conv_nth)
  then show ?thesis by (simp add: sint_scast_32)
qed

lemma bounded_stored:
  assumes "bounded bs (h :: wide)" "list_all (\<lambda>b. b < 2 ^ 31) bs"
  shows "bounded bs (map scast h :: fe)" "fe_val (map scast h :: fe) = fe_val h"
proof -
  show "fe_val (map scast h :: fe) = fe_val h" by (simp only: fe_val_def stored [OF assms])
  have b: "bounded cs x = list_all2 (\<lambda>b x. \<bar>x\<bar> \<le> b) cs (map sint x)" for cs and x :: "'a::len word list"
    by (simp add: bounded_def list_all2_map2)
  show "bounded bs (map scast h :: fe)" using assms(1) unfolding b stored [OF assms] .
qed

lemma chain_spec:
  assumes "bounded bs h" "carries_ok is bs" "length bs = 10"
    "list_all2 (\<le>) (fold carry_bound is bs) [a, b, a, b, a, b, a, b, a, b]" "a < 2 ^ 31" "b < 2 ^ 31"
  shows "fe_val (map scast (fold carry_at is h) :: fe) mod fe_p = fe_val h mod fe_p"
    "fe_bound a b (map scast (fold carry_at is h) :: fe)"
proof -
  have f: "bounded (fold carry_bound is bs) (fold carry_at is h)"
    "fe_val (fold carry_at is h) mod fe_p = fe_val h mod fe_p"
    using fold_carries [OF assms(1-3)] by simp_all
  have b: "bounded [a, b, a, b, a, b, a, b, a, b] (fold carry_at is h)"
    using bounded_mono [OF f(1) assms(4)] .
  have l: "list_all (\<lambda>b. b < 2 ^ 31) [a, b, a, b, a, b, a, b, a, b]" using assms(5,6) by simp
  show "fe_val (map scast (fold carry_at is h) :: fe) mod fe_p = fe_val h mod fe_p"
    unfolding bounded_stored(2) [OF b l] by (rule f(2))
  show "fe_bound a b (map scast (fold carry_at is h) :: fe)"
    unfolding fe_bound_def by (rule bounded_stored(1) [OF b l])
qed

text \<open>The bounds at the two ends of the chain of \<open>fe_mul\<close>: 6 * 10^18, which is below 2^63, and
  1.01 * 2^25, 1.01 * 2^24.\<close>

lemma mul_carries_spec:
  assumes "bounded (replicate 10 6000000000000000000) h"
  shows "fe_val (mul_carries h) mod fe_p = fe_val h mod fe_p" "fe_bound 33889976 16944988 (mul_carries h)"
proof -
  have ok: "carries_ok [0, 4, 1, 5, 2, 6, 3, 7, 4, 8, 9, 0] (replicate 10 6000000000000000000)"
    "list_all2 (\<le>) (fold carry_bound [0, 4, 1, 5, 2, 6, 3, 7, 4, 8, 9, 0] (replicate 10 6000000000000000000))
      [33889976, 16944988, 33889976, 16944988, 33889976, 16944988, 33889976, 16944988, 33889976, 16944988]"
    by code_simp+
  show "fe_val (mul_carries h) mod fe_p = fe_val h mod fe_p" "fe_bound 33889976 16944988 (mul_carries h)"
    unfolding mul_carries_def
    by (rule chain_spec [OF assms ok(1) _ ok(2)]; simp)+
qed

text \<open>The other chain: from 9 * 10^12 to 1.1 * 2^25, 1.1 * 2^24.\<close>

lemma odd_even_carries_spec:
  assumes "bounded (replicate 10 9000000000000) h"
  shows "fe_val (odd_even_carries h) mod fe_p = fe_val h mod fe_p" "fe_bound 36909875 18454937 (odd_even_carries h)"
proof -
  have ok: "carries_ok [9, 1, 3, 5, 7, 0, 2, 4, 6, 8] (replicate 10 9000000000000)"
    "list_all2 (\<le>) (fold carry_bound [9, 1, 3, 5, 7, 0, 2, 4, 6, 8] (replicate 10 9000000000000))
      [36909875, 18454937, 36909875, 18454937, 36909875, 18454937, 36909875, 18454937, 36909875, 18454937]"
    by code_simp+
  show "fe_val (odd_even_carries h) mod fe_p = fe_val h mod fe_p" "fe_bound 36909875 18454937 (odd_even_carries h)"
    unfolding odd_even_carries_def
    by (rule chain_spec [OF assms ok(1) _ ok(2)]; simp)+
qed

end
