(* ===== verification/FeMul.thy ===== *)
theory FeMul
  imports FeSpec
begin

text \<open>
  Multiplication and squaring: the sums of products compute the convolution of the limbs without
  overflow, the convolution represents the product modulo \<open>2^255 - 19\<close>, and the carries keep it.
\<close>

section \<open>The product of two numbers by their limbs\<close>

definition conv_factor :: "nat \<Rightarrow> nat \<Rightarrow> int" where
  "conv_factor i j = (if i + j \<ge> 10 then 19 else 1) * (if odd i \<and> odd j then 2 else 1)"

definition limbs_mul :: "int list \<Rightarrow> int list \<Rightarrow> int list" where
  "limbs_mul f g = map (\<lambda>k. \<Sum>i<10. let j = (k + 10 - i) mod 10 in conv_factor i j * (f ! i * g ! j)) [0..<10]"

lemma limb_weight_split: "limb_weight i = 51 * (i div 2) + 26 * (i mod 2)"
  unfolding limb_weight_def by (cases "even i") (auto elim!: evenE oddE)

lemma limb_weight_add:
  "limb_weight i + limb_weight j = limb_weight (i + j) + (if odd i \<and> odd j then 1 else 0)"
proof -
  have "i mod 2 = 0 \<or> i mod 2 = 1" "j mod 2 = 0 \<or> j mod 2 = 1" by linarith+
  then show ?thesis
    unfolding limb_weight_split div_add1_eq [of i j 2] mod_add_eq [of i 2 j, symmetric] odd_iff_mod_2_eq_one
    by (elim disjE) simp_all
qed

lemma limb_weight_wrap: "limb_weight (k + 10) = limb_weight k + 255"
  by (simp add: limb_weight_def)

lemma pow_255: "2 ^ (n + 255) mod fe_p = 19 * 2 ^ n mod fe_p"
proof -
  have "2 ^ (n + 255) = 19 * 2 ^ n + fe_p * 2 ^ n" by (simp add: fe_p_def power_add algebra_simps)
  then show ?thesis by simp
qed

lemma conv_factor_weight:
  assumes "i < 10" "j < 10"
  shows "2 ^ limb_weight ((i + j) mod 10) * conv_factor i j mod fe_p = 2 ^ limb_weight i * 2 ^ limb_weight j mod fe_p"
proof -
  have w: "2 ^ limb_weight i * 2 ^ limb_weight j = (if odd i \<and> odd j then 2 else 1) * (2 ^ limb_weight (i + j) :: int)"
    using limb_weight_add [of i j] by (simp flip: power_add)
  show ?thesis
  proof (cases "i + j < 10")
    case True
    then show ?thesis unfolding w conv_factor_def by (simp add: mult.commute)
  next
    case False
    then obtain k where k: "i + j = k + 10" by (metis add.commute le_Suc_ex not_less)
    with assms have "(i + j) mod 10 = k" by simp
    moreover have "d * 2 ^ (limb_weight k + 255) mod fe_p = d * (19 * 2 ^ limb_weight k) mod fe_p" for d
      by (rule mod_mult_cong [OF refl pow_255])
    from this [of 1] this [of 2] have "19 * 2 ^ limb_weight k mod fe_p = 2 ^ (limb_weight k + 255) mod fe_p"
      "38 * 2 ^ limb_weight k mod fe_p = 2 * 2 ^ (limb_weight k + 255) mod fe_p" by simp_all
    ultimately show ?thesis
      unfolding w conv_factor_def k limb_weight_wrap by (simp add: mult.commute)
  qed
qed

lemma index_mod_10: "i < 10 \<Longrightarrow> j < 10 \<Longrightarrow> ((i + j) mod 10 + 10 - i) mod 10 = (j :: nat)"
  by (cases "i + j < 10") (simp_all add: le_mod_geq)

lemma mod_sum_cong:
  fixes f :: "'a \<Rightarrow> int"
  assumes "\<And>x. x \<in> A \<Longrightarrow> f x mod m = g x mod m"
  shows "sum f A mod m = sum g A mod m"
  using mod_sum_eq [of f m A] mod_sum_eq [of g m A] assms by (simp cong: sum.cong)

lemma limbs_mul_val: "limbs_val (limbs_mul f g) mod fe_p = limbs_val f * limbs_val g mod fe_p"
proof -
  let ?t = "\<lambda>i j. 2 ^ limb_weight ((i + j) mod 10) * (conv_factor i j * (f ! i * g ! j))"
  have "(\<Sum>k<10. let j = (k + 10 - i) mod 10 in 2 ^ limb_weight k * (conv_factor i j * (f ! i * g ! j))) =
      (\<Sum>j<10. ?t i j)" if "i \<in> {..<10}" for i
    by (rule sum.reindex_bij_witness [where i = "\<lambda>j. (i + j) mod 10" and j = "\<lambda>k. (k + 10 - i) mod 10"])
      (use that in \<open>auto simp: Let_def mod_simps index_mod_10\<close>)
  then have "(\<Sum>i<10. \<Sum>k<10. let j = (k + 10 - i) mod 10 in 2 ^ limb_weight k * (conv_factor i j * (f ! i * g ! j))) =
      (\<Sum>i<10. \<Sum>j<10. ?t i j)" by (rule sum.cong [OF refl])
  then have "limbs_val (limbs_mul f g) = (\<Sum>i<10. \<Sum>j<10. ?t i j)"
    unfolding limbs_val_def limbs_mul_def
    by (subst (asm) sum.swap) (simp add: sum_distrib_left Let_def)
  also have "\<dots> mod fe_p = (\<Sum>i<10. \<Sum>j<10. (2 ^ limb_weight i * f ! i) * (2 ^ limb_weight j * g ! j)) mod fe_p"
  proof (intro mod_sum_cong)
    fix i j :: nat assume "i \<in> {..<10}" "j \<in> {..<10}"
    then have "2 ^ limb_weight ((i + j) mod 10) * conv_factor i j * (f ! i * g ! j) mod fe_p =
        2 ^ limb_weight i * 2 ^ limb_weight j * (f ! i * g ! j) mod fe_p"
      by (intro mod_mult_cong conv_factor_weight) simp_all
    then show "?t i j mod fe_p = (2 ^ limb_weight i * f ! i) * (2 ^ limb_weight j * g ! j) mod fe_p"
      by (simp add: ac_simps)
  qed
  also have "(\<Sum>i<10. \<Sum>j<10. (2 ^ limb_weight i * f ! i) * (2 ^ limb_weight j * g ! j)) = limbs_val f * limbs_val g"
    by (simp add: limbs_val_def sum_product)
  finally show ?thesis .
qed

section \<open>The sums of products\<close>

text \<open>\<open>fits a x A\<close>: the 64-bit word \<open>a\<close> is the number \<open>x\<close>, which is at most \<open>A\<close> in size.\<close>

definition fits :: "i64 \<Rightarrow> int \<Rightarrow> int \<Rightarrow> bool" where
  "fits a x A \<longleftrightarrow> sint a = x \<and> \<bar>x\<bar> \<le> A"

lemma fits_mul: "\<bar>sint a\<bar> \<le> A \<Longrightarrow> \<bar>sint b\<bar> \<le> B \<Longrightarrow> fits (mul64 a b) (sint a * sint b) (A * B)"
  using mul64_bound [of a A b B "A * B"] by (simp add: fits_def sint_mul64)

lemma fits_add: "fits a x A \<Longrightarrow> fits b y B \<Longrightarrow> A + B < 2 ^ 63 \<Longrightarrow> fits (a + b) (x + y) (A + B)"
  using sint_add_64 [of a b] by (auto simp: fits_def)

lemma fits_weaken: "fits a x A \<Longrightarrow> A \<le> B \<Longrightarrow> x = y \<Longrightarrow> fits a y B"
  by (simp add: fits_def)

lemma scaled:
  assumes "\<bar>sint a\<bar> \<le> A" "numeral k * A < 2 ^ 31"
  shows "sint (numeral k * a :: i32) = numeral k * sint a" "\<bar>sint (numeral k * a :: i32)\<bar> \<le> numeral k * A"
proof -
  have "\<bar>numeral k * sint a\<bar> \<le> numeral k * A"
    unfolding abs_mult abs_numeral using assms(1) by (rule mult_left_mono) simp
  then show "sint (numeral k * a :: i32) = numeral k * sint a" "\<bar>sint (numeral k * a :: i32)\<bar> \<le> numeral k * A"
    using sint_scale_32 [of "numeral k" a] assms(2) by simp_all
qed

lemma twice:
  assumes "\<bar>sint a\<bar> \<le> 55364812"
  shows "sint (2 * a :: i32) = 2 * sint a" "\<bar>sint (2 * a :: i32)\<bar> \<le> 110729624"
  using scaled [OF assms, of "num.Bit0 num.One"] by simp_all

lemma times19:
  assumes "\<bar>sint a\<bar> \<le> 110729625"
  shows "sint (19 * a :: i32) = 19 * sint a" "\<bar>sint (19 * a :: i32)\<bar> \<le> 2103862875"
  using scaled [OF assms, of "num.Bit1 (num.Bit1 (num.Bit0 (num.Bit0 num.One)))"] by simp_all

lemma twice_even:
  assumes "\<bar>sint a\<bar> \<le> 110729625"
  shows "sint (2 * a :: i32) = 2 * sint a" "\<bar>sint (2 * a :: i32)\<bar> \<le> 221459250"
  using scaled [OF assms, of "num.Bit0 num.One"] by simp_all

lemma times38:
  assumes "\<bar>sint a\<bar> \<le> 55364812"
  shows "sint (38 * a :: i32) = 38 * sint a" "\<bar>sint (38 * a :: i32)\<bar> \<le> 2103862856"
  using scaled [OF assms, of "num.Bit0 (num.Bit1 (num.Bit1 (num.Bit0 (num.Bit0 num.One))))"] by simp_all

lemma times19_odd:
  assumes "\<bar>sint a\<bar> \<le> 55364812"
  shows "sint (19 * a :: i32) = 19 * sint a" "\<bar>sint (19 * a :: i32)\<bar> \<le> 1051931428"
  using scaled [OF assms, of "num.Bit1 (num.Bit1 (num.Bit0 (num.Bit0 num.One)))"] by simp_all

lemma fe_bound_nths:
  assumes "fe_bound a b f"
  shows "\<bar>sint (f ! 0)\<bar> \<le> a" "\<bar>sint (f ! 1)\<bar> \<le> b" "\<bar>sint (f ! 2)\<bar> \<le> a" "\<bar>sint (f ! 3)\<bar> \<le> b" "\<bar>sint (f ! 4)\<bar> \<le> a"
    "\<bar>sint (f ! 5)\<bar> \<le> b" "\<bar>sint (f ! 6)\<bar> \<le> a" "\<bar>sint (f ! 7)\<bar> \<le> b" "\<bar>sint (f ! 8)\<bar> \<le> a" "\<bar>sint (f ! 9)\<bar> \<le> b"
  using bounded_nth [OF assms [unfolded fe_bound_def], of 0] bounded_nth [OF assms [unfolded fe_bound_def], of 1]
    bounded_nth [OF assms [unfolded fe_bound_def], of 2] bounded_nth [OF assms [unfolded fe_bound_def], of 3]
    bounded_nth [OF assms [unfolded fe_bound_def], of 4] bounded_nth [OF assms [unfolded fe_bound_def], of 5]
    bounded_nth [OF assms [unfolded fe_bound_def], of 6] bounded_nth [OF assms [unfolded fe_bound_def], of 7]
    bounded_nth [OF assms [unfolded fe_bound_def], of 8] bounded_nth [OF assms [unfolded fe_bound_def], of 9]
  by simp_all

lemma fe_bound_length: "fe_bound a b f \<Longrightarrow> length f = 10"
  unfolding fe_bound_def by (drule bounded_length) simp

lemma sum_10: "(\<Sum>i<10. F i) = F 0 + F 1 + F 2 + F 3 + F 4 + F 5 + F 6 + F 7 + F 8 + (F 9 :: int)" for F :: "nat \<Rightarrow> int"
  by (simp add: eval_nat_numeral lessThan_Suc)

lemma upt_10: "[0..<10] = [0, 1, 2, 3, 4, 5, 6, 7, 8, 9 :: nat]"
  by (simp add: upt_rec)

definition wide_fits :: "wide \<Rightarrow> int list \<Rightarrow> bool" where
  "wide_fits h xs = list_all2 (\<lambda>a x. fits a x 2900000000000000000) h xs"

lemma fe_mul_sums_fits:
  assumes "fe_bound 110729625 55364812 f" "fe_bound 110729625 55364812 g"
  shows "wide_fits (fe_mul_sums f g) (limbs_mul (map sint f) (map sint g))"
proof -
  note bf = fe_bound_nths [OF assms(1)] and bg = fe_bound_nths [OF assms(2)]
  have len: "length f = 10" "length g = 10" using assms by (simp_all add: fe_bound_length)
  note sf = bf(2,4,6,8,10) [THEN twice(1)] bf(2,4,6,8,10) [THEN twice(2)]
  note sg = bg(3,5,7,9) [THEN times19(1)] bg(3,5,7,9) [THEN times19(2)] bg(2,4,6,8,10) [THEN times19_odd(1)] bg(2,4,6,8,10) [THEN times19_odd(2)]
  show ?thesis
    unfolding wide_fits_def fe_mul_sums_def limbs_mul_def upt_10 list.map Let_def list_all2_Cons nth_Cons_0 nth_Cons_numeral
      sum_10
    by (intro conjI list_all2_Nil [THEN iffD2] refl;
        (rule fits_weaken, (rule fits_add fits_mul bf bg sf sg | (simp; fail))+,
         (simp only: sf sg)?, simp add: len conv_factor_def))
qed

lemma fe_sq_sums_fits:
  assumes "fe_bound 110729625 55364812 f"
  shows "wide_fits (fe_sq_sums f) (limbs_mul (map sint f) (map sint f))"
proof -
  note b = fe_bound_nths [OF assms]
  have len: "length f = 10" using assms by (rule fe_bound_length)
  note s = b(2,4,6,8,10) [THEN twice(1)] b(1,3,5,7,9) [THEN twice_even(1)] b(3,5,7,9) [THEN times19(1)]
    b(2,4,6,8,10) [THEN times38(1)]
  note t = b(2,4,6,8,10) [THEN twice(2)] b(1,3,5,7,9) [THEN twice_even(2)] b(3,5,7,9) [THEN times19(2)]
    b(2,4,6,8,10) [THEN times38(2)]
  show ?thesis
    unfolding wide_fits_def fe_sq_sums_def limbs_mul_def upt_10 list.map Let_def list_all2_Cons nth_Cons_0 nth_Cons_numeral
      sum_10
    by (intro conjI list_all2_Nil [THEN iffD2] refl;
        (rule fits_weaken, (rule fits_add fits_mul b t | (simp; fail))+,
         simp only: s, simp add: len conv_factor_def))
qed

lemma wide_fits_spec:
  assumes "wide_fits h xs" "length h = 10"
  shows "map sint h = xs" "bounded (replicate 10 2900000000000000000) h"
  using assms by (auto simp: wide_fits_def fits_def bounded_def list_all2_conv_all_nth intro!: nth_equalityI)

lemma length_sums [simp]: "length (fe_mul_sums f g) = 10" "length (fe_sq_sums f) = 10"
  by (simp_all add: fe_mul_sums_def fe_sq_sums_def Let_def)

section \<open>The operations\<close>

text \<open>The product of two field elements with limbs of at most 1.65 * 2^26 and 1.65 * 2^25.\<close>

lemma fe_mul_correct:
  assumes "fe_bound 110729625 55364812 f" "fe_bound 110729625 55364812 g"
  shows "fe_val (fe_mul f g) mod fe_p = fe_val f * fe_val g mod fe_p \<and> fe_bound 33889976 16944988 (fe_mul f g)"
proof -
  note s = wide_fits_spec [OF fe_mul_sums_fits [OF assms] length_sums(1)]
  have "bounded (replicate 10 6000000000000000000) (fe_mul_sums f g)"
    using s(2) by (auto simp: bounded_replicate)
  note c = mul_carries_spec [OF this]
  have "fe_val (fe_mul_sums f g) mod fe_p = fe_val f * fe_val g mod fe_p"
    unfolding fe_val_def s(1) by (rule limbs_mul_val)
  then show ?thesis unfolding fe_mul_def using c by simp
qed

text \<open>The shorter sums of the square are those of the product, so the squares agree limb by limb.\<close>

lemma fe_sq_is_mul:
  assumes "fe_bound 110729625 55364812 f"
  shows "fe_sq f = fe_mul f f"
proof -
  have "map sint (fe_sq_sums f) = map sint (fe_mul_sums f f)"
    using wide_fits_spec(1) [OF fe_sq_sums_fits [OF assms]] wide_fits_spec(1) [OF fe_mul_sums_fits [OF assms assms]] by simp
  then have "fe_sq_sums f = fe_mul_sums f f"
    by (rule map_injective) (auto simp: inj_def intro: signed_word_eqI)
  then show ?thesis by (simp add: fe_sq_def fe_mul_def)
qed

text \<open>\<open>fe_sq2\<close> is twice the square.\<close>

lemma fe_sq2_correct:
  assumes "fe_bound 110729625 55364812 f"
  shows "fe_val (fe_sq2 f) mod fe_p = 2 * fe_val f ^ 2 mod fe_p \<and> fe_bound 33889976 16944988 (fe_sq2 f)"
proof -
  note s = wide_fits_spec [OF fe_sq_sums_fits [OF assms] length_sums(2)]
  let ?d = "map (\<lambda>h. h + h) (fe_sq_sums f)"
  have d: "sint (h + h) = 2 * sint h \<and> \<bar>sint (h + h)\<bar> \<le> 6000000000000000000" if "h \<in> set (fe_sq_sums f)" for h
  proof -
    have "\<bar>sint h\<bar> \<le> 2900000000000000000"
      using that s(2) by (simp add: bounded_replicate)
    then show ?thesis using sint_add_64 [of h h] by simp
  qed
  have b: "bounded (replicate 10 6000000000000000000) ?d"
    using d by (simp only: bounded_replicate set_map length_map length_sums) blast
  have "map sint ?d = map (\<lambda>x. 2 * x) (map sint (fe_sq_sums f))"
    unfolding map_map by (rule map_cong [OF refl]) (use d in simp)
  then have "fe_val ?d = 2 * fe_val (fe_sq_sums f)"
    unfolding fe_val_def by (simp only: limbs_val_map length_map length_sums)
  moreover have "fe_val (fe_sq_sums f) mod fe_p = fe_val f ^ 2 mod fe_p"
    unfolding fe_val_def s(1) by (simp add: limbs_mul_val power2_eq_square)
  ultimately have "fe_val ?d mod fe_p = 2 * fe_val f ^ 2 mod fe_p"
    by (metis mod_mult_right_eq)
  then show ?thesis unfolding fe_sq2_def using mul_carries_spec [OF b] by simp
qed

text \<open>The multiplication by the constant of the curve.\<close>

lemma fe_mul121666_correct:
  assumes "fe_bound 73819750 36909875 f"
  shows "fe_val (fe_mul121666 f) mod fe_p = 121666 * fe_val f mod fe_p \<and> fe_bound 36909875 18454937 (fe_mul121666 f)"
proof -
  let ?m = "map (\<lambda>x. mul64 x 121666) f"
  have k: "sint (121666 :: i32) = 121666" by simp
  have m: "sint (mul64 x 121666) = 121666 * sint x" for x by (simp add: sint_mul64)
  have len: "length f = 10" using assms by (rule fe_bound_length)
  have b: "bounded (replicate 10 9000000000000) ?m"
    using fe_bound_set [OF assms] len by (fastforce simp: bounded_replicate m abs_mult)
  have "map sint ?m = map (\<lambda>x. 121666 * x) (map sint f)" by (simp add: m)
  then have "fe_val ?m = 121666 * fe_val f"
    unfolding fe_val_def by (simp only: limbs_val_map length_map len)
  then show ?thesis unfolding fe_mul121666_def using odd_even_carries_spec [OF b] by simp
qed

end
