(* ===== verification/FeField.thy ===== *)
theory FeField
  imports FeMul
begin

text \<open>
  The remaining field operations: addition, subtraction, negation, the conditional moves, and the
  addition chains of \<open>fe_invert\<close> and \<open>fe_pow22523\<close>.
\<close>

section \<open>Sums and moves\<close>

lemma fe_bound_conv:
  "fe_bound a b f \<longleftrightarrow> length f = 10 \<and> (\<forall>i<10. \<bar>sint (f ! i)\<bar> \<le> (if even i then a else b))"
proof -
  have "[a, b, a, b, a, b, a, b, a, b] ! i = (if even i then a else b)" if "i < 10" for i
  proof -
    from that have "i \<in> {0, 1, 2, 3, 4, 5, 6, 7, 8, 9}" by auto
    then show ?thesis by auto
  qed
  then show ?thesis by (auto simp: fe_bound_def bounded_def list_all2_conv_all_nth)
qed

lemma fe_bound_mono: "fe_bound a b f \<Longrightarrow> a \<le> a' \<Longrightarrow> b \<le> b' \<Longrightarrow> fe_bound a' b' f"
  by (fastforce simp: fe_bound_conv)

lemma limbs_val_cong:
  assumes "\<And>i. i < 10 \<Longrightarrow> xs ! i = u * ys ! i + v * zs ! i"
  shows "limbs_val xs = u * limbs_val ys + v * limbs_val zs"
  using assms by (simp add: limbs_val_def sum_distrib_left sum.distrib [symmetric] algebra_simps)

text \<open>The sum and the difference of two elements with limbs of at most 1.1 * 2^25 and 1.1 * 2^24 are
  exact, with bounds that both factors of a product may have.\<close>

lemma fe_add_sub_correct:
  assumes "fe_bound 36909875 18454937 f" "fe_bound 36909875 18454937 g"
  shows "fe_val (fe_add f g) = fe_val f + fe_val g \<and> fe_bound 73819750 36909874 (fe_add f g) \<and>
    fe_val (fe_sub f g) = fe_val f - fe_val g \<and> fe_bound 73819750 36909874 (fe_sub f g) \<and>
    fe_val (fe_neg f) = - fe_val f \<and> fe_bound 36909875 18454937 (fe_neg f)"
proof -
  let ?b = "\<lambda>i. if even i then 36909875 else 18454937 :: int"
  have len: "length f = 10" "length g = 10" using assms by (simp_all add: fe_bound_length)
  have b: "\<bar>sint (f ! i)\<bar> \<le> ?b i" "\<bar>sint (g ! i)\<bar> \<le> ?b i" if "i < 10" for i
    using that assms by (simp_all add: fe_bound_conv)
  have s: "sint (f ! i + g ! i) = sint (f ! i) + sint (g ! i)" "sint (f ! i - g ! i) = sint (f ! i) - sint (g ! i)"
      "sint (- (f ! i)) = - sint (f ! i)" if "i < 10" for i
    using b [OF that] sint_add_32 [of "f ! i" "g ! i"] sint_sub_32 [of "f ! i" "g ! i"] sint_neg_32 [of "f ! i"]
    by (simp_all split: if_splits)
  have t: "\<bar>sint (f ! i) + sint (g ! i)\<bar> \<le> (if even i then 73819750 else 36909874)"
      "\<bar>sint (f ! i) - sint (g ! i)\<bar> \<le> (if even i then 73819750 else 36909874)" if "i < 10" for i
    using b [OF that] by (auto split: if_splits)
  have "fe_val (fe_add f g) = 1 * fe_val f + 1 * fe_val g" "fe_val (fe_sub f g) = 1 * fe_val f + (- 1) * fe_val g"
      "fe_val (fe_neg f) = (- 1) * fe_val f + 0 * fe_val f"
    unfolding fe_val_def by (rule limbs_val_cong; simp add: fe_add_def fe_sub_def fe_neg_def len s)+
  moreover have "fe_bound 73819750 36909874 (fe_add f g)" "fe_bound 73819750 36909874 (fe_sub f g)"
    using t by (simp_all add: fe_bound_conv fe_add_def fe_sub_def len s)
  moreover have "fe_bound 36909875 18454937 (fe_neg f)"
    using b by (simp add: fe_bound_conv fe_neg_def len s)
  ultimately show ?thesis by simp
qed

text \<open>The moves without branches.\<close>

lemma masked_xor_0: "masked_xor 0 f g = 0"
  by (simp add: masked_xor_def)

lemma masked_xor_1: "masked_xor 1 f g = f XOR g"
  by (simp add: masked_xor_def)

lemma fe_moves_correct:
  assumes "length f = 10" "length g = 10"
  shows "fe_cmov f g 0 = f \<and> fe_cmov f g 1 = g \<and> fe_cswap f g 0 = (f, g) \<and> fe_cswap f g 1 = (g, f)"
  using assms
  by (auto simp: fe_cmov_def fe_cswap_def masked_xor_0 masked_xor_1 intro!: nth_equalityI)
    (simp add: ac_simps)

section \<open>Addition chains\<close>

text \<open>What a chain of multiplications needs of them: the values multiply modulo \<open>m\<close> and the
  product may be multiplied again.\<close>

locale mult_chain =
  fixes mul :: "'a \<Rightarrow> 'a \<Rightarrow> 'a" and val :: "'a \<Rightarrow> int" and ok :: "'a \<Rightarrow> bool" and m :: int
  assumes mul_val: "ok f \<Longrightarrow> ok g \<Longrightarrow> val (mul f g) mod m = val f * val g mod m"
    and mul_ok: "ok f \<Longrightarrow> ok g \<Longrightarrow> ok (mul f g)"
begin

lemma mul_power:
  assumes "ok f \<and> val f mod m = x ^ a mod m" "ok g \<and> val g mod m = x ^ b mod m"
  shows "ok (mul f g) \<and> val (mul f g) mod m = x ^ (a + b) mod m"
proof -
  have "val f * val g mod m = x ^ a * x ^ b mod m"
    using assms by (intro mod_mult_cong) simp_all
  then show ?thesis using assms by (simp add: mul_val mul_ok power_add)
qed

lemma square_power:
  "ok f \<and> val f mod m = x ^ a mod m \<Longrightarrow> ok (mul f f) \<and> val (mul f f) mod m = x ^ (2 * a) mod m"
  using mul_power [of f x a f a] by (simp add: mult_2)

end

interpretation fe: mult_chain fe_mul fe_val "fe_bound 110729625 55364812" fe_p
proof
  fix f g :: fe assume "fe_bound 110729625 55364812 f" "fe_bound 110729625 55364812 g"
  from fe_mul_correct [OF this]
  show "fe_val (fe_mul f g) mod fe_p = fe_val f * fe_val g mod fe_p" "fe_bound 110729625 55364812 (fe_mul f g)"
    by (auto elim: fe_bound_mono)
qed

definition fe_power :: "int \<Rightarrow> nat \<Rightarrow> fe \<Rightarrow> bool" where
  "fe_power x n f \<longleftrightarrow> fe_bound 110729625 55364812 f \<and> fe_val f mod fe_p = x ^ n mod fe_p"

lemma fe_power_mul: "fe_power x a f \<Longrightarrow> fe_power x b g \<Longrightarrow> fe_power x (a + b) (fe_mul f g)"
  unfolding fe_power_def by (rule fe.mul_power)

lemma fe_power_sq: "fe_power x a f \<Longrightarrow> fe_power x (2 * a) (fe_sq f)"
  using fe.square_power [of f x a] by (simp add: fe_power_def fe_sq_is_mul)

lemma fe_power_sqn:
  assumes "fe_power x a f" "0 < n"
  shows "fe_power x (2 ^ n * a) (fe_sqn n f)"
proof -
  have "fe_power x (2 ^ k * (2 * a)) ((fe_sq ^^ k) (fe_sq f))" for k
  proof (induction k)
    case 0
    show ?case using fe_power_sq [OF assms(1)] by simp
  next
    case (Suc k)
    show ?case using fe_power_sq [OF Suc] by (simp add: mult.assoc)
  qed
  from this [of "n - 1"] show ?thesis
    using assms(2) by (cases n) (simp_all add: fe_sqn_def ac_simps)
qed

lemma fe_power_eq: "fe_power x a f \<Longrightarrow> a = b \<Longrightarrow> fe_power x b f"
  by simp

text \<open>The exponent of \<open>fe_invert\<close> is \<open>p - 2\<close>.\<close>

lemma fe_invert_correct:
  assumes "fe_bound 110729625 55364812 z"
  shows "fe_val (fe_invert z) mod fe_p = fe_val z ^ (2 ^ 255 - 21) mod fe_p \<and>
    fe_bound 110729625 55364812 (fe_invert z)"
proof -
  have z: "fe_power (fe_val z) 1 z" using assms by (simp add: fe_power_def)
  have "fe_power (fe_val z) (2 ^ 255 - 21) (fe_invert z)"
    unfolding fe_invert_def Let_def
    by (rule fe_power_eq, (rule fe_power_mul fe_power_sqn z | (simp; fail))+)
  then show ?thesis by (simp add: fe_power_def)
qed

text \<open>The exponent of \<open>fe_pow22523\<close> is \<open>(p - 5) / 8\<close>.\<close>

lemma fe_pow22523_correct:
  assumes "fe_bound 110729625 55364812 z"
  shows "fe_val (fe_pow22523 z) mod fe_p = fe_val z ^ (2 ^ 252 - 3) mod fe_p \<and>
    fe_bound 110729625 55364812 (fe_pow22523 z)"
proof -
  have z: "fe_power (fe_val z) 1 z" using assms by (simp add: fe_power_def)
  have "fe_power (fe_val z) (2 ^ 252 - 3) (fe_pow22523 z)"
    unfolding fe_pow22523_def Let_def
    by (rule fe_power_eq, (rule fe_power_mul fe_power_sqn z | (simp; fail))+)
  then show ?thesis by (simp add: fe_power_def)
qed

end
