(* ===== verification/FeBytes.thy ===== *)
theory FeBytes
  imports FeField
begin

text \<open>
  Field elements and their 32 bytes: \<open>fe_tobytes\<close> writes the canonical representative, the one below
  \<open>2^255 - 19\<close>, and \<open>fe_frombytes\<close> reads any 255 bits.
\<close>

section \<open>Little-endian numbers\<close>

fun le_nat :: "bytes \<Rightarrow> nat" where
  "le_nat [] = 0"
| "le_nat (b # bs) = unat b + 256 * le_nat bs"

lemma le_nat_less: "le_nat bs < 256 ^ length bs"
proof (induction bs)
  case (Cons b bs)
  have "256 * le_nat bs + 256 \<le> 256 * 256 ^ length bs" using Cons.IH by linarith
  then show ?case unfolding le_nat.simps length_Cons power_Suc using unat_u8_less [of b] by linarith
qed simp

lemma le_bytes_le_nat: "le_bytes (length bs) (le_nat bs) = bs"
  by (induction bs) simp_all

lemma le_nat_le_bytes: "le_nat (le_bytes k v) = v mod 256 ^ k"
  by (induction k arbitrary: v) (simp_all add: unat_of_nat mod_mult2_eq)

section \<open>The quotient\<close>

definition partial_val :: "nat \<Rightarrow> int list \<Rightarrow> int" where
  "partial_val n xs = (\<Sum>i<n. 2 ^ limb_weight i * xs ! i)"

lemma partial_val_Suc: "partial_val (Suc n) xs = 2 ^ limb_weight n * xs ! n + partial_val n xs"
  by (simp add: partial_val_def)

lemma div_step: "(x + y div 2 ^ a) div 2 ^ b = (2 ^ a * x + y) div (2 ^ (a + b) :: int)"
proof -
  have "(2 ^ a * x + y) div 2 ^ a = x + y div 2 ^ a" by (simp add: add.commute)
  then show ?thesis by (simp add: power_add zdiv_zmult2_eq)
qed

lemma div_small:
  fixes x :: int assumes "\<bar>x\<bar> \<le> 2 ^ 27" "k = 25 \<or> k = 26" shows "\<bar>x div 2 ^ k\<bar> \<le> 4"
proof -
  have "x div 2 ^ k \<le> 2 ^ 27 div 2 ^ k" "- (2 ^ 27) div 2 ^ k \<le> x div 2 ^ k"
    using assms(1) by (intro zdiv_mono1; simp)+
  then show ?thesis using assms(2) by auto
qed

lemma limb_weight_step: "limb_weight (Suc i) = limb_weight i + limb_bits i"
  unfolding limb_weight_def limb_bits_def by (cases "even i") (auto elim!: evenE oddE)

lemma limb_bits_cases: "limb_bits i = 25 \<or> limb_bits i = 26"
  by (simp add: limb_bits_def)

lemma q_chain:
  assumes "length h = 10" "\<forall>x \<in> set h. \<bar>sint x\<bar> \<le> 73819750" "\<bar>sint q\<bar> \<le> 64" "n \<le> 10"
  shows "sint (fold (\<lambda>i q. signed_drop_bit (limb_bits i) (h ! i + q)) [0..<n] q) =
      (partial_val n (map sint h) + sint q) div 2 ^ limb_weight n \<and>
    \<bar>sint (fold (\<lambda>i q. signed_drop_bit (limb_bits i) (h ! i + q :: i32)) [0..<n] q)\<bar> \<le> 64"
  using assms(4)
proof (induction n)
  case 0
  show ?case using assms(3) by (simp add: partial_val_def limb_weight_def)
next
  case (Suc n)
  define q' where "q' = fold (\<lambda>i q. signed_drop_bit (limb_bits i) (h ! i + q)) [0..<n] q"
  have q': "sint q' = (partial_val n (map sint h) + sint q) div 2 ^ limb_weight n" "\<bar>sint q'\<bar> \<le> 64"
    using Suc.IH [OF Suc_leD [OF Suc.prems]] unfolding q'_def by blast+
  have hn: "\<bar>sint (h ! n)\<bar> \<le> 73819750" using assms(1,2) Suc.prems by simp
  then have s: "sint (h ! n + q') = sint (h ! n) + sint q'" and b: "\<bar>sint (h ! n) + sint q'\<bar> \<le> 2 ^ 27"
    using q'(2) by (simp_all add: sint_add_32)
  have "sint (signed_drop_bit (limb_bits n) (h ! n + q')) =
      (2 ^ limb_weight n * sint (h ! n) + (partial_val n (map sint h) + sint q)) div 2 ^ (limb_weight n + limb_bits n)"
    unfolding sint_shift_down s q'(1) by (rule div_step)
  moreover have "\<bar>sint (signed_drop_bit (limb_bits n) (h ! n + q'))\<bar> \<le> 4"
    unfolding sint_shift_down s using b limb_bits_cases by (rule div_small)
  moreover have "partial_val (Suc n) (map sint h) + sint q =
      2 ^ limb_weight n * sint (h ! n) + (partial_val n (map sint h) + sint q)"
    using Suc.prems assms(1) by (simp add: partial_val_def)
  moreover have "fold (\<lambda>i q. signed_drop_bit (limb_bits i) (h ! i + q)) [0..<Suc n] q =
      signed_drop_bit (limb_bits n) (h ! n + q')"
    by (simp add: q'_def)
  ultimately show ?case by (simp only: limb_weight_step) simp
qed

text \<open>The quotient computed from the top limb is the exact one.\<close>

lemma quotient_exact:
  fixes V E t q0 :: int
  assumes "V = 2 ^ 230 * t + E" "\<bar>E\<bar> \<le> 2 ^ 232" "\<bar>t\<bar> \<le> 2 ^ 26" "q0 = (19 * t + 2 ^ 24) div 2 ^ 25"
  shows "(V + q0) div 2 ^ 255 = V div fe_p"
proof -
  define Q where "Q = V div fe_p"
  define r where "r = V mod fe_p"
  have V: "V = fe_p * Q + r" by (simp add: Q_def r_def)
  have r: "0 \<le> r" "r < fe_p" by (simp_all add: r_def fe_p_def)
  have q0: "2 ^ 25 * q0 \<le> 19 * t + 2 ^ 24" "19 * t + 2 ^ 24 < 2 ^ 25 * q0 + 2 ^ 25"
    using mult_div_mod_eq [of "2 ^ 25" "19 * t + 2 ^ 24"] pos_mod_bound [of "2 ^ 25" "19 * t + 2 ^ 24"]
      pos_mod_sign [of "2 ^ 25" "19 * t + 2 ^ 24"] assms(4) by simp_all
  note facts = assms(1-3) [unfolded abs_le_iff, simplified] V [unfolded fe_p_def, simplified]
    r [unfolded fe_p_def, simplified] q0 [simplified]
  have Q: "- 8 \<le> Q" "Q \<le> 8" using facts by linarith+
  have lo: "0 \<le> q0 - 19 * Q" using facts Q by linarith
  have hi: "r + (q0 - 19 * Q) < 2 ^ 255" using facts Q by simp
  have "V + q0 = 2 ^ 255 * Q + (r + (q0 - 19 * Q))" by (simp add: V fe_p_def algebra_simps)
  moreover have "(2 ^ 255 * Q + (r + (q0 - 19 * Q))) div 2 ^ 255 = Q"
    using lo hi r(1) by (subst div_mult_self4) simp_all
  ultimately show ?thesis by (simp add: Q_def)
qed


lemma fe_val_partial: "fe_val f = partial_val 10 (map sint f)"
  by (simp add: fe_val_def limbs_val_def partial_val_def)

text \<open>The limbs below the top one are a small remainder.\<close>

lemma sum_9: "(\<Sum>i<9. F i) = F 0 + F 1 + F 2 + F 3 + F 4 + F 5 + F 6 + F 7 + (F 8 :: int)" for F :: "nat \<Rightarrow> int"
  by (simp add: eval_nat_numeral lessThan_Suc)

lemma partial_val_9:
  assumes "length h = 10" "\<forall>x \<in> set h. \<bar>sint x\<bar> \<le> 73819750"
  shows "\<bar>partial_val 9 (map sint h)\<bar> \<le> 2 ^ 232"
proof -
  have b: "\<bar>sint (h ! i)\<bar> \<le> 2 ^ 27" if "i < 9" for i
    using that assms(1) bspec [OF assms(2), of "h ! i"] by simp
  have "\<bar>partial_val 9 (map sint h)\<bar> \<le> (\<Sum>i<9. \<bar>2 ^ limb_weight i * sint (h ! i)\<bar>)"
    unfolding partial_val_def using assms(1) by (auto intro: order_trans [OF sum_abs])
  also have "\<dots> \<le> (\<Sum>i<9. 2 ^ limb_weight i * 2 ^ 27)"
    using b by (intro sum_mono) (simp add: abs_mult)
  also have "\<dots> \<le> 2 ^ 232" unfolding sum_9 by (simp add: limb_weight_def)
  finally show ?thesis .
qed

lemma tobytes_q_correct:
  assumes "fe_bound 73819750 36909875 h"
  shows "sint (tobytes_q h) = fe_val h div fe_p \<and> \<bar>sint (tobytes_q h)\<bar> \<le> 64"
proof -
  let ?q = "signed_drop_bit 25 (19 * h ! 9 + push_bit 24 1)"
  have len: "length h = 10" using assms by (rule fe_bound_length)
  have all: "\<forall>x \<in> set h. \<bar>sint x\<bar> \<le> 73819750" using fe_bound_set [OF assms] by simp
  have h9: "\<bar>sint (h ! 9)\<bar> \<le> 36909875" using fe_bound_nths(10) [OF assms] .
  have m: "sint (19 * h ! 9) = 19 * sint (h ! 9)" using h9 by (intro times19) simp
  have "sint (19 * h ! 9 + push_bit 24 1 :: i32) = 19 * sint (h ! 9) + 2 ^ 24"
    using h9 sint_add_32 [of "19 * h ! 9" "push_bit 24 1"] by (simp add: m)
  then have q: "sint ?q = (19 * sint (h ! 9) + 2 ^ 24) div 2 ^ 25" by (simp add: sint_shift_down)
  have "\<bar>sint ?q\<bar> \<le> 64" unfolding q using h9 by simp
  note c = q_chain [OF len all this order_refl]
  have "fe_val h = 2 ^ 230 * sint (h ! 9) + partial_val 9 (map sint h)"
    using partial_val_Suc [of 9 "map sint h"] len by (simp add: fe_val_partial limb_weight_def)
  then have "(fe_val h + sint ?q) div 2 ^ 255 = fe_val h div fe_p"
    using partial_val_9 [OF len all] h9 q by (intro quotient_exact [of _ "sint (h ! 9)"]) simp_all
  moreover have "limb_weight 10 = 255" by (simp add: limb_weight_def)
  ultimately have "sint (tobytes_q h) = fe_val h div fe_p"
    using conjunct1 [OF c] unfolding tobytes_q_def Let_def upt_10 [symmetric] fe_val_partial by (simp only:)
  moreover have "\<bar>sint (tobytes_q h)\<bar> \<le> 64"
    using conjunct2 [OF c] unfolding tobytes_q_def Let_def upt_10 [symmetric] .
  ultimately show ?thesis ..
qed

section \<open>Exact carries\<close>

definition exact_upto :: "nat \<Rightarrow> fe \<Rightarrow> bool" where
  "exact_upto n h \<longleftrightarrow> (\<forall>i<n. 0 \<le> sint (h ! i) \<and> sint (h ! i) < 2 ^ limb_bits i)"

lemma exact_carry_step:
  fixes h h' :: i32
  assumes "\<bar>sint h\<bar> \<le> 2 ^ 27" "\<bar>sint h'\<bar> \<le> 2 ^ 27" "k = 25 \<or> k = 26"
  defines "c \<equiv> signed_drop_bit k h"
  shows "sint (h - push_bit k c) = sint h mod 2 ^ k" "sint (h' + c) = sint h' + sint h div 2 ^ k"
    "\<bar>sint h div 2 ^ k\<bar> \<le> 4"
proof -
  have c: "sint c = sint h div 2 ^ k" by (simp add: c_def sint_shift_down)
  have "(2::int) ^ 26 + 2 ^ 27 < 2 ^ 31" by simp
  show b: "\<bar>sint h div 2 ^ k\<bar> \<le> 4" using assms(1,3) by (rule div_small)
  then show "sint (h' + c) = sint h' + sint h div 2 ^ k"
    using assms(2) sint_add_32 [of h' c] c by simp
  have k: "(2::int) ^ k \<le> 2 ^ 26" "0 < (2::int) ^ k" using assms(3) by auto
  have m: "0 \<le> sint h mod 2 ^ k" "sint h mod 2 ^ k < 2 ^ 26"
    using k(2) less_le_trans [OF pos_mod_bound [OF k(2)] k(1)] by simp_all
  have e: "2 ^ k * (sint h div 2 ^ k) = sint h - sint h mod 2 ^ k" by (simp add: minus_mod_eq_mult_div)
  have "\<bar>2 ^ k * (sint h div 2 ^ k)\<bar> < 2 ^ 31" unfolding e
    using m assms(1) \<open>(2::int) ^ 26 + 2 ^ 27 < 2 ^ 31\<close> by linarith
  then have p: "sint (push_bit k c) = 2 ^ k * (sint h div 2 ^ k)"
    using sint_scale_32 [of "2 ^ k" c] by (simp add: push_bit_scale c)
  have "sint h - sint (push_bit k c) = sint h mod 2 ^ k" unfolding p e by simp
  then show "sint (h - push_bit k c) = sint h mod 2 ^ k"
    using m sint_sub_32 [of h "push_bit k c"] by simp
qed

lemma exact_chain:
  assumes "length h = 10" "\<forall>x \<in> set h. \<bar>sint x\<bar> \<le> 2 ^ 26 + 2 ^ 25" "n \<le> 9"
  shows "length (fold exact_carry_at [0..<n] h) = 10 \<and> exact_upto n (fold exact_carry_at [0..<n] h) \<and>
    fe_val (fold exact_carry_at [0..<n] h) = fe_val h \<and>
    \<bar>sint (fold exact_carry_at [0..<n] h ! n)\<bar> \<le> 2 ^ 27 \<and>
    (\<forall>i. n < i \<longrightarrow> fold exact_carry_at [0..<n] h ! i = h ! i)"
  using assms(3)
proof (induction n)
  case 0
  have "\<bar>sint (h ! 0)\<bar> \<le> 2 ^ 26 + 2 ^ 25" using assms(1,2) by simp
  then show ?case using assms(1) by (simp add: exact_upto_def)
next
  case (Suc n)
  define g where "g = fold exact_carry_at [0..<n] h"
  have g: "length g = 10" "exact_upto n g" "fe_val g = fe_val h" "\<bar>sint (g ! n)\<bar> \<le> 2 ^ 27"
    "g ! Suc n = h ! Suc n" "\<And>i. n < i \<Longrightarrow> g ! i = h ! i"
    using Suc.IH [OF Suc_leD [OF Suc.prems]] unfolding g_def by blast+
  have n: "n < 9" using Suc.prems by simp
  have b: "\<bar>sint (g ! Suc n)\<bar> \<le> 2 ^ 26 + 2 ^ 25" using assms(1,2) n g(5) by simp
  note c = exact_carry_step [OF g(4) _ limb_bits_cases, of "g ! Suc n"]
  let ?c = "signed_drop_bit (limb_bits n) (g ! n)"
  have e: "exact_carry_at n g = g[Suc n := g ! Suc n + ?c, n := g ! n - push_bit (limb_bits n) ?c]"
    using n by (simp add: exact_carry_at_def Let_def)
  have c': "sint (g ! n - push_bit (limb_bits n) ?c) = sint (g ! n) mod 2 ^ limb_bits n"
    "sint (g ! Suc n + ?c) = sint (g ! Suc n) + sint (g ! n) div 2 ^ limb_bits n"
    "\<bar>sint (g ! n) div 2 ^ limb_bits n\<bar> \<le> 4"
    by (rule c; use b in simp)+
  define d where "d = sint (g ! n) div 2 ^ limb_bits n"
  have m: "sint (g ! n) mod 2 ^ limb_bits n = sint (g ! n) - 2 ^ limb_bits n * d"
    by (simp add: d_def minus_mult_div_eq_mod)
  have "fe_val (exact_carry_at n g) = fe_val g"
    unfolding e fe_val_def map_update c'(1,2) m d_def [symmetric] using n g(1)
    by (simp add: limbs_val_upd limb_weight_step power_add algebra_simps)
  moreover have "exact_upto (Suc n) (exact_carry_at n g)"
    using g(1,2) n by (auto simp: exact_upto_def e less_Suc_eq c'(1))
  moreover have "\<bar>sint (exact_carry_at n g ! Suc n)\<bar> \<le> 2 ^ 27"
    using n g(1) b c'(3) by (simp add: e c'(2))
  moreover have "fold exact_carry_at [0..<Suc n] h = exact_carry_at n g" by (simp add: g_def)
  ultimately show ?case using g n by (simp add: e)
qed

lemma exact_val_range:
  assumes "exact_upto n h" "n \<le> length h"
  shows "0 \<le> partial_val n (map sint h) \<and> partial_val n (map sint h) < 2 ^ limb_weight n"
  using assms
proof (induction n)
  case (Suc n)
  then have IH: "0 \<le> partial_val n (map sint h)" "partial_val n (map sint h) < 2 ^ limb_weight n"
    and x: "0 \<le> sint (h ! n)" "sint (h ! n) + 1 \<le> 2 ^ limb_bits n" by (auto simp: exact_upto_def)
  have "2 ^ limb_weight n * (sint (h ! n) + 1) \<le> 2 ^ limb_weight n * 2 ^ limb_bits n"
    using x(2) by (rule mult_left_mono) simp
  then show ?case
    using IH x(1) Suc.prems(2) by (simp add: partial_val_Suc limb_weight_step power_add algebra_simps)
qed (simp add: partial_val_def limb_weight_def)

lemma tobytes_reduce_correct:
  assumes "fe_bound 73819750 36909875 h"
  shows "exact_upto 10 (tobytes_reduce h) \<and> length (tobytes_reduce h) = 10 \<and>
    fe_val (tobytes_reduce h) = fe_val h mod fe_p"
proof -
  let ?q = "tobytes_q h" and ?Q = "fe_val h div fe_p"
  have len: "length h = 10" using assms by (rule fe_bound_length)
  have q: "sint ?q = ?Q" "\<bar>sint ?q\<bar> \<le> 64" using tobytes_q_correct [OF assms] by blast+
  have h0: "\<bar>sint (h ! 0)\<bar> \<le> 73819750" using fe_bound_nths(1) [OF assms] .
  have "sint (19 * ?q) = 19 * ?Q" using q sint_scale_32 [of 19 ?q] by simp
  then have s0: "sint (h ! 0 + 19 * ?q) = sint (h ! 0) + 19 * ?Q"
    using h0 q sint_add_32 [of "h ! 0" "19 * ?q"] by simp
  define g where "g = h[0 := h ! 0 + 19 * ?q]"
  have "\<bar>sint x\<bar> \<le> 2 ^ 26 + 2 ^ 25" if "x \<in> set g" for x
  proof -
    from that have "x = h ! 0 + 19 * ?q \<or> x \<in> set h" unfolding g_def using set_update_subset_insert by fastforce
    then show ?thesis
      using fe_bound_set [OF assms, of x] s0 h0 q by auto
  qed
  moreover have lg: "length g = 10" by (simp add: g_def len)
  ultimately have c: "length (fold exact_carry_at [0..<9] g) = 10" "exact_upto 9 (fold exact_carry_at [0..<9] g)"
    "fe_val (fold exact_carry_at [0..<9] g) = fe_val g" "\<bar>sint (fold exact_carry_at [0..<9] g ! 9)\<bar> \<le> 2 ^ 27"
    using exact_chain [of g 9] by blast+
  have vg: "fe_val g = fe_val h + 19 * ?Q"
    unfolding g_def fe_val_def map_update s0 using len by (simp add: limbs_val_upd limb_weight_def)
  define k where "k = fold exact_carry_at [0..<9] g"
  have k: "length k = 10" "exact_upto 9 k" "fe_val k = fe_val h + 19 * ?Q" "\<bar>sint (k ! 9)\<bar> \<le> 2 ^ 27"
    using c vg unfolding k_def by simp_all
  define y where "y = sint (k ! 9) div 2 ^ 25"
  have "[0..<10] = [0..<9] @ [9 :: nat]" using upt_Suc_append [of 0 9] by simp
  then have "tobytes_reduce h = exact_carry_at 9 k"
    unfolding tobytes_reduce_def g_def [symmetric] k_def upt_10 [symmetric] by (simp only: fold_append) simp
  then have r: "tobytes_reduce h = k[9 := k ! 9 - push_bit 25 (signed_drop_bit 25 (k ! 9))]"
    by (simp add: exact_carry_at_def limb_bits_def Let_def)
  have m: "sint (k ! 9 - push_bit 25 (signed_drop_bit 25 (k ! 9))) = sint (k ! 9) mod 2 ^ 25"
    by (rule exact_carry_step [where h' = 0]) (use k(4) in simp_all)
  have m': "sint (k ! 9) mod 2 ^ 25 = sint (k ! 9) - 2 ^ 25 * y" by (simp add: y_def minus_mult_div_eq_mod)
  have ex: "exact_upto 10 (tobytes_reduce h)"
    unfolding exact_upto_def
  proof (intro allI impI)
    fix i :: nat assume "i < 10"
    then show "0 \<le> sint (tobytes_reduce h ! i) \<and> sint (tobytes_reduce h ! i) < 2 ^ limb_bits i"
      using k(1,2) by (cases "i = 9") (simp_all add: r m exact_upto_def limb_bits_def)
  qed
  have "fe_val (tobytes_reduce h) = fe_val k - 2 ^ 255 * y"
    unfolding r fe_val_def map_update m m' using k(1) by (simp add: limbs_val_upd limb_weight_def)
  also have "fe_val k = fe_val h mod fe_p + 2 ^ 255 * ?Q"
    using mult_div_mod_eq [of fe_p "fe_val h"] unfolding k(3) by (simp add: fe_p_def)
  finally have v: "fe_val (tobytes_reduce h) = fe_val h mod fe_p + 2 ^ 255 * (?Q - y)" by (simp add: algebra_simps)
  have lr: "length (tobytes_reduce h) = 10" by (simp add: r k(1))
  have "0 \<le> fe_val (tobytes_reduce h)" "fe_val (tobytes_reduce h) < 2 ^ 255"
    using exact_val_range [OF ex] lr by (simp_all add: fe_val_partial limb_weight_def)
  moreover have "0 \<le> fe_val h mod fe_p" "fe_val h mod fe_p < 2 ^ 255"
    using pos_mod_bound [of fe_p "fe_val h"] by (simp_all add: fe_p_def)
  ultimately have "?Q - y = 0" using v by simp
  then show ?thesis using ex lr v by simp
qed

section \<open>The bytes\<close>

lemma uint_nonneg: "0 \<le> sint (w :: i32) \<Longrightarrow> int (unat w) = sint w"
  using sint_range_32 [of w] uint_sint [of w]
  by (simp add: take_bit_int_eq_self)

lemma unat_shift_down:
  fixes h :: i32
  assumes "0 \<le> sint h" shows "unat (signed_drop_bit k h) = unat h div 2 ^ k"
proof -
  have "sint (signed_drop_bit k h) = int (unat h div 2 ^ k)"
    by (simp add: sint_shift_down uint_nonneg [OF assms, symmetric] zdiv_int)
  then have "int (unat (signed_drop_bit k h)) = int (unat h div 2 ^ k)"
    by (subst uint_nonneg) simp_all
  then show ?thesis by (simp only: of_nat_eq_iff)
qed

lemma unat_u8_at: "0 \<le> sint h \<Longrightarrow> unat (u8_at k h) = unat h div 2 ^ k mod 256"
  by (simp add: u8_at_def unat_ucast_mod unat_shift_down)

lemma unat_ucast_or_push:
  fixes x y :: i32
  assumes "unat x < 2 ^ l" "l \<le> 8"
  shows "unat (ucast (x OR push_bit l y) :: u8) = unat x + 2 ^ l * (unat y mod 2 ^ (8 - l))"
proof -
  have "unat (ucast (x OR push_bit l y) :: u8) = take_bit 8 (unat x OR take_bit 32 (push_bit l (unat y)))"
    by (simp only: unsigned_ucast_eq unsigned_or_eq unat_push_bit_mod
        push_bit_eq_mult [symmetric] take_bit_eq_mod [symmetric]) simp
  also have "\<dots> = take_bit 8 (unat x) OR push_bit l (take_bit (8 - l) (unat y))"
    using assms(2) by (simp add: take_bit_or take_bit_push_bit min_def)
  also have "take_bit 8 (unat x) = unat x"
    using assms power_increasing [of l 8 "2 :: nat"] by (simp add: take_bit_nat_eq_self)
  also have "unat x OR push_bit l (take_bit (8 - l) (unat y)) = unat x + push_bit l (take_bit (8 - l) (unat y))"
  proof (rule disjunctive_add [symmetric])
    fix m
    have "take_bit l (unat x) = unat x" using assms(1) by (simp add: take_bit_nat_eq_self)
    then show "\<not> bit (unat x) m \<or> \<not> bit (push_bit l (take_bit (8 - l) (unat y))) m"
      by (metis bit_push_bit_iff bit_take_bit_iff not_less)
  qed
  finally show ?thesis by (simp add: push_bit_eq_mult take_bit_eq_mod mult.commute)
qed

lemma unat_u8_join:
  assumes "0 \<le> sint h" "unat h < 2 ^ (k + l)" "l \<le> 8"
  shows "unat (u8_join k h l h') = unat h div 2 ^ k + 2 ^ l * (unat h' mod 2 ^ (8 - l))"
proof -
  have "unat h div 2 ^ k < 2 ^ l"
    using assms(2) by (simp add: power_add less_mult_imp_div_less mult.commute)
  then show ?thesis unfolding u8_join_def using unat_ucast_or_push [of "signed_drop_bit k h" l h'] assms(3) unat_shift_down [OF assms(1)] by simp
qed

lemma split_limb:
  "a = a mod 2 ^ u + 2 ^ u * (a div 2 ^ u mod 256) + 2 ^ (u + 8) * (a div 2 ^ (u + 8) mod 256) + 2 ^ (u + 16) * (a div 2 ^ (u + 16))"
  for a :: nat
proof -
  define b where "b = a div 2 ^ u"
  define c where "c = b div 256"
  have e: "a div 2 ^ (u + 8) = c" "a div 2 ^ (u + 16) = c div 256"
    by (simp_all add: b_def c_def power_add div_mult2_eq [symmetric] mult.commute)
  have "b = 256 * c + b mod 256" "c = 256 * (c div 256) + c mod 256" by (simp_all add: c_def)
  then have "b = b mod 256 + 256 * (c mod 256) + 65536 * (c div 256)" by linarith
  then have "2 ^ u * b = 2 ^ u * (b mod 256 + 256 * (c mod 256) + 65536 * (c div 256))" by (rule arg_cong)
  moreover have "a = 2 ^ u * b + a mod 2 ^ u" by (simp add: b_def)
  ultimately show ?thesis unfolding e b_def [symmetric] by (simp add: power_add algebra_simps)
qed

lemma pack_pieces:
  fixes x0 x1 x2 x3 x4 x5 x6 x7 x8 x9 x10 x11 x12 x13 x14 x15 x16 x17 x18 x19 x20 x21 x22 x23 x24 x25 x26 x27 x28 x29 x30 x31 x32 x33 x34 x35 x36 x37 x38 x39 :: nat
  assumes "a0 = x0 + 256 * x1 + 65536 * x2 + 16777216 * x3"
    "a1 = x4 + 64 * x5 + 16384 * x6 + 4194304 * x7"
    "a2 = x8 + 32 * x9 + 8192 * x10 + 2097152 * x11"
    "a3 = x12 + 8 * x13 + 2048 * x14 + 524288 * x15"
    "a4 = x16 + 4 * x17 + 1024 * x18 + 262144 * x19"
    "a5 = x20 + 256 * x21 + 65536 * x22 + 16777216 * x23"
    "a6 = x24 + 128 * x25 + 32768 * x26 + 8388608 * x27"
    "a7 = x28 + 32 * x29 + 8192 * x30 + 2097152 * x31"
    "a8 = x32 + 16 * x33 + 4096 * x34 + 1048576 * x35"
    "a9 = x36 + 4 * x37 + 1024 * x38 + 262144 * x39"
  shows "x0 + 256 * (
     x1 + 256 * (
     x2 + 256 * (
     (x3 + 4 * x4) + 256 * (
     x5 + 256 * (
     x6 + 256 * (
     (x7 + 8 * x8) + 256 * (
     x9 + 256 * (
     x10 + 256 * (
     (x11 + 32 * x12) + 256 * (
     x13 + 256 * (
     x14 + 256 * (
     (x15 + 64 * x16) + 256 * (
     x17 + 256 * (
     x18 + 256 * (
     x19 + 256 * (
     x20 + 256 * (
     x21 + 256 * (
     x22 + 256 * (
     (x23 + 2 * x24) + 256 * (
     x25 + 256 * (
     x26 + 256 * (
     (x27 + 8 * x28) + 256 * (
     x29 + 256 * (
     x30 + 256 * (
     (x31 + 16 * x32) + 256 * (
     x33 + 256 * (
     x34 + 256 * (
     (x35 + 64 * x36) + 256 * (
     x37 + 256 * (
     x38 + 256 * (
     x39 + 256 * 0))))))))))))))))))))))))))))))) =
    a0 + 2 ^ 26 * a1 + 2 ^ 51 * a2 + 2 ^ 77 * a3 + 2 ^ 102 * a4 + 2 ^ 128 * a5 + 2 ^ 153 * a6 + 2 ^ 179 * a7 + 2 ^ 204 * a8 + 2 ^ 230 * a9"
  unfolding assms by (simp add: algebra_simps)

lemma pack_sum:
  fixes a0 a1 a2 a3 a4 a5 a6 a7 a8 a9 :: nat
  assumes "a4 < 67108864" "a9 < 33554432"
  shows "a0 mod 256 + 256 * (
     a0 div 256 mod 256 + 256 * (
     a0 div 65536 mod 256 + 256 * (
     (a0 div 16777216 + 4 * (a1 mod 64)) + 256 * (
     a1 div 64 mod 256 + 256 * (
     a1 div 16384 mod 256 + 256 * (
     (a1 div 4194304 + 8 * (a2 mod 32)) + 256 * (
     a2 div 32 mod 256 + 256 * (
     a2 div 8192 mod 256 + 256 * (
     (a2 div 2097152 + 32 * (a3 mod 8)) + 256 * (
     a3 div 8 mod 256 + 256 * (
     a3 div 2048 mod 256 + 256 * (
     (a3 div 524288 + 64 * (a4 mod 4)) + 256 * (
     a4 div 4 mod 256 + 256 * (
     a4 div 1024 mod 256 + 256 * (
     a4 div 262144 mod 256 + 256 * (
     a5 mod 256 + 256 * (
     a5 div 256 mod 256 + 256 * (
     a5 div 65536 mod 256 + 256 * (
     (a5 div 16777216 + 2 * (a6 mod 128)) + 256 * (
     a6 div 128 mod 256 + 256 * (
     a6 div 32768 mod 256 + 256 * (
     (a6 div 8388608 + 8 * (a7 mod 32)) + 256 * (
     a7 div 32 mod 256 + 256 * (
     a7 div 8192 mod 256 + 256 * (
     (a7 div 2097152 + 16 * (a8 mod 16)) + 256 * (
     a8 div 16 mod 256 + 256 * (
     a8 div 4096 mod 256 + 256 * (
     (a8 div 1048576 + 64 * (a9 mod 4)) + 256 * (
     a9 div 4 mod 256 + 256 * (
     a9 div 1024 mod 256 + 256 * (
     a9 div 262144 mod 256 + 256 * 0))))))))))))))))))))))))))))))) =
    a0 + 2 ^ 26 * a1 + 2 ^ 51 * a2 + 2 ^ 77 * a3 + 2 ^ 102 * a4 + 2 ^ 128 * a5 + 2 ^ 153 * a6 + 2 ^ 179 * a7 + 2 ^ 204 * a8 + 2 ^ 230 * a9"
proof -
  have s0: "a0 = a0 mod 256 + 256 * (a0 div 256 mod 256) + 65536 * (a0 div 65536 mod 256) + 16777216 * (a0 div 16777216)"
    using split_limb [of a0 8] by simp
  have s1: "a1 = a1 mod 64 + 64 * (a1 div 64 mod 256) + 16384 * (a1 div 16384 mod 256) + 4194304 * (a1 div 4194304)"
    using split_limb [of a1 6] by simp
  have s2: "a2 = a2 mod 32 + 32 * (a2 div 32 mod 256) + 8192 * (a2 div 8192 mod 256) + 2097152 * (a2 div 2097152)"
    using split_limb [of a2 5] by simp
  have s3: "a3 = a3 mod 8 + 8 * (a3 div 8 mod 256) + 2048 * (a3 div 2048 mod 256) + 524288 * (a3 div 524288)"
    using split_limb [of a3 3] by simp
  have s4: "a4 = a4 mod 4 + 4 * (a4 div 4 mod 256) + 1024 * (a4 div 1024 mod 256) + 262144 * (a4 div 262144 mod 256)"
    using split_limb [of a4 2] assms(1) by simp
  have s5: "a5 = a5 mod 256 + 256 * (a5 div 256 mod 256) + 65536 * (a5 div 65536 mod 256) + 16777216 * (a5 div 16777216)"
    using split_limb [of a5 8] by simp
  have s6: "a6 = a6 mod 128 + 128 * (a6 div 128 mod 256) + 32768 * (a6 div 32768 mod 256) + 8388608 * (a6 div 8388608)"
    using split_limb [of a6 7] by simp
  have s7: "a7 = a7 mod 32 + 32 * (a7 div 32 mod 256) + 8192 * (a7 div 8192 mod 256) + 2097152 * (a7 div 2097152)"
    using split_limb [of a7 5] by simp
  have s8: "a8 = a8 mod 16 + 16 * (a8 div 16 mod 256) + 4096 * (a8 div 4096 mod 256) + 1048576 * (a8 div 1048576)"
    using split_limb [of a8 4] by simp
  have s9: "a9 = a9 mod 4 + 4 * (a9 div 4 mod 256) + 1024 * (a9 div 1024 mod 256) + 262144 * (a9 div 262144 mod 256)"
    using split_limb [of a9 2] assms(2) by simp
  show ?thesis by (rule pack_pieces [OF s0 s1 s2 s3 s4 s5 s6 s7 s8 s9])
qed

lemma sum_10_nat: "(\<Sum>i<10. F i) = F 0 + F 1 + F 2 + F 3 + F 4 + F 5 + F 6 + F 7 + F 8 + (F 9 :: nat)" for F :: "nat \<Rightarrow> nat"
  by (simp add: eval_nat_numeral lessThan_Suc)

lemma tobytes_pack_correct:
  assumes "exact_upto 10 h" "length h = 10"
  shows "int (le_nat (tobytes_pack h)) = fe_val h"
proof -
  have s: "0 \<le> sint (h ! i)" "sint (h ! i) < 2 ^ limb_bits i" if "i < 10" for i
    using assms(1) that by (auto simp: exact_upto_def)
  have b: "unat (h ! i) < 2 ^ limb_bits i" if "i < 10" for i
    using s [OF that] uint_nonneg [OF s(1) [OF that]] by (metis of_nat_less_iff of_nat_numeral of_nat_power)
  note at = unat_u8_at [OF s(1)] and join = unat_u8_join [OF s(1)]
  have n: "sint (h ! i) = int (unat (h ! i))" if "i < 10" for i using uint_nonneg [OF s(1) [OF that]] by simp
  have m: "unat (h ! 4) div 262144 mod 256 = unat (h ! 4) div 262144" "unat (h ! 9) div 262144 mod 256 = unat (h ! 9) div 262144"
    using b [of 4] b [of 9] by (simp_all add: limb_bits_def)
  have v: "fe_val h = int (\<Sum>i<10. 2 ^ limb_weight i * unat (h ! i))"
    using assms(2) by (simp add: fe_val_def limbs_val_def n)
  show ?thesis
    unfolding v of_nat_eq_iff tobytes_pack_def le_nat.simps sum_10_nat
    using pack_sum [of "unat (h ! 4)" "unat (h ! 9)" "unat (h ! 0)" "unat (h ! 1)" "unat (h ! 2)" "unat (h ! 3)"
      "unat (h ! 5)" "unat (h ! 6)" "unat (h ! 7)" "unat (h ! 8)"] b [of 4] b [of 9] b [of 0] b [of 1] b [of 2] b [of 3]
      b [of 5] b [of 6] b [of 7] b [of 8]
    by (simp add: at join m limb_bits_def limb_weight_def)
qed

text \<open>The canonical bytes: those of the value reduced modulo \<open>2^255 - 19\<close>.\<close>

lemma fe_tobytes_correct:
  assumes "fe_bound 73819750 36909875 h"
  shows "fe_tobytes h = le_bytes 32 (nat (fe_val h mod fe_p))"
proof -
  have "int (le_nat (fe_tobytes h)) = fe_val h mod fe_p"
    unfolding fe_tobytes_def using tobytes_reduce_correct [OF assms] tobytes_pack_correct by simp
  then have "le_nat (fe_tobytes h) = nat (fe_val h mod fe_p)" by simp
  moreover have "length (fe_tobytes h) = 32" by (simp add: fe_tobytes_def tobytes_pack_def)
  ultimately show ?thesis using le_bytes_le_nat [of "fe_tobytes h"] by simp
qed

end
