(* ===== verification/FeLoad.thy ===== *)
theory FeLoad
  imports FeBytes
begin

text \<open>
  \<open>fe_frombytes\<close> and its round trip with \<open>fe_tobytes\<close>, and the two predicates that are computed
  from the bytes.
\<close>

section \<open>Loads\<close>

lemma le_nat_append: "le_nat (xs @ ys) = le_nat xs + 256 ^ length xs * le_nat ys"
  by (induction xs) (simp_all add: algebra_simps)

lemma le_nat_take_drop: "le_nat bs = le_nat (take j bs) + 256 ^ length (take j bs) * le_nat (drop j bs)"
  using le_nat_append [of "take j bs" "drop j bs"] by simp

lemma unat_ucast_u8_64 [simp]: "unat (ucast (x :: u8) :: i64) = unat x"
  by (simp add: unat_ucast_mod mod_less less_trans [OF unat_u8_less])

lemma take_3: "i + 3 \<le> length s \<Longrightarrow> take 3 (drop i s) = [s ! i, s ! (i + 1), s ! (i + 2)]"
  by (rule nth_equalityI) (auto simp: less_Suc_eq numeral_eq_Suc)

lemma take_4: "i + 4 \<le> length s \<Longrightarrow> take 4 (drop i s) = [s ! i, s ! (i + 1), s ! (i + 2), s ! (i + 3)]"
  by (rule nth_equalityI) (auto simp: less_Suc_eq numeral_eq_Suc)

lemma bytes_less: "unat (a :: u8) + 256 * unat (b :: u8) < 65536"
  "unat (a :: u8) + 256 * unat (b :: u8) + 65536 * unat (c :: u8) < 16777216"
  "unat (a :: u8) + 256 * unat (b :: u8) + 65536 * unat (c :: u8) + 16777216 * unat (d :: u8) < 4294967296"
  using unat_u8_less [of a] unat_u8_less [of b] unat_u8_less [of c] unat_u8_less [of d] by linarith+

lemma uint_less: "unat (x :: i64) < 2 ^ 32 \<Longrightarrow> uint x < 2 ^ 32"
  using of_nat_less_iff [of "unat x" "2 ^ 32", where 'a = int] by simp

lemma unat_load_3:
  assumes "i + 3 \<le> length s"
  shows "unat (load_3 s i) = le_nat (take 3 (drop i s))" "unat (load_3 s i) < 2 ^ 24"
proof -
  let ?a = "s ! i" and ?b = "s ! (i + 1)" and ?c = "s ! (i + 2)"
  have l: "unat ?a \<le> 255" "unat ?b \<le> 255" "unat ?c \<le> 255" by simp_all
  have 1: "unat (ucast ?a OR push_bit 8 (ucast ?b) :: i64) = unat ?a + 256 * unat ?b"
    using l by (subst unat_or_push) (simp_all add: less_le_trans [OF unat_u8_less] bytes_less)
  have "unat (load_3 s i) = unat ?a + 256 * unat ?b + 65536 * unat ?c"
    unfolding load_3_def or.assoc [symmetric] using l 1 by (subst unat_or_push) (simp_all add: less_le_trans [OF unat_u8_less] bytes_less)
  then show "unat (load_3 s i) = le_nat (take 3 (drop i s))" "unat (load_3 s i) < 2 ^ 24"
    by (simp_all add: take_3 [OF assms] bytes_less)
qed

lemma unat_load_4:
  assumes "i + 4 \<le> length s"
  shows "unat (load_4 s i) = le_nat (take 4 (drop i s))" "unat (load_4 s i) < 2 ^ 32"
proof -
  let ?a = "s ! i" and ?b = "s ! (i + 1)" and ?c = "s ! (i + 2)" and ?d = "s ! (i + 3)"
  have l: "unat ?a \<le> 255" "unat ?b \<le> 255" "unat ?c \<le> 255" "unat ?d \<le> 255" by simp_all
  have 1: "unat (ucast ?a OR push_bit 8 (ucast ?b) :: i64) = unat ?a + 256 * unat ?b"
    using l by (subst unat_or_push) (simp_all add: less_le_trans [OF unat_u8_less] bytes_less)
  have 2: "unat ((ucast ?a OR push_bit 8 (ucast ?b)) OR push_bit 16 (ucast ?c) :: i64) =
      unat ?a + 256 * unat ?b + 65536 * unat ?c"
    using l 1 by (subst unat_or_push) (simp_all add: less_le_trans [OF unat_u8_less] bytes_less)
  have "unat (load_4 s i) = unat ?a + 256 * unat ?b + 65536 * unat ?c + 16777216 * unat ?d"
    unfolding load_4_def or.assoc [symmetric] using l 2 by (subst unat_or_push) (simp_all add: less_le_trans [OF unat_u8_less] bytes_less)
  then show "unat (load_4 s i) = le_nat (take 4 (drop i s))" "unat (load_4 s i) < 2 ^ 32"
    by (simp_all add: take_4 [OF assms] bytes_less)
qed

lemma sint_small:
  assumes "unat (x :: i64) < 2 ^ 32"
  shows "sint x = int (unat x)"
proof -
  have "x = word_of_int (int (unat x))" by simp
  then show ?thesis using uint_less [OF assms] order_trans [OF _ uint_ge_0 [of x], of "- (2 ^ 63)"]
      sint_word_of_int_64 [of "int (unat x)"] by simp
qed

lemma sint_push_small:
  assumes "unat (x :: i64) < 2 ^ 32" "k \<le> 8"
  shows "sint (push_bit k x) = 2 ^ k * int (unat x)"
proof -
  have "(2::int) ^ k \<le> 2 ^ 8" using assms(2) by (intro power_increasing) simp_all
  then have "2 ^ k * int (unat x) \<le> 2 ^ 8 * int (unat x)" by (rule mult_right_mono) simp
  also have "\<dots> < 2 ^ 8 * 2 ^ 32" using uint_less [OF assms(1)] by simp
  finally have "\<bar>int (2 ^ k) * sint x\<bar> < 2 ^ 63" by (simp add: sint_small [OF assms(1)])
  from sint_scale_64 [OF this] show ?thesis by (simp add: push_bit_scale sint_small [OF assms(1)])
qed

section \<open>Reading an element\<close>

lemma le_nat_pieces:
  assumes "length s = 32"
  defines "ld3 \<equiv> \<lambda>i. le_nat (take 3 (drop i s))" and "ld4 \<equiv> \<lambda>i. le_nat (take 4 (drop i s))"
  shows "le_nat s = ld4 0 + 2 ^ 32 * ld3 4 + 2 ^ 56 * ld3 7 + 2 ^ 80 * ld3 10 + 2 ^ 104 * ld3 13 + 2 ^ 128 * ld4 16 +
    2 ^ 160 * ld3 20 + 2 ^ 184 * ld3 23 + 2 ^ 208 * ld3 26 + 2 ^ 232 * ld3 29"
proof -
  have 3: "le_nat (drop i s) = ld3 i + 2 ^ 24 * le_nat (drop (i + 3) s)" if "i + 3 \<le> 32" for i
    using le_nat_take_drop [of "drop i s" 3] that assms(1) by (simp add: ld3_def add.commute)
  have 4: "le_nat (drop i s) = ld4 i + 2 ^ 32 * le_nat (drop (i + 4) s)" if "i + 4 \<le> 32" for i
    using le_nat_take_drop [of "drop i s" 4] that assms(1) by (simp add: ld4_def add.commute)
  have "le_nat (drop 32 s) = 0" using assms(1) by simp
  then show ?thesis
    using 4 [of 0] 3 [of 4] 3 [of 7] 3 [of 10] 3 [of 13] 4 [of 16] 3 [of 20] 3 [of 23] 3 [of 26] 3 [of 29] by simp
qed

lemma mod_top:
  fixes l x :: nat
  assumes "l < 2 ^ 232"
  shows "(l + 2 ^ 232 * x) mod 2 ^ 255 = l + 2 ^ 232 * (x mod 2 ^ 23)"
proof -
  have "(2::nat) ^ 255 = 2 ^ 232 * 2 ^ 23" by simp
  then show ?thesis using assms mod_mult2_eq [of "l + 2 ^ 232 * x" "2 ^ 232" "2 ^ 23"] by simp
qed

text \<open>The ten loads, as numbers; the last without its top bit.\<close>

lemma sint_loads:
  assumes "length s = 32"
  shows "map sint (frombytes_loads s) = map int
    [unat (load_4 s 0), 2 ^ 6 * unat (load_3 s 4), 2 ^ 5 * unat (load_3 s 7), 2 ^ 3 * unat (load_3 s 10),
     2 ^ 2 * unat (load_3 s 13), unat (load_4 s 16), 2 ^ 7 * unat (load_3 s 20), 2 ^ 5 * unat (load_3 s 23),
     2 ^ 4 * unat (load_3 s 26), 2 ^ 2 * (unat (load_3 s 29) mod 2 ^ 23)]"
proof -
  have b3: "unat (load_3 s i) < 2 ^ 32" if "i + 3 \<le> 32" for i
    using unat_load_3(2) [of i s] that assms by simp
  have a: "unat (load_3 s 29 AND 8388607) = unat (load_3 s 29) mod 2 ^ 23"
    using unat_and_mask_mod [of "load_3 s 29" 23] by (simp add: mask_eq_exp_minus_1)
  have "unat (load_3 s 29) mod 2 ^ 23 < 2 ^ 32" using b3 [of 29] by (simp add: le_less_trans [OF mod_less_eq_dividend])
  then have l: "unat (load_3 s 29 AND 8388607) < 2 ^ 32" unfolding a .
  show ?thesis
    unfolding frombytes_loads_def list.map a [symmetric]
    using b3 [of 4] b3 [of 7] b3 [of 10] b3 [of 13] b3 [of 20] b3 [of 23] b3 [of 26] l
      unat_load_4(2) [of 0 s] unat_load_4(2) [of 16 s] assms
    by (simp only: sint_push_small sint_small) simp
qed

lemma frombytes_loads_correct:
  assumes "length s = 32"
  shows "fe_val (frombytes_loads s) = int (le_nat s mod 2 ^ 255)" "bounded (replicate 10 9000000000000) (frombytes_loads s)"
proof -
  note b3 = unat_load_3(2) [of _ s, unfolded assms] and b4 = unat_load_4(2) [of _ s, unfolded assms]
  note b = b4 [of 0] b3 [of 4] b3 [of 7] b3 [of 10] b3 [of 13] b4 [of 16] b3 [of 20] b3 [of 23] b3 [of 26] b3 [of 29]
  let ?l = "unat (load_4 s 0) + 2 ^ 32 * unat (load_3 s 4) + 2 ^ 56 * unat (load_3 s 7) + 2 ^ 80 * unat (load_3 s 10) +
    2 ^ 104 * unat (load_3 s 13) + 2 ^ 128 * unat (load_4 s 16) + 2 ^ 160 * unat (load_3 s 20) +
    2 ^ 184 * unat (load_3 s 23) + 2 ^ 208 * unat (load_3 s 26)"
  have "?l < 2 ^ 232" using b by simp
  have "le_nat s = ?l + 2 ^ 232 * unat (load_3 s 29)"
    using le_nat_pieces [OF assms] assms by (simp add: unat_load_3(1) unat_load_4(1))
  then have "le_nat s mod 2 ^ 255 = ?l + 2 ^ 232 * (unat (load_3 s 29) mod 2 ^ 23)"
    using mod_top [OF \<open>?l < 2 ^ 232\<close>] by simp
  then show "fe_val (frombytes_loads s) = int (le_nat s mod 2 ^ 255)"
    unfolding fe_val_def sint_loads [OF assms] limbs_val_def sum_10 by (simp add: limb_weight_def)
  define ns where "ns = [unat (load_4 s 0), 2 ^ 6 * unat (load_3 s 4), 2 ^ 5 * unat (load_3 s 7), 2 ^ 3 * unat (load_3 s 10),
     2 ^ 2 * unat (load_3 s 13), unat (load_4 s 16), 2 ^ 7 * unat (load_3 s 20), 2 ^ 5 * unat (load_3 s 23),
     2 ^ 4 * unat (load_3 s 26), 2 ^ 2 * (unat (load_3 s 29) mod 2 ^ 23)]"
  have "unat (load_3 s 29) mod 2 ^ 23 < 2 ^ 23" by simp
  then have "\<forall>x \<in> set ns. x \<le> 9000000000000" using b by (simp add: ns_def)
  then have "\<forall>x \<in> set (map sint (frombytes_loads s)). \<bar>x\<bar> \<le> 9000000000000"
    unfolding sint_loads [OF assms] ns_def [symmetric] by auto
  then show "bounded (replicate 10 9000000000000) (frombytes_loads s)"
    by (simp add: bounded_replicate frombytes_loads_def)
qed

text \<open>Any 32 bytes, without their top bit, are read; the element need not be reduced.\<close>

lemma fe_frombytes_correct:
  assumes "length s = 32"
  shows "fe_val (fe_frombytes s) mod fe_p = int (le_nat s mod 2 ^ 255) mod fe_p \<and>
    fe_bound 36909875 18454937 (fe_frombytes s)"
  using odd_even_carries_spec [OF frombytes_loads_correct(2) [OF assms]]
  by (simp add: fe_frombytes_def frombytes_loads_correct(1) [OF assms])

text \<open>Writing what was read: the bytes of the number reduced; in particular every canonical encoding is
  read and written back unchanged, so no two of them stand for the same element.\<close>

lemma frombytes_tobytes:
  assumes "length s = 32"
  shows "fe_tobytes (fe_frombytes s) = le_bytes 32 (le_nat s mod 2 ^ 255 mod (2 ^ 255 - 19)) \<and>
    (le_nat s < 2 ^ 255 - 19 \<longrightarrow> fe_tobytes (fe_frombytes s) = s)"
proof -
  note f = fe_frombytes_correct [OF assms]
  have "fe_bound 73819750 36909875 (fe_frombytes s)" using f by (auto elim: fe_bound_mono)
  then have "fe_tobytes (fe_frombytes s) = le_bytes 32 (nat (fe_val (fe_frombytes s) mod fe_p))"
    by (rule fe_tobytes_correct)
  moreover have "nat (fe_val (fe_frombytes s) mod fe_p) = le_nat s mod 2 ^ 255 mod (2 ^ 255 - 19)"
  proof -
    have "fe_val (fe_frombytes s) mod fe_p = int (le_nat s mod 2 ^ 255 mod (2 ^ 255 - 19))"
      using f by (simp add: fe_p_def zmod_int)
    then show ?thesis by (simp only: nat_int)
  qed
  ultimately have t: "fe_tobytes (fe_frombytes s) = le_bytes 32 (le_nat s mod 2 ^ 255 mod (2 ^ 255 - 19))" by simp
  moreover have "fe_tobytes (fe_frombytes s) = s" if "le_nat s < 2 ^ 255 - 19"
    using t le_bytes_le_nat [of s] assms that by simp
  ultimately show ?thesis by blast
qed

section \<open>Predicates\<close>

lemma le_nat_0: "le_nat bs = 0 \<longleftrightarrow> (\<forall>b \<in> set bs. b = 0)"
  by (induction bs) (auto simp: unat_eq_0)

lemma word_or_0: "(a OR b = 0) \<longleftrightarrow> a = 0 \<and> b = (0 :: 'a::len word)"
  by (auto simp: bit_eq_iff bit_simps)

lemma fold_or_0: "fold (\<lambda>i r. r OR s ! i) is r = 0 \<longleftrightarrow> r = 0 \<and> (\<forall>i \<in> set is. s ! i = (0 :: u8))"
  by (induction "is" arbitrary: r) (auto simp: word_or_0)

lemma low_bit: "(ucast (of_nat (n mod 256) AND 1 :: u8) :: i32) = of_nat (n mod 2)"
proof -
  have "unat (of_nat (n mod 256) AND 1 :: u8) = n mod 2"
    using unat_and_mask_mod [of "of_nat (n mod 256) :: u8" 1] by (simp add: unat_of_nat mod_mod_cancel)
  then have "unat (ucast (of_nat (n mod 256) AND 1 :: u8) :: i32) = unat (of_nat (n mod 2) :: i32)"
    by (simp only: unat_ucast_mod unat_of_nat)
  then show ?thesis by (simp only: word_unat_eq_iff)
qed

text \<open>\<open>fe_isnegative\<close> is the lowest bit of the canonical representative, \<open>fe_isnonzero\<close> tells whether
  it is zero: 1 when it is not, the contrary of the comment above it.\<close>

lemma fe_predicates_correct:
  assumes "fe_bound 73819750 36909875 f"
  shows "fe_isnegative f = of_int (fe_val f mod fe_p mod 2) \<and>
    fe_isnonzero f = (if fe_val f mod fe_p = 0 then 0 else 1)"
proof -
  let ?n = "nat (fe_val f mod fe_p)"
  note t = fe_tobytes_correct [OF assms]
  have n: "0 \<le> fe_val f mod fe_p" "fe_val f mod fe_p < fe_p" by (simp_all add: fe_p_def)
  have l: "le_nat (fe_tobytes f) = ?n"
    using n unfolding t le_nat_le_bytes by (simp add: fe_p_def nat_less_iff)
  have len: "length (fe_tobytes f) = 32" by (simp add: t)
  have "(\<forall>b \<in> set (fe_tobytes f). b = 0) \<longleftrightarrow> fe_tobytes f ! 0 = 0 \<and> (\<forall>i \<in> {1..<32}. fe_tobytes f ! i = 0)"
    unfolding all_set_conv_all_nth len by (auto simp: Ball_def) (metis One_nat_def Suc_leI gr0I)
  then have "fe_isnonzero f = (if \<forall>b \<in> set (fe_tobytes f). b = 0 then 0 else 1)"
    by (auto simp: fe_isnonzero_def fold_or_0 Let_def)
  also have "(\<forall>b \<in> set (fe_tobytes f). b = 0) \<longleftrightarrow> fe_val f mod fe_p = 0"
    using l n by (simp flip: le_nat_0)
  finally have z: "fe_isnonzero f = (if fe_val f mod fe_p = 0 then 0 else 1)" .
  have "le_bytes 32 ?n = of_nat (?n mod 256) # le_bytes 31 (?n div 256)"
    using le_bytes.simps(2) [of 31 ?n] by simp
  then have "fe_isnegative f = ucast (of_nat (?n mod 256) AND 1 :: u8)" by (simp add: fe_isnegative_def t)
  also have "\<dots> = of_nat (?n mod 2)" by (rule low_bit)
  also have "\<dots> = of_int (int (?n mod 2))" by (simp only: of_int_of_nat_eq)
  also have "int (?n mod 2) = fe_val f mod fe_p mod 2" using n by (simp only: zmod_int) simp
  finally show ?thesis using z by blast
qed

end
