(* ===== verification/FeClaims.thy ===== *)
theory FeClaims
  imports FeLoad
begin

text \<open>
  What the field arithmetic (\<open>src/lib/ed25519/fe.c\<close>) promises its callers, each promise with
  elements it is used at.  The bounds of the limbs are those in the comments of the source: 1.1 and
  1.65 times a power of two, for instance \<open>1.65 * 2^26 = 110729625.6\<close>.
\<close>

section \<open>Two sample elements\<close>

definition sample_f :: fe where
  "sample_f = [30000000, - 15000000, 7, - 8, 33554432, 16777216, - 33554432, - 16777216, 1, 12345678]"

definition sample_g :: fe where
  "sample_g = [- 19, 1, - 2, 3, - 4, 5, - 6, 7, - 8, 9]"

lemma sample_bounds:
  "fe_bound 36909875 18454937 sample_f" "fe_bound 36909875 18454937 sample_g"
  by (simp_all add: fe_bound_def bounded_def sample_f_def sample_g_def)

lemma sample_wide_bounds:
  "fe_bound 110729625 55364812 sample_f" "fe_bound 110729625 55364812 sample_g"
  "fe_bound 73819750 36909875 sample_f"
  using sample_bounds by (auto elim: fe_bound_mono)

section \<open>Sums and products\<close>

text \<open>C25: Multiplication refines the multiplication of the field: for factors with limbs of at most
  1.65 * 2^26 and 1.65 * 2^25 no 32-bit or 64-bit intermediate overflows, the product stands for the product
  modulo 2^255 - 19, and its limbs are short enough for it to be added once and multiplied again.\<close>

theorem field_product:
  assumes "fe_bound 110729625 55364812 f" "fe_bound 110729625 55364812 g"
  shows "fe_val (fe_mul f g) mod fe_p = fe_val f * fe_val g mod fe_p \<and>
    fe_bound 33889976 16944988 (fe_mul f g)"
  using fe_mul_correct [OF assms] .

theorem field_product_witness:
  "fe_val (fe_mul sample_f sample_g) mod fe_p = fe_val sample_f * fe_val sample_g mod fe_p \<and>
    fe_bound 33889976 16944988 (fe_mul sample_f sample_g)"
  using field_product [OF sample_wide_bounds(1,2)] .

text \<open>C29: The optimised squares: \<open>fe_sq\<close>, with 55 products for 100, yields the ten limbs of the
  multiplication by itself, and \<open>fe_sq2\<close> twice their value; \<open>fe_mul121666\<close> is the product with the
  constant.\<close>

theorem field_square_is_product:
  assumes "fe_bound 110729625 55364812 f"
  shows "fe_sq f = fe_mul f f \<and>
    fe_val (fe_sq2 f) mod fe_p = 2 * fe_val f ^ 2 mod fe_p \<and> fe_bound 33889976 16944988 (fe_sq2 f) \<and>
    (fe_bound 73819750 36909875 f \<longrightarrow>
      fe_val (fe_mul121666 f) mod fe_p = 121666 * fe_val f mod fe_p \<and>
      fe_bound 36909875 18454937 (fe_mul121666 f))"
  using fe_sq_is_mul [OF assms] fe_sq2_correct [OF assms] fe_mul121666_correct [of f] by blast

theorem field_square_is_product_witness:
  "fe_sq sample_f = fe_mul sample_f sample_f \<and>
    fe_val (fe_mul121666 sample_f) mod fe_p = 121666 * fe_val sample_f mod fe_p"
  using field_square_is_product [OF sample_wide_bounds(1)] sample_wide_bounds(3) by blast

text \<open>Sums, differences and negations of short elements are exact, limb by limb, and may be factors of
  the next product; the conditional moves choose by their last argument.\<close>

theorem field_sums:
  assumes "fe_bound 36909875 18454937 f" "fe_bound 36909875 18454937 g"
  shows "fe_val (fe_add f g) = fe_val f + fe_val g \<and> fe_bound 73819750 36909874 (fe_add f g) \<and>
    fe_val (fe_sub f g) = fe_val f - fe_val g \<and> fe_bound 73819750 36909874 (fe_sub f g) \<and>
    fe_val (fe_neg f) = - fe_val f \<and> fe_bound 36909875 18454937 (fe_neg f) \<and>
    fe_cmov f g 0 = f \<and> fe_cmov f g 1 = g \<and> fe_cswap f g 0 = (f, g) \<and> fe_cswap f g 1 = (g, f)"
  using fe_add_sub_correct [OF assms] fe_moves_correct [of f g] assms by (simp add: fe_bound_length)

theorem field_sums_witness:
  "fe_val (fe_sub sample_f sample_g) = fe_val sample_f - fe_val sample_g \<and>
    fe_cswap sample_f sample_g 1 = (sample_g, sample_f)"
  using field_sums [OF sample_bounds] by blast

section \<open>Powers\<close>

text \<open>The addition chains compute the powers with the exponents \<open>p - 2\<close> (the inverse, by Fermat's
  theorem) and \<open>(p - 5) / 8\<close> (for the square root).\<close>

theorem field_powers:
  assumes "fe_bound 110729625 55364812 z"
  shows "fe_val (fe_invert z) mod fe_p = fe_val z ^ (2 ^ 255 - 21) mod fe_p \<and>
    fe_val (fe_pow22523 z) mod fe_p = fe_val z ^ (2 ^ 252 - 3) mod fe_p \<and>
    fe_bound 110729625 55364812 (fe_invert z) \<and> fe_bound 110729625 55364812 (fe_pow22523 z)"
  using fe_invert_correct [OF assms] fe_pow22523_correct [OF assms] by blast

theorem field_powers_witness:
  "fe_val (fe_invert sample_g) mod fe_p = fe_val sample_g ^ (2 ^ 255 - 21) mod fe_p"
  using field_powers [OF sample_wide_bounds(2)] by blast

section \<open>Bytes\<close>

text \<open>C27: \<open>fe_tobytes\<close> writes the canonical encoding, the 32 bytes, lowest first, of the value reduced
  modulo 2^255 - 19, whatever limbs represent it; so equal elements have equal encodings.  Sign and
  zero test are read off it.\<close>

theorem field_canonical_bytes:
  assumes "fe_bound 73819750 36909875 h"
  shows "fe_tobytes h = le_bytes 32 (nat (fe_val h mod fe_p)) \<and>
    fe_isnegative h = of_int (fe_val h mod fe_p mod 2) \<and>
    fe_isnonzero h = (if fe_val h mod fe_p = 0 then 0 else 1)"
  using fe_tobytes_correct [OF assms] fe_predicates_correct [OF assms] by blast

theorem field_canonical_bytes_witness:
  "fe_tobytes sample_f = le_bytes 32 (nat (fe_val sample_f mod fe_p)) \<and> fe_isnonzero sample_f = 1"
proof -
  have "fe_val sample_f mod fe_p \<noteq> 0"
    by (simp add: sample_f_def fe_val_def limbs_val_def limb_weight_def fe_p_def lessThan_nat_numeral lessThan_Suc)
  then show ?thesis using field_canonical_bytes [OF sample_wide_bounds(3)] by simp
qed

lemma le_nat_zeros [simp]: "le_nat (replicate n 0) = 0"
  by (induction n) simp_all

text \<open>Reading 32 bytes and writing them back reduces their number without its top bit; a canonical
  encoding comes back unchanged, so no two of them stand for the same element.\<close>

theorem field_bytes_roundtrip:
  assumes "length s = 32"
  shows "fe_tobytes (fe_frombytes s) = le_bytes 32 (le_nat s mod 2 ^ 255 mod (2 ^ 255 - 19)) \<and>
    (le_nat s < 2 ^ 255 - 19 \<longrightarrow> fe_tobytes (fe_frombytes s) = s)"
  using frombytes_tobytes [OF assms] .

theorem field_bytes_roundtrip_witness:
  "fe_tobytes (fe_frombytes (9 # replicate 31 0)) = 9 # replicate 31 0"
  using conjunct2 [OF field_bytes_roundtrip [of "9 # replicate 31 0"]] by simp

end
