(* ===== verification/Sha512.thy ===== *)
theory Sha512
  imports MapPrelude
begin

text \<open>
  The hash function of the signature library (\<open>src/lib/ed25519/sha512.c\<close>): context, compression,
  and the three calls that process a message in pieces.
\<close>

section \<open>Constants and macros\<close>

type_synonym u64 = "64 word"

text \<open>64-bit constants from their 32-bit halves.\<close>

definition halves :: "u64 list \<Rightarrow> u64 list \<Rightarrow> u64 list" where
  "halves hi lo = map2 (\<lambda>h l. push_bit 32 h OR l) hi lo"

definition sha512_K :: "u64 list" where
  "sha512_K = halves
    [0x428A2F98, 0x71374491, 0xB5C0FBCF, 0xE9B5DBA5, 0x3956C25B, 0x59F111F1, 0x923F82A4, 0xAB1C5ED5,
     0xD807AA98, 0x12835B01, 0x243185BE, 0x550C7DC3, 0x72BE5D74, 0x80DEB1FE, 0x9BDC06A7, 0xC19BF174,
     0xE49B69C1, 0xEFBE4786, 0x0FC19DC6, 0x240CA1CC, 0x2DE92C6F, 0x4A7484AA, 0x5CB0A9DC, 0x76F988DA,
     0x983E5152, 0xA831C66D, 0xB00327C8, 0xBF597FC7, 0xC6E00BF3, 0xD5A79147, 0x06CA6351, 0x14292967,
     0x27B70A85, 0x2E1B2138, 0x4D2C6DFC, 0x53380D13, 0x650A7354, 0x766A0ABB, 0x81C2C92E, 0x92722C85,
     0xA2BFE8A1, 0xA81A664B, 0xC24B8B70, 0xC76C51A3, 0xD192E819, 0xD6990624, 0xF40E3585, 0x106AA070,
     0x19A4C116, 0x1E376C08, 0x2748774C, 0x34B0BCB5, 0x391C0CB3, 0x4ED8AA4A, 0x5B9CCA4F, 0x682E6FF3,
     0x748F82EE, 0x78A5636F, 0x84C87814, 0x8CC70208, 0x90BEFFFA, 0xA4506CEB, 0xBEF9A3F7, 0xC67178F2,
     0xCA273ECE, 0xD186B8C7, 0xEADA7DD6, 0xF57D4F7F, 0x06F067AA, 0x0A637DC5, 0x113F9804, 0x1B710B35,
     0x28DB77F5, 0x32CAAB7B, 0x3C9EBE0A, 0x431D67C4, 0x4CC5D4BE, 0x597F299C, 0x5FCB6FAB, 0x6C44198C]
    [0xD728AE22, 0x23EF65CD, 0xEC4D3B2F, 0x8189DBBC, 0xF348B538, 0xB605D019, 0xAF194F9B, 0xDA6D8118,
     0xA3030242, 0x45706FBE, 0x4EE4B28C, 0xD5FFB4E2, 0xF27B896F, 0x3B1696B1, 0x25C71235, 0xCF692694,
     0x9EF14AD2, 0x384F25E3, 0x8B8CD5B5, 0x77AC9C65, 0x592B0275, 0x6EA6E483, 0xBD41FBD4, 0x831153B5,
     0xEE66DFAB, 0x2DB43210, 0x98FB213F, 0xBEEF0EE4, 0x3DA88FC2, 0x930AA725, 0xE003826F, 0x0A0E6E70,
     0x46D22FFC, 0x5C26C926, 0x5AC42AED, 0x9D95B3DF, 0x8BAF63DE, 0x3C77B2A8, 0x47EDAEE6, 0x1482353B,
     0x4CF10364, 0xBC423001, 0xD0F89791, 0x0654BE30, 0xD6EF5218, 0x5565A910, 0x5771202A, 0x32BBD1B8,
     0xB8D2D0C8, 0x5141AB53, 0xDF8EEB99, 0xE19B48A8, 0xC5C95A63, 0xE3418ACB, 0x7763E373, 0xD6B2B8A3,
     0x5DEFB2FC, 0x43172F60, 0xA1F0AB72, 0x1A6439EC, 0x23631E28, 0xDE82BDE9, 0xB2C67915, 0xE372532B,
     0xEA26619C, 0x21C0C207, 0xCDE0EB1E, 0xEE6ED178, 0x72176FBA, 0xA2C898A6, 0xBEF90DAE, 0x131C471B,
     0x23047D84, 0x40C72493, 0x15C9BEBC, 0x9C100D4C, 0xCB3E42B6, 0xFC657E2A, 0x3AD6FAEC, 0x4A475817]"

definition ROR64c :: "u64 \<Rightarrow> nat \<Rightarrow> u64" where
  "ROR64c x n = drop_bit n x OR push_bit (64 - n) x"

definition STORE64H :: "u64 \<Rightarrow> bytes" where
  "STORE64H x = map (\<lambda>k. ucast (drop_bit k x AND 255)) [56, 48, 40, 32, 24, 16, 8, 0]"

definition LOAD64H :: "bytes \<Rightarrow> u64" where
  "LOAD64H y =
     push_bit 56 (ucast (y ! 0)) OR push_bit 48 (ucast (y ! 1)) OR push_bit 40 (ucast (y ! 2)) OR
     push_bit 32 (ucast (y ! 3)) OR push_bit 24 (ucast (y ! 4)) OR push_bit 16 (ucast (y ! 5)) OR
     push_bit 8 (ucast (y ! 6)) OR ucast (y ! 7)"

definition Ch :: "u64 \<Rightarrow> u64 \<Rightarrow> u64 \<Rightarrow> u64" where
  "Ch x y z = z XOR (x AND (y XOR z))"

definition Maj :: "u64 \<Rightarrow> u64 \<Rightarrow> u64 \<Rightarrow> u64" where
  "Maj x y z = ((x OR y) AND z) OR (x AND y)"

definition Sigma0 :: "u64 \<Rightarrow> u64" where
  "Sigma0 x = ROR64c x 28 XOR ROR64c x 34 XOR ROR64c x 39"

definition Sigma1 :: "u64 \<Rightarrow> u64" where
  "Sigma1 x = ROR64c x 14 XOR ROR64c x 18 XOR ROR64c x 41"

definition Gamma0 :: "u64 \<Rightarrow> u64" where
  "Gamma0 x = ROR64c x 1 XOR ROR64c x 8 XOR drop_bit 7 x"

definition Gamma1 :: "u64 \<Rightarrow> u64" where
  "Gamma1 x = ROR64c x 19 XOR ROR64c x 61 XOR drop_bit 6 x"

section \<open>Compression\<close>

text \<open>\<open>buf\<close> is the memory that starts at the block.\<close>

definition load_block :: "bytes \<Rightarrow> u64 list" where
  "load_block buf = map (\<lambda>i. LOAD64H (drop (8 * i) buf)) [0..<16]"

definition extend_W :: "nat \<Rightarrow> u64 list \<Rightarrow> u64 list" where
  "extend_W i W = W @ [Gamma1 (W ! (i - 2)) + W ! (i - 7) + Gamma0 (W ! (i - 15)) + W ! (i - 16)]"

definition schedule :: "bytes \<Rightarrow> u64 list" where
  "schedule buf = fold extend_W [16..<80] (load_block buf)"

text \<open>\<open>RND(S[r 0], ..., S[r 7], i)\<close>: in the unrolled loop the roles of the eight variables move on by
  one place with every round.\<close>

definition rnd_index :: "nat \<Rightarrow> nat \<Rightarrow> nat" where
  "rnd_index i k = (k + 8 - i mod 8) mod 8"

definition RND :: "u64 list \<Rightarrow> nat \<Rightarrow> u64 list \<Rightarrow> u64 list" where
  "RND W i S =
     (let r = rnd_index i;
          t0 = S ! r 7 + Sigma1 (S ! r 4) + Ch (S ! r 4) (S ! r 5) (S ! r 6) + sha512_K ! i + W ! i;
          t1 = Sigma0 (S ! r 0) + Maj (S ! r 0) (S ! r 1) (S ! r 2);
          S = S[r 3 := S ! r 3 + t0]
      in S[r 7 := t0 + t1])"

definition compress_state :: "u64 list \<Rightarrow> bytes \<Rightarrow> u64 list" where
  "compress_state state buf = map2 (+) state (fold (RND (schedule buf)) [0..<80] state)"

section \<open>The context\<close>

record sha512_context =
  md_length :: u64
  md_state :: "u64 list"
  md_curlen :: nat
  md_buf :: bytes

definition sha512_compress :: "sha512_context \<Rightarrow> bytes \<Rightarrow> sha512_context" where
  "sha512_compress md buf = md\<lparr>md_state := compress_state (md_state md) buf\<rparr>"

definition initial_state :: "u64 list" where
  "initial_state = halves
    [0x6A09E667, 0xBB67AE85, 0x3C6EF372, 0xA54FF53A, 0x510E527F, 0x9B05688C, 0x1F83D9AB, 0x5BE0CD19]
    [0xF3BCC908, 0x84CAA73B, 0xFE94F82B, 0x5F1D36F1, 0xADE682D1, 0x2B3E6C1F, 0xFB41BD6B, 0x137E2179]"

text \<open>The calls return a code, 0 for success; a null pointer is \<^const>\<open>None\<close>.\<close>

definition sha512_init :: "sha512_context option \<Rightarrow> nat \<times> sha512_context option" where
  "sha512_init p =
     (case p of None \<Rightarrow> (1, None)
      | Some md \<Rightarrow> (0, Some (md\<lparr>md_curlen := 0, md_length := 0, md_state := initial_state\<rparr>)))"

function update_loop :: "sha512_context \<Rightarrow> bytes \<Rightarrow> sha512_context" where
  "update_loop md inp =
     (if inp = [] \<or> md_curlen md > 128 then md
      else if md_curlen md = 0 \<and> length inp \<ge> 128 then
        update_loop ((sha512_compress md inp)\<lparr>md_length := md_length md + 128 * 8\<rparr>) (drop 128 inp)
      else
        (let n = min (length inp) (128 - md_curlen md);
             md = md\<lparr>md_buf := take (md_curlen md) (md_buf md) @ take n inp @ drop (md_curlen md + n) (md_buf md),
                     md_curlen := md_curlen md + n\<rparr>
         in update_loop
              (if md_curlen md = 128
               then (sha512_compress md (md_buf md))\<lparr>md_length := md_length md + 8 * 128, md_curlen := 0\<rparr>
               else md)
              (drop n inp)))"
  by pat_completeness auto
termination
  by (relation "measure (\<lambda>(md, inp). 2 * length inp + (if md_curlen md = 128 then 1 else 0))") auto

definition sha512_update :: "sha512_context option \<Rightarrow> bytes option \<Rightarrow> nat \<times> sha512_context option" where
  "sha512_update p inp =
     (case p of None \<Rightarrow> (1, None)
      | Some md \<Rightarrow>
          (case inp of None \<Rightarrow> (1, Some md)
           | Some inp \<Rightarrow>
               if md_curlen md > 128 then (1, Some md) else (0, Some (update_loop md inp))))"

text \<open>\<open>buf[curlen++] = 0\<close> up to position \<open>n\<close>.\<close>

definition pad_to :: "nat \<Rightarrow> sha512_context \<Rightarrow> sha512_context" where
  "pad_to n md =
     (if md_curlen md < n
      then md\<lparr>md_buf := take (md_curlen md) (md_buf md) @ replicate (n - md_curlen md) 0 @ drop n (md_buf md),
              md_curlen := n\<rparr>
      else md)"

definition final_context :: "sha512_context \<Rightarrow> sha512_context" where
  "final_context md =
     (let md = md\<lparr>md_length := md_length md + of_nat (md_curlen md) * 8\<rparr>;
          md = md\<lparr>md_buf := (md_buf md)[md_curlen md := 0x80], md_curlen := md_curlen md + 1\<rparr>;
          md = (if md_curlen md > 112
                then (let md = pad_to 128 md in (sha512_compress md (md_buf md))\<lparr>md_curlen := 0\<rparr>)
                else md);
          md = pad_to 120 md;
          md = md\<lparr>md_buf := take 120 (md_buf md) @ STORE64H (md_length md)\<rparr>
      in sha512_compress md (md_buf md))"

text \<open>The code, the context and the 64 bytes written to \<open>out\<close>, if any; \<open>out\<close> is a flag for a
  pointer that is not null.\<close>

definition sha512_final :: "sha512_context option \<Rightarrow> bool \<Rightarrow> nat \<times> sha512_context option \<times> bytes option" where
  "sha512_final p out =
     (case p of None \<Rightarrow> (1, None, None)
      | Some md \<Rightarrow>
          if \<not> out then (1, Some md, None)
          else if md_curlen md \<ge> 128 then (1, Some md, None)
          else (let md = final_context md in (0, Some md, Some (concat (map STORE64H (md_state md))))))"

text \<open>\<open>ctx\<close>: the context variable, not yet initialized.\<close>

definition sha512 :: "sha512_context \<Rightarrow> bytes option \<Rightarrow> bool \<Rightarrow> nat \<times> bytes option" where
  "sha512 ctx message out =
     (case sha512_init (Some ctx) of (ret, p) \<Rightarrow>
        if ret \<noteq> 0 then (ret, None)
        else (case sha512_update p message of (ret, p) \<Rightarrow>
          if ret \<noteq> 0 then (ret, None)
          else (case sha512_final p out of (ret, p, digest) \<Rightarrow>
            if ret \<noteq> 0 then (ret, None) else (0, digest))))"

end
