(* ===== verification/ShaProofs.thy ===== *)
theory ShaProofs
  imports Sha512
begin

text \<open>
  The hash function against its standard: the rounds with rotating variables and shortened Boolean
  functions compute the standard's rounds, and the calls that take a message in pieces hash its
  padding, however the message is cut.
\<close>

section \<open>The standard\<close>

definition std_Sigma0 :: "u64 \<Rightarrow> u64" where
  "std_Sigma0 x = word_rotr 28 x XOR word_rotr 34 x XOR word_rotr 39 x"

definition std_Sigma1 :: "u64 \<Rightarrow> u64" where
  "std_Sigma1 x = word_rotr 14 x XOR word_rotr 18 x XOR word_rotr 41 x"

definition std_sigma0 :: "u64 \<Rightarrow> u64" where
  "std_sigma0 x = word_rotr 1 x XOR word_rotr 8 x XOR drop_bit 7 x"

definition std_sigma1 :: "u64 \<Rightarrow> u64" where
  "std_sigma1 x = word_rotr 19 x XOR word_rotr 61 x XOR drop_bit 6 x"

definition be_nat :: "bytes \<Rightarrow> nat" where
  "be_nat bs = foldl (\<lambda>n b. 256 * n + unat b) 0 bs"

text \<open>The message schedule by its recurrence.\<close>

fun std_W :: "bytes \<Rightarrow> nat \<Rightarrow> u64" where
  "std_W block t =
     (if t < 16 then of_nat (be_nat (take 8 (drop (8 * t) block)))
      else std_sigma1 (std_W block (t - 2)) + std_W block (t - 7) + std_sigma0 (std_W block (t - 15)) + std_W block (t - 16))"

declare std_W.simps [simp del]

text \<open>One round: the variables \<open>a\<close> to \<open>h\<close> move by one place.\<close>

definition std_round :: "bytes \<Rightarrow> nat \<Rightarrow> u64 list \<Rightarrow> u64 list" where
  "std_round block t v =
     (let a = v ! 0; b = v ! 1; c = v ! 2; d = v ! 3; e = v ! 4; f = v ! 5; g = v ! 6; h = v ! 7;
          t1 = h + std_Sigma1 e + ((e AND f) XOR (NOT e AND g)) + sha512_K ! t + std_W block t;
          t2 = std_Sigma0 a + ((a AND b) XOR (a AND c) XOR (b AND c))
      in [t1 + t2, a, b, c, d + t1, e, f, g])"

definition std_compress :: "u64 list \<Rightarrow> bytes \<Rightarrow> u64 list" where
  "std_compress state block = map2 (+) state (fold (std_round block) [0..<80] state)"

section \<open>Functions\<close>

lemma ROR64c_rotr:
  assumes "n < 64" shows "ROR64c x n = word_rotr n x"
proof (rule bit_word_eqI)
  fix i assume "i < LENGTH(64)"
  then have i: "i < 64" by simp
  show "bit (ROR64c x n) i = bit (word_rotr n x) i"
  proof (cases "n + i < 64")
    case True
    then show ?thesis using i assms by (auto simp: ROR64c_def bit_simps bit_word_rotr_iff add.commute)
  next
    case False
    then have "(i + n) mod 64 = n + i - 64" "i - (64 - n) = n + i - 64" using i assms by (simp_all add: le_mod_geq add.commute)
    then show ?thesis
      using i assms False bit_imp_le_length [of x "n + i"] by (auto simp: ROR64c_def bit_simps bit_word_rotr_iff add.commute)
  qed
qed

lemma Sigma_std: "Sigma0 x = std_Sigma0 x" "Sigma1 x = std_Sigma1 x" "Gamma0 x = std_sigma0 x" "Gamma1 x = std_sigma1 x"
  by (simp_all add: Sigma0_def Sigma1_def Gamma0_def Gamma1_def std_Sigma0_def std_Sigma1_def std_sigma0_def
      std_sigma1_def ROR64c_rotr)

lemma Ch_std: "Ch x y z = (x AND y) XOR (NOT x AND z)"
  by (rule bit_word_eqI) (auto simp: Ch_def bit_simps)

lemma Maj_std: "Maj x y z = (x AND y) XOR (x AND z) XOR (y AND z)"
  by (rule bit_word_eqI) (auto simp: Maj_def bit_simps)

lemma unat_push_or:
  fixes q :: u64 and b :: u8
  assumes "unat q < 2 ^ n" "n \<le> 56"
  shows "unat (push_bit n (ucast b) OR q) = unat q + 2 ^ n * unat b" "unat (push_bit n (ucast b) OR q) < 2 ^ (n + 8)"
proof -
  have u: "unat (ucast b :: u64) = unat b"
    by (simp add: unat_ucast_mod mod_less less_trans [OF unat_u8_less])
  have "(2::nat) ^ n \<le> 2 ^ 56" using assms(2) by (intro power_increasing) simp_all
  then have "unat b * 2 ^ n \<le> 255 * 2 ^ 56" by (intro mult_mono) simp_all
  then have "unat (ucast b :: u64) * 2 ^ n < 2 ^ LENGTH(64)" unfolding u by simp
  from unat_or_push [OF assms(1) this]
  show e: "unat (push_bit n (ucast b) OR q) = unat q + 2 ^ n * unat b" by (simp add: or.commute u)
  have "2 ^ n * unat b \<le> 2 ^ n * 255" by (intro mult_left_mono) simp_all
  moreover have "(2::nat) ^ (n + 8) = 2 ^ n * 255 + 2 ^ n" by (simp add: power_add)
  ultimately show "unat (push_bit n (ucast b) OR q) < 2 ^ (n + 8)" unfolding e using assms(1) by linarith
qed

lemma take_8: "8 \<le> length y \<Longrightarrow> take 8 y = [y ! 0, y ! 1, y ! 2, y ! 3, y ! 4, y ! 5, y ! 6, y ! 7]"
  by (rule nth_equalityI) (auto simp: less_Suc_eq numeral_eq_Suc)

lemma LOAD64H_be: "8 \<le> length y \<Longrightarrow> LOAD64H y = of_nat (be_nat (take 8 y))"
proof -
  assume y: "8 \<le> length y"
  have "unat (ucast (y ! 7) :: u64) = unat (y ! 7)"
    by (simp add: unat_ucast_mod mod_less less_trans [OF unat_u8_less])
  then have 0: "unat (ucast (y ! 7) :: u64) = unat (y ! 7)" "unat (ucast (y ! 7) :: u64) < 2 ^ 8" by simp_all
  have n: "8 + 8 = (16::nat)" "16 + 8 = (24::nat)" "24 + 8 = (32::nat)" "32 + 8 = (40::nat)" "40 + 8 = (48::nat)"
    "48 + 8 = (56::nat)" by simp_all
  note 1 = unat_push_or [OF 0(2), of "y ! 6", unfolded n]
  note 2 = unat_push_or [OF 1(2), of "y ! 5", unfolded n]
  note 3 = unat_push_or [OF 2(2), of "y ! 4", unfolded n]
  note 4 = unat_push_or [OF 3(2), of "y ! 3", unfolded n]
  note 5 = unat_push_or [OF 4(2), of "y ! 2", unfolded n]
  note 6 = unat_push_or [OF 5(2), of "y ! 1", unfolded n]
  note 7 = unat_push_or [OF 6(2), of "y ! 0"]
  have "unat (LOAD64H y) = be_nat (take 8 y)"
    unfolding LOAD64H_def take_8 [OF y] using 0(1) 1(1) 2(1) 3(1) 4(1) 5(1) 6(1) 7(1)
    by (simp add: be_nat_def)
  from arg_cong [OF this, of "of_nat :: nat \<Rightarrow> u64"] show ?thesis by simp
qed

section \<open>Compression\<close>

lemma schedule_upto:
  assumes "128 \<le> length buf" "16 \<le> n"
  shows "length (fold extend_W [16..<n] (load_block buf)) = n \<and>
    (\<forall>t<n. fold extend_W [16..<n] (load_block buf) ! t = std_W buf t)"
  using assms(2)
proof (induction n rule: dec_induct)
  case base
  show ?case using assms(1) by (simp add: load_block_def LOAD64H_be std_W.simps)
next
  case (step n)
  define V where "V = fold extend_W [16..<n] (load_block buf)"
  have W: "length V = n" "\<And>t. t < n \<Longrightarrow> V ! t = std_W buf t" using step.IH by (simp_all add: V_def)
  have "std_W buf n = std_sigma1 (std_W buf (n - 2)) + std_W buf (n - 7) + std_sigma0 (std_W buf (n - 15)) + std_W buf (n - 16)"
    using step.hyps by (subst std_W.simps) simp
  moreover have e: "fold extend_W [16..<Suc n] (load_block buf) = extend_W n V" using step.hyps by (simp add: V_def)
  ultimately show ?case
    unfolding e using W step.hyps by (auto simp: extend_W_def nth_append less_Suc_eq Sigma_std)
qed

lemma schedule_std: "128 \<le> length buf \<Longrightarrow> t < 80 \<Longrightarrow> schedule buf ! t = std_W buf t"
  using schedule_upto [of buf 80] by (simp add: schedule_def)

text \<open>The variables in the order of their roles in round \<open>i\<close>.\<close>

definition roles :: "nat \<Rightarrow> u64 list \<Rightarrow> u64 list" where
  "roles i S = map (\<lambda>k. S ! rnd_index i k) [0, 1, 2, 3, 4, 5, 6, 7]"

lemma RND_std:
  assumes "length S = 8" "W ! t = std_W buf t"
  shows "roles (Suc t) (RND W t S) = std_round buf t (roles t S)" "length (RND W t S) = 8"
proof -
  have "t mod 8 = 0 \<or> t mod 8 = 1 \<or> t mod 8 = 2 \<or> t mod 8 = 3 \<or> t mod 8 = 4 \<or> t mod 8 = 5 \<or> t mod 8 = 6 \<or> t mod 8 = 7"
    by linarith
  then show "roles (Suc t) (RND W t S) = std_round buf t (roles t S)"
    by (elim disjE) (use assms in \<open>simp_all add: roles_def RND_def std_round_def rnd_index_def mod_Suc Let_def Sigma_std
      Ch_std Maj_std ac_simps\<close>)
  show "length (RND W t S) = 8" using assms(1) by (simp add: RND_def Let_def)
qed

lemma rounds_std:
  assumes "128 \<le> length buf" "length S = 8" "n \<le> 80"
  shows "roles n (fold (RND (schedule buf)) [0..<n] S) = fold (std_round buf) [0..<n] S \<and>
    length (fold (RND (schedule buf)) [0..<n] S) = 8"
  using assms(3)
proof (induction n)
  case 0
  have "S = [S ! 0, S ! 1, S ! 2, S ! 3, S ! 4, S ! 5, S ! 6, S ! 7]"
    using assms(2) by (intro nth_equalityI) (auto simp: less_Suc_eq numeral_eq_Suc)
  then show ?case using assms(2) by (simp add: roles_def rnd_index_def)
next
  case (Suc n)
  then show ?case using RND_std [of "fold (RND (schedule buf)) [0..<n] S" "schedule buf" n buf] schedule_std [OF assms(1), of n]
    by simp
qed

lemma compress_std:
  assumes "128 \<le> length buf" "length state = 8"
  shows "compress_state state buf = std_compress state (take 128 buf) \<and> length (compress_state state buf) = 8"
proof -
  let ?S = "fold (RND (schedule buf)) [0..<80] state"
  have b: "std_W (take 128 buf) t = std_W buf t" if "t < 80" for t
    using that
  proof (induction t rule: less_induct)
    case (less t)
    show ?case
    proof (cases "t < 16")
      case True
      then have "take 8 (drop (8 * t) (take 128 buf)) = take 8 (drop (8 * t) buf)"
        by (simp add: take_drop min_def)
      with True show ?thesis by (simp add: std_W.simps [of _ t])
    next
      case False
      then show ?thesis using less by (subst (1 2) std_W.simps) simp
    qed
  qed
  have "fold (std_round (take 128 buf)) [0..<80] state = fold (std_round buf) [0..<80] state"
    by (rule fold_cong) (simp_all add: fun_eq_iff std_round_def b)
  moreover have "?S = [?S ! 0, ?S ! 1, ?S ! 2, ?S ! 3, ?S ! 4, ?S ! 5, ?S ! 6, ?S ! 7]" if "length ?S = 8"
    using that by (intro nth_equalityI) (auto simp: less_Suc_eq numeral_eq_Suc)
  moreover have r: "roles 80 ?S = fold (std_round buf) [0..<80] state" "length ?S = 8"
    using rounds_std [OF assms, of 80] by blast+
  ultimately have "?S = fold (std_round (take 128 buf)) [0..<80] state"
    using r(1) by (simp add: roles_def rnd_index_def)
  then have "compress_state state buf = std_compress state (take 128 buf)"
    by (simp only: compress_state_def std_compress_def)
  moreover have "length (compress_state state buf) = 8" by (simp add: compress_state_def assms(2) r(2))
  ultimately show ?thesis ..
qed

section \<open>Messages in pieces\<close>

fun std_blocks :: "u64 list \<Rightarrow> bytes \<Rightarrow> u64 list" where
  "std_blocks state bs =
     (if length bs < 128 then state else std_blocks (std_compress state (take 128 bs)) (drop 128 bs))"

declare std_blocks.simps [simp del]

definition be_bytes :: "nat \<Rightarrow> nat \<Rightarrow> bytes" where
  "be_bytes k n = rev (le_bytes k n)"

text \<open>The padding of the standard: a bit 1, zeros, and the number of bits in 16 bytes.\<close>

definition std_pad :: "bytes \<Rightarrow> bytes" where
  "std_pad m = m @ [0x80] @ replicate ((239 - length m mod 128) mod 128) 0 @ be_bytes 16 (8 * length m)"

definition std_hash :: "bytes \<Rightarrow> bytes" where
  "std_hash m = concat (map (\<lambda>w. be_bytes 8 (unat w)) (std_blocks initial_state (std_pad m)))"

text \<open>What a context stands for: the message \<open>m\<close>, of which the whole blocks are hashed and the rest
  is in the buffer.\<close>

definition hashes :: "sha512_context \<Rightarrow> bytes \<Rightarrow> bool" where
  "hashes md m \<longleftrightarrow>
     (\<exists>a t. m = a @ t \<and> 128 dvd length a \<and> length t < 128 \<and> md_curlen md = length t \<and> length (md_buf md) = 128 \<and>
        take (length t) (md_buf md) = t \<and> md_length md = of_nat (8 * length a) \<and>
        md_state md = std_blocks initial_state a \<and> length (md_state md) = 8)"

lemma std_blocks_append:
  assumes "128 dvd length a" shows "std_blocks st (a @ b) = std_blocks (std_blocks st a) b"
  using assms
proof (induction st a rule: std_blocks.induct)
  case (1 st a)
  show ?case
  proof (cases "a = []")
    case True
    then show ?thesis by (simp add: std_blocks.simps [of st "[]"])
  next
    case False
    with "1.prems" have l: "128 \<le> length a" by (simp add: dvd_imp_le)
    have "128 dvd length (drop 128 a)" using "1.prems" l by (simp add: dvd_minus_self)
    then show ?thesis
      using "1.IH" l by (simp add: std_blocks.simps [of st a] std_blocks.simps [of st "a @ b"])
  qed
qed

lemma std_blocks_one: "length b = 128 \<Longrightarrow> std_blocks st b = std_compress st b"
  by (simp add: std_blocks.simps [of st b] std_blocks.simps [of _ "[]"])

lemma hashes_init: "length (md_buf ctx) = 128 \<Longrightarrow>
    \<exists>md. sha512_init (Some ctx) = (0, Some md) \<and> hashes md []"
  by (auto simp: sha512_init_def hashes_def std_blocks.simps [of _ "[]"] initial_state_def halves_def)

text \<open>A whole block, from the input or from the buffer.\<close>

lemma block_state:
  assumes "128 dvd length a" "128 \<le> length b" "length st = 8" "st = std_blocks initial_state a"
  shows "compress_state st b = std_blocks initial_state (a @ take 128 b)" "length (compress_state st b) = 8"
    "128 dvd length (a @ take 128 b)"
proof -
  have "compress_state st b = std_compress st (take 128 b)" using compress_std [OF assms(2,3)] by blast
  then show "compress_state st b = std_blocks initial_state (a @ take 128 b)"
    using assms by (simp add: std_blocks_append std_blocks_one)
  show "length (compress_state st b) = 8" using compress_std [OF assms(2,3)] by blast
  show "128 dvd length (a @ take 128 b)" using assms(1,2) by simp
qed

lemma hashesE:
  assumes "hashes md m"
  obtains a t where "m = a @ t" "128 dvd length a" "length t < 128" "md_curlen md = length t" "length (md_buf md) = 128"
    "take (length t) (md_buf md) = t" "md_length md = of_nat (8 * length a)"
    "md_state md = std_blocks initial_state a" "length (md_state md) = 8"
  using assms unfolding hashes_def by blast

lemma hashes_block:
  assumes "hashes md m" "md_curlen md = 0" "128 \<le> length inp"
  shows "hashes ((sha512_compress md inp)\<lparr>md_length := md_length md + 128 * 8\<rparr>) (m @ take 128 inp)"
  using assms(1)
proof (rule hashesE)
  fix a t assume h: "m = a @ t" "128 dvd length a" "length t < 128" "md_curlen md = length t" "length (md_buf md) = 128"
    "take (length t) (md_buf md) = t" "md_length md = of_nat (8 * length a)"
    "md_state md = std_blocks initial_state a" "length (md_state md) = 8"
  with assms(2) have t: "t = []" by simp
  show ?thesis
    using block_state [OF h(2) assms(3) h(9,8)] h t assms(3) unfolding hashes_def
    by (intro exI [of _ "a @ take 128 inp"] exI [of _ "[]"])
      (simp add: sha512_compress_def algebra_simps)
qed

definition fill :: "sha512_context \<Rightarrow> bytes \<Rightarrow> sha512_context" where
  "fill md x = md\<lparr>md_buf := take (md_curlen md) (md_buf md) @ x @ drop (md_curlen md + length x) (md_buf md),
     md_curlen := md_curlen md + length x\<rparr>"

lemma hashes_fill:
  assumes "hashes md m" "md_curlen md + length x < 128"
  shows "hashes (fill md x) (m @ x)"
  using assms(1)
proof (rule hashesE)
  fix a t assume h: "m = a @ t" "128 dvd length a" "length t < 128" "md_curlen md = length t" "length (md_buf md) = 128"
    "take (length t) (md_buf md) = t" "md_length md = of_nat (8 * length a)"
    "md_state md = std_blocks initial_state a" "length (md_state md) = 8"
  show ?thesis
    using h assms(2) unfolding hashes_def by (intro exI [of _ a] exI [of _ "t @ x"]) (simp add: fill_def)
qed

lemma hashes_full:
  assumes "hashes md m" "md_curlen md + length x = 128"
  shows "hashes ((sha512_compress (fill md x) (md_buf (fill md x)))\<lparr>md_length := md_length md + 8 * 128, md_curlen := 0\<rparr>)
    (m @ x)"
  using assms(1)
proof (rule hashesE)
  fix a t assume h: "m = a @ t" "128 dvd length a" "length t < 128" "md_curlen md = length t" "length (md_buf md) = 128"
    "take (length t) (md_buf md) = t" "md_length md = of_nat (8 * length a)"
    "md_state md = std_blocks initial_state a" "length (md_state md) = 8"
  have buf: "md_buf (fill md x) = t @ x" using h assms(2) by (simp add: fill_def)
  have l: "128 \<le> length (t @ x)" using h(4) assms(2) by simp
  have "take 128 (t @ x) = t @ x" using h(4) assms(2) by simp
  then show ?thesis
    using block_state [OF h(2) l h(9,8)] h assms(2) unfolding hashes_def
    by (intro exI [of _ "a @ t @ x"] exI [of _ "[]"])
      (simp add: sha512_compress_def buf algebra_simps; simp add: fill_def)
qed

declare update_loop.simps [simp del]

lemma update_loop_hashes: "hashes md m \<Longrightarrow> hashes (update_loop md inp) (m @ inp)"
proof (induction md inp arbitrary: m rule: update_loop.induct)
  case (1 md inp)
  have c: "md_curlen md < 128" using "1.prems" by (auto elim: hashesE)
  let ?n = "min (length inp) (128 - md_curlen md)"
  consider (empty) "inp = []" | (block) "inp \<noteq> []" "md_curlen md = 0" "128 \<le> length inp"
    | (piece) "inp \<noteq> []" "\<not> (md_curlen md = 0 \<and> 128 \<le> length inp)"
    by (cases "inp = []"; cases "md_curlen md = 0"; cases "128 \<le> length inp"; simp)
  then show ?case
  proof cases
    case empty
    then show ?thesis using "1.prems" by (subst update_loop.simps) simp
  next
    case block
    have "hashes (update_loop ((sha512_compress md inp)\<lparr>md_length := md_length md + 128 * 8\<rparr>) (drop 128 inp))
        ((m @ take 128 inp) @ drop 128 inp)"
      using block c by (intro "1.IH"(1) hashes_block "1.prems") simp_all
    then show ?thesis using block by (subst update_loop.simps) simp
  next
    case piece
    let ?x = "take ?n inp" and ?md = "fill md (take ?n inp)"
    let ?next = "if md_curlen ?md = 128
      then (sha512_compress ?md (md_buf ?md))\<lparr>md_length := md_length ?md + 8 * 128, md_curlen := 0\<rparr> else ?md"
    have x: "length ?x = ?n" by simp
    have e: "?md = md\<lparr>md_buf := take (md_curlen md) (md_buf md) @ take ?n inp @ drop (md_curlen md + ?n) (md_buf md),
        md_curlen := md_curlen md + ?n\<rparr>" by (simp add: fill_def)
    have "hashes ?next (m @ ?x)"
    proof (cases "md_curlen md + ?n = 128")
      case True
      have "md_length ?md = md_length md" "md_curlen ?md = 128" using True x by (simp_all add: fill_def)
      then show ?thesis using hashes_full [OF "1.prems", of ?x] True x by simp
    next
      case False
      then have "md_curlen md + ?n < 128" using c by simp
      moreover have "md_curlen ?md \<noteq> 128" using False x by (simp add: fill_def)
      ultimately show ?thesis using hashes_fill [OF "1.prems", of ?x] x by simp
    qed
    then have "hashes (update_loop ?next (drop ?n inp)) ((m @ ?x) @ drop ?n inp)"
      unfolding e by (intro "1.IH"(2) refl) (use piece c in auto)
    moreover have "update_loop md inp = update_loop ?next (drop ?n inp)"
      using piece c unfolding e by (subst update_loop.simps) (auto simp: Let_def)
    ultimately show ?thesis by simp
  qed
qed

section \<open>The digest\<close>

lemma le_bytes_map: "le_bytes k v = map (\<lambda>i. of_nat (v div 256 ^ i mod 256)) [0..<k]"
proof (induction k arbitrary: v)
  case (Suc k)
  have "[0..<Suc k] = 0 # map Suc [0..<k]" by (simp add: map_Suc_upt upt_conv_Cons del: upt_Suc)
  then show ?case by (simp only: le_bytes.simps Suc.IH list.map map_map) (simp add: div_mult2_eq)
qed simp

lemma upt_8: "[0..<8] = [0, 1, 2, 3, 4, 5, 6, 7 :: nat]"
  by (simp add: upt_rec)

lemma be_bytes_8: "be_bytes 8 (unat x) = STORE64H x"
proof -
  have "ucast (drop_bit k x AND 255) = (of_nat (unat x div 2 ^ k mod 256) :: u8)" for k
    using unat_and_mask_mod [of "drop_bit k x" 8]
    by (simp add: word_unat_eq_iff unat_ucast_mod unat_of_nat mask_eq_exp_minus_1 unat_drop_bit_div)
  then show ?thesis
    unfolding be_bytes_def STORE64H_def le_bytes_map upt_8 by simp
qed

lemma be_bytes_16:
  assumes "n < 2 ^ 64" shows "be_bytes 16 n = replicate 8 0 @ STORE64H (of_nat n)"
proof -
  have "le_bytes (8 + 8) n = le_bytes 8 n @ le_bytes 8 (n div 256 ^ 8)" by (rule le_bytes_add)
  moreover have "n div 256 ^ 8 = 0" using assms by simp
  moreover have "le_bytes k 0 = replicate k 0" for k by (induction k) simp_all
  moreover have "unat (of_nat n :: u64) = n" using assms by (simp add: unat_of_nat)
  ultimately show ?thesis using be_bytes_8 [of "of_nat n"] unfolding be_bytes_def by (simp only: rev_append rev_replicate) simp
qed

lemma length_STORE64H [simp]: "length (STORE64H x) = 8"
  by (simp add: STORE64H_def)

text \<open>Hashing the end of the buffer, one block or two.\<close>

lemma final_state:
  assumes "hashes md m" "8 * length m < 2 ^ 64"
  shows "md_state (final_context md) = std_blocks initial_state (std_pad m)"
  using assms(1)
proof (rule hashesE)
  fix a t assume h: "m = a @ t" "128 dvd length a" "length t < 128" "md_curlen md = length t" "length (md_buf md) = 128"
    "take (length t) (md_buf md) = t" "md_length md = of_nat (8 * length a)"
    "md_state md = std_blocks initial_state a" "length (md_state md) = 8"
  let ?c = "length t" and ?bits = "of_nat (8 * length m) :: u64"
  have bits: "md_length md + of_nat (md_curlen md) * 8 = ?bits" using h by (simp add: algebra_simps)
  have lm: "length m mod 128 = ?c" using h(1-3) by (auto simp: mod_add_eq elim!: dvdE)
  have pad: "std_pad m = a @ t @ [0x80] @ replicate ((239 - ?c) mod 128) 0 @ replicate 8 0 @ STORE64H ?bits"
    using be_bytes_16 [of "8 * length m"] assms(2) unfolding std_pad_def lm by (simp add: h(1))
  define b1 where "b1 = (md_buf md)[?c := 0x80]"
  have b1: "length b1 = 128" "take (Suc ?c) b1 = t @ [0x80]"
    using h(3,5,6) by (simp_all add: b1_def take_Suc_conv_app_nth)
  show ?thesis
  proof (cases "?c < 112")
    case True
    let ?b = "t @ [0x80] @ replicate (119 - ?c) 0 @ STORE64H ?bits"
    have l: "length ?b = 128" using True by simp
    have "md_state (final_context md) = compress_state (md_state md) ?b"
      using True h(4) b1 bits
      by (simp add: final_context_def Let_def pad_to_def sha512_compress_def b1_def [symmetric] take_Cons')
    moreover have "(239 - ?c) mod 128 = 111 - ?c" using True by (simp add: le_mod_geq)
    moreover have "replicate (111 - ?c) 0 @ replicate 8 0 = (replicate (119 - ?c) 0 :: bytes)"
      using True by (simp flip: replicate_add)
    then have "?b = t @ [0x80] @ replicate (111 - ?c) 0 @ replicate 8 0 @ STORE64H ?bits"
      by (metis append.assoc)
    ultimately show ?thesis
      using block_state(1) [OF h(2) _ h(9,8), of ?b] l unfolding pad by (simp only: take_all order_refl)
  next
    case False
    let ?b = "t @ [0x80] @ replicate (127 - ?c) 0" and ?b' = "replicate 120 0 @ STORE64H ?bits"
    have l: "length ?b = 128" using False h(3) by simp
    have full: "?c = 127 \<Longrightarrow> b1 = t @ [0x80]" using b1 take_all [of b1 "Suc ?c"] by simp
    have eq: "md_state (final_context md) = compress_state (compress_state (md_state md) ?b) ?b'"
      using False h(3,4) b1 bits full
      by (simp add: final_context_def Let_def pad_to_def sha512_compress_def b1_def [symmetric])
    have "(239 - ?c) mod 128 = 239 - ?c" using False by simp
    moreover have "replicate (239 - ?c) 0 @ replicate 8 0 = replicate (127 - ?c) 0 @ (replicate 120 0 :: bytes)"
      using False h(3) by (simp flip: replicate_add)
    ultimately have pad': "std_pad m = a @ ?b @ ?b'" unfolding pad by (metis append.assoc)
    show ?thesis
      using block_state [OF h(2) _ h(9,8), of ?b] block_state(1) [of "a @ ?b" ?b'] l h(2) eq unfolding pad' by simp
  qed
qed

lemma length_std_blocks: "length st = 8 \<Longrightarrow> length (std_blocks st bs) = 8"
proof (induction st bs rule: std_blocks.induct)
  case (1 st bs)
  then show ?case
    using compress_std [of "take 128 bs" st] by (subst std_blocks.simps) auto
qed

text \<open>The calls \<open>sha512_update\<close> for the pieces \<open>ps\<close>: the code of the last one that is not 0, and the context.\<close>

definition sha512_updates :: "sha512_context \<Rightarrow> bytes list \<Rightarrow> nat \<times> sha512_context option" where
  "sha512_updates md ps =
     fold (\<lambda>p (err, md). case sha512_update md (Some p) of (ret, md) \<Rightarrow> (if ret \<noteq> 0 then ret else err, md)) ps (0, Some md)"

lemma update_hashes: "hashes md m \<Longrightarrow> sha512_update (Some md) (Some p) = (0, Some (update_loop md p))"
  by (auto simp: sha512_update_def elim: hashesE)

lemma updates_hash: "hashes md m \<Longrightarrow> \<exists>md'. sha512_updates md ps = (0, Some md') \<and> hashes md' (m @ concat ps)"
proof (induction ps arbitrary: md m)
  case (Cons p ps)
  from Cons.IH [OF update_loop_hashes [OF Cons.prems, of p]] show ?case
    by (simp add: sha512_updates_def update_hashes [OF Cons.prems])
qed (simp add: sha512_updates_def)

lemma final_hashes:
  assumes "hashes md m" "8 * length m < 2 ^ 64"
  shows "\<exists>md'. sha512_final (Some md) True = (0, Some md', Some (std_hash m))"
proof -
  have "md_curlen md < 128" using assms(1) by (auto elim: hashesE)
  then show ?thesis
    using final_state [OF assms] by (simp add: sha512_final_def Let_def std_hash_def be_bytes_8 comp_def)
qed

lemma sha512_value:
  assumes "length (md_buf ctx) = 128" "length m < 2 ^ 61"
  shows "sha512 ctx (Some m) True = (0, Some (std_hash m))"
proof -
  obtain md where md: "sha512_init (Some ctx) = (0, Some md)" "hashes md []" using hashes_init [OF assms(1)] by blast
  have h: "hashes (update_loop md m) m" using update_loop_hashes [OF md(2), of m] by simp
  then show ?thesis using final_hashes [OF h] update_hashes [OF md(2)] assms(2) md(1) by (auto simp: sha512_def)
qed

section \<open>The promises of the hash functions\<close>

definition sample_context :: sha512_context where
  "sample_context = \<lparr>md_length = 7, md_state = [], md_curlen = 500, md_buf = replicate 128 1\<rparr>"

text \<open>C26: Hashing in one call refines the standard: for every message of less than 2^61 bytes, and whatever
  the context held before, the 64 bytes are the digest of the padded message.\<close>

theorem sha512_correct:
  assumes "length (md_buf ctx) = 128" "length m < 2 ^ 61"
  shows "sha512 ctx (Some m) True = (0, Some (std_hash m))"
  using sha512_value [OF assms] .

theorem sha512_correct_witness:
  "sha512 sample_context (Some [0x61, 0x62, 0x63]) True = (0, Some (std_hash [0x61, 0x62, 0x63]))"
  by (rule sha512_correct) (simp_all add: sample_context_def)

text \<open>C28: However the message is cut into pieces, empty and unaligned ones included, the calls for the
  pieces succeed and yield the digest of the whole message.\<close>

theorem sha512_any_pieces:
  assumes "length (md_buf ctx) = 128" "length (concat ps) < 2 ^ 61"
  shows "\<exists>md md' md''. sha512_init (Some ctx) = (0, Some md) \<and> sha512_updates md ps = (0, Some md') \<and>
    sha512_final (Some md') True = (0, Some md'', Some (std_hash (concat ps)))"
proof -
  obtain md where md: "sha512_init (Some ctx) = (0, Some md)" "hashes md []" using hashes_init [OF assms(1)] by blast
  obtain md' where u: "sha512_updates md ps = (0, Some md')" "hashes md' (concat ps)"
    using updates_hash [OF md(2), of ps] by auto
  show ?thesis using final_hashes [OF u(2)] assms(2) md(1) u(1) by auto
qed

theorem sha512_any_pieces_witness:
  "\<exists>md md' md''. sha512_init (Some sample_context) = (0, Some md) \<and>
    sha512_updates md [[1, 2], [], [3]] = (0, Some md') \<and>
    sha512_final (Some md') True = (0, Some md'', Some (std_hash [1, 2, 3]))"
  using sha512_any_pieces [of sample_context "[[1, 2], [], [3]]"] by (simp add: sample_context_def)

end
