(* ===== verification/Sc.thy ===== *)
theory Sc
  imports Fe
begin

text \<open>
  Arithmetic of scalars, modulo the order of the group (\<open>src/lib/ed25519/sc.c\<close>): a scalar of up to
  512 bits is an array of 24 signed 64-bit limbs, the locals \<open>s0\<close> to \<open>s23\<close>, of weight 21 bits.  The
  two loads are those of \<open>fe.c\<close>, of which \<open>sc.c\<close> has a copy.
\<close>

section \<open>Reading\<close>

text \<open>\<open>2097151 & (load_4(s + at) >> k)\<close>, and the unmasked top limb.\<close>

definition limb_3 :: "bytes \<Rightarrow> nat \<Rightarrow> nat \<Rightarrow> i64" where
  "limb_3 s at k = 2097151 AND drop_bit k (load_3 s at)"

definition limb_4 :: "bytes \<Rightarrow> nat \<Rightarrow> nat \<Rightarrow> i64" where
  "limb_4 s at k = 2097151 AND drop_bit k (load_4 s at)"

definition reduce_loads :: "bytes \<Rightarrow> wide" where
  "reduce_loads s =
     [limb_3 s 0 0, limb_4 s 2 5, limb_3 s 5 2, limb_4 s 7 7, limb_4 s 10 4, limb_3 s 13 1,
      limb_4 s 15 6, limb_3 s 18 3, limb_3 s 21 0, limb_4 s 23 5, limb_3 s 26 2, limb_4 s 28 7,
      limb_4 s 31 4, limb_3 s 34 1, limb_4 s 36 6, limb_3 s 39 3, limb_3 s 42 0, limb_4 s 44 5,
      limb_3 s 47 2, limb_4 s 49 7, limb_4 s 52 4, limb_3 s 55 1, limb_4 s 57 6, drop_bit 3 (load_4 s 60)]"

definition scalar_loads :: "bytes \<Rightarrow> wide" where
  "scalar_loads a =
     [limb_3 a 0 0, limb_4 a 2 5, limb_3 a 5 2, limb_4 a 7 7, limb_4 a 10 4, limb_3 a 13 1,
      limb_4 a 15 6, limb_3 a 18 3, limb_3 a 21 0, limb_4 a 23 5, limb_3 a 26 2, drop_bit 7 (load_4 a 28)]"

section \<open>Reduction\<close>

text \<open>\<open>carry = (si + (1 << 20)) >> 21; s(i+1) += carry; si -= carry << 21\<close>, and without the rounding.\<close>

definition sc_carry :: "nat \<Rightarrow> i64 \<Rightarrow> wide \<Rightarrow> wide" where
  "sc_carry i carry s = (let s = s[i + 1 := s ! (i + 1) + carry] in s[i := s ! i - push_bit 21 carry])"

definition sc_round_at :: "nat \<Rightarrow> wide \<Rightarrow> wide" where
  "sc_round_at i s = sc_carry i (signed_drop_bit 21 (s ! i + push_bit 20 1)) s"

definition sc_floor_at :: "nat \<Rightarrow> wide \<Rightarrow> wide" where
  "sc_floor_at i s = sc_carry i (signed_drop_bit 21 (s ! i)) s"

text \<open>\<open>s(k-12) += sk * 666643; ...; sk = 0\<close>: the limb \<open>k\<close> is taken off, as 2^252 is minus the constant
  of the six coefficients.\<close>

definition sc_fold_at :: "nat \<Rightarrow> wide \<Rightarrow> wide" where
  "sc_fold_at k s =
     (let x = s ! k; a = k - 12
      in s[a := s ! a + x * 666643,
           a + 1 := s ! (a + 1) + x * 470296,
           a + 2 := s ! (a + 2) + x * 654183,
           a + 3 := s ! (a + 3) - x * 997805,
           a + 4 := s ! (a + 4) + x * 136657,
           a + 5 := s ! (a + 5) - x * 683901,
           k := 0])"

text \<open>The two halves of the reduction: to twelve limbs, and to the canonical ones.\<close>

definition sc_short :: "wide \<Rightarrow> wide" where
  "sc_short s =
     (let s = fold sc_fold_at [23, 22, 21, 20, 19, 18] s;
          s = fold sc_round_at [6, 8, 10, 12, 14, 16, 7, 9, 11, 13, 15] s;
          s = fold sc_fold_at [17, 16, 15, 14, 13, 12] s
      in fold sc_round_at [0, 2, 4, 6, 8, 10, 1, 3, 5, 7, 9, 11] s)"

definition sc_canonical :: "wide \<Rightarrow> wide" where
  "sc_canonical s =
     (let s = sc_fold_at 12 s;
          s = fold sc_floor_at [0, 1, 2, 3, 4, 5, 6, 7, 8, 9, 10, 11] s;
          s = sc_fold_at 12 s
      in fold sc_floor_at [0, 1, 2, 3, 4, 5, 6, 7, 8, 9, 10] s)"

section \<open>Writing\<close>

definition sc_byte :: "nat \<Rightarrow> i64 \<Rightarrow> u8" where
  "sc_byte k x = ucast (signed_drop_bit k x)"

definition sc_join :: "nat \<Rightarrow> i64 \<Rightarrow> nat \<Rightarrow> i64 \<Rightarrow> u8" where
  "sc_join k x l y = ucast (signed_drop_bit k x OR push_bit l y)"

definition sc_pack :: "wide \<Rightarrow> bytes" where
  "sc_pack s =
     [sc_byte 0 (s ! 0), sc_byte 8 (s ! 0), sc_join 16 (s ! 0) 5 (s ! 1),
      sc_byte 3 (s ! 1), sc_byte 11 (s ! 1), sc_join 19 (s ! 1) 2 (s ! 2),
      sc_byte 6 (s ! 2), sc_join 14 (s ! 2) 7 (s ! 3),
      sc_byte 1 (s ! 3), sc_byte 9 (s ! 3), sc_join 17 (s ! 3) 4 (s ! 4),
      sc_byte 4 (s ! 4), sc_byte 12 (s ! 4), sc_join 20 (s ! 4) 1 (s ! 5),
      sc_byte 7 (s ! 5), sc_join 15 (s ! 5) 6 (s ! 6),
      sc_byte 2 (s ! 6), sc_byte 10 (s ! 6), sc_join 18 (s ! 6) 3 (s ! 7),
      sc_byte 5 (s ! 7), sc_byte 13 (s ! 7),
      sc_byte 0 (s ! 8), sc_byte 8 (s ! 8), sc_join 16 (s ! 8) 5 (s ! 9),
      sc_byte 3 (s ! 9), sc_byte 11 (s ! 9), sc_join 19 (s ! 9) 2 (s ! 10),
      sc_byte 6 (s ! 10), sc_join 14 (s ! 10) 7 (s ! 11),
      sc_byte 1 (s ! 11), sc_byte 9 (s ! 11), sc_byte 17 (s ! 11)]"

section \<open>The two operations\<close>

text \<open>\<open>sc_reduce\<close> overwrites the first 32 of its 64 bytes; the value of the function is those.\<close>

definition sc_reduce :: "bytes \<Rightarrow> bytes" where
  "sc_reduce s = sc_pack (sc_canonical (sc_short (reduce_loads s)))"

text \<open>\<open>sk = ck + a0 * bk + ... + ak * b0\<close> for \<open>k\<close> from 0 to 23; there is no \<open>ck\<close> from 12 on, and no
  product in \<open>s23 = 0\<close>.\<close>

definition muladd_sum :: "wide \<Rightarrow> wide \<Rightarrow> wide \<Rightarrow> nat \<Rightarrow> i64" where
  "muladd_sum a b c k =
     foldl (\<lambda>s i. s + a ! i * b ! (k - i)) (if k < 12 then c ! k else 0) [k - 11..<min (k + 1) 12]"

definition muladd_sums :: "wide \<Rightarrow> wide \<Rightarrow> wide \<Rightarrow> wide" where
  "muladd_sums a b c = map (muladd_sum a b c) [0..<24]"

definition sc_muladd :: "bytes \<Rightarrow> bytes \<Rightarrow> bytes \<Rightarrow> bytes" where
  "sc_muladd a b c =
     (let s = muladd_sums (scalar_loads a) (scalar_loads b) (scalar_loads c);
          s = fold sc_round_at [0, 2, 4, 6, 8, 10, 12, 14, 16, 18, 20, 22,
                1, 3, 5, 7, 9, 11, 13, 15, 17, 19, 21] s
      in sc_pack (sc_canonical (sc_short s)))"

end
