(* ===== verification/ScSpec.thy ===== *)
theory ScSpec
  imports Sc FeLoad
begin

text \<open>
  The reduction of scalars: every step keeps the value of the limbs modulo the order of the group and
  no 64-bit operation overflows.  The bounds of the limbs are computed along the straight-line code by
  functions on lists of bounds, and checked by evaluation.
\<close>

section \<open>Values and bounds\<close>

text \<open>The order of the group.\<close>

definition sc_l :: int where
  "sc_l = 2 ^ 252 + 27742317777372353535851937790883648493"

definition sc_val :: "wide \<Rightarrow> int" where
  "sc_val s = (\<Sum>i<24. 2 ^ (21 * i) * sint (s ! i))"

lemma sc_val_upd:
  assumes "i < 24" "length s = 24"
  shows "sc_val (s[i := x]) = sc_val s + 2 ^ (21 * i) * (sint x - sint (s ! i))"
proof -
  have "2 ^ (21 * j) * sint (s[i := x] ! j) =
      2 ^ (21 * j) * sint (s ! j) + (if j = i then 2 ^ (21 * i) * (sint x - sint (s ! i)) else 0)" if "j < 24" for j
    using that assms by (simp add: nth_list_update algebra_simps)
  then have "sc_val (s[i := x]) =
      (\<Sum>j<24. 2 ^ (21 * j) * sint (s ! j) + (if j = i then 2 ^ (21 * i) * (sint x - sint (s ! i)) else 0))"
    unfolding sc_val_def by (intro sum.cong refl) simp
  then show ?thesis using assms(1) by (simp add: sum.distrib sc_val_def)
qed

text \<open>A step of the code, and what it does to the bounds.\<close>

datatype sc_step = Fold nat | Round nat | Floor nat

fun step_run :: "sc_step \<Rightarrow> wide \<Rightarrow> wide" where
  "step_run (Fold k) s = sc_fold_at k s"
| "step_run (Round i) s = sc_round_at i s"
| "step_run (Floor i) s = sc_floor_at i s"

fun step_bound :: "sc_step \<Rightarrow> int list \<Rightarrow> int list" where
  "step_bound (Fold k) b =
     (let x = b ! k; a = k - 12
      in b[a := b ! a + x * 666643, a + 1 := b ! (a + 1) + x * 470296, a + 2 := b ! (a + 2) + x * 654183,
           a + 3 := b ! (a + 3) + x * 997805, a + 4 := b ! (a + 4) + x * 136657, a + 5 := b ! (a + 5) + x * 683901,
           k := 0])"
| "step_bound (Round i) b = b[i + 1 := b ! (i + 1) + (b ! i + 2 ^ 20) div 2 ^ 21, i := 2 ^ 20]"
| "step_bound (Floor i) b = b[i + 1 := b ! (i + 1) + b ! i div 2 ^ 21 + 1, i := 2 ^ 21 - 1]"

fun step_ok :: "sc_step \<Rightarrow> int list \<Rightarrow> bool" where
  "step_ok (Fold k) b =
     (12 \<le> k \<and> k < 24 \<and> b ! k < 2 ^ 43 \<and>
      list_all (\<lambda>j. step_bound (Fold k) b ! (k - 12 + j) < 2 ^ 63) [0, 1, 2, 3, 4, 5])"
| "step_ok (Round i) b = (i < 23 \<and> b ! i < 2 ^ 62 \<and> step_bound (Round i) b ! (i + 1) < 2 ^ 63)"
| "step_ok (Floor i) b = (i < 23 \<and> b ! i < 2 ^ 62 \<and> step_bound (Floor i) b ! (i + 1) < 2 ^ 63)"

lemma length_step_bound [simp]: "length (step_bound op b) = length b"
  by (cases op) (simp_all add: Let_def)

lemma scaled_64:
  assumes "\<bar>sint (x :: i64)\<bar> \<le> X" "X < 2 ^ 43" "c < 2 ^ 20"
  shows "sint (x * of_nat c) = sint x * int c" "\<bar>sint x * int c\<bar> \<le> X * int c"
proof -
  show 1: "\<bar>sint x * int c\<bar> \<le> X * int c"
    unfolding abs_mult abs_of_nat using assms(1) by (rule mult_right_mono) simp
  have "X * int c \<le> 2 ^ 43 * int c" using assms(2) by (intro mult_right_mono) simp_all
  also have "\<dots> < 2 ^ 43 * 2 ^ 20" using assms(3) by simp
  finally have "\<bar>int c * sint x\<bar> < 2 ^ 63" using 1 by (simp add: mult.commute)
  from sint_scale_64 [OF this] show "sint (x * of_nat c) = sint x * int c" by (simp add: mult.commute)
qed

lemma added_64:
  assumes "\<bar>sint (x :: i64)\<bar> \<le> X" "X < 2 ^ 43" "\<bar>sint y\<bar> \<le> Y" "c < 2 ^ 20" "Y + X * int c < 2 ^ 63"
  shows "sint (y + x * of_nat c) = sint y + sint x * int c \<and> \<bar>sint y + sint x * int c\<bar> \<le> Y + X * int c"
    and "sint (y - x * of_nat c) = sint y - sint x * int c \<and> \<bar>sint y - sint x * int c\<bar> \<le> Y + X * int c"
  using scaled_64 [OF assms(1,2,4)] assms(3,5) sint_add_64 [of y "x * of_nat c"] sint_sub_64 [of y "x * of_nat c"]
  by linarith+

text \<open>A carry of value \<open>y\<close> moves \<open>y\<close> up and keeps the sum.\<close>

lemma length_sc_carry [simp]: "length (sc_carry i c s) = length s"
  by (simp add: sc_carry_def)

lemma sc_carry_eq: "sc_carry i c s = s[i + 1 := s ! (i + 1) + c, i := s ! i - push_bit 21 c]"
  by (simp add: sc_carry_def)

lemma sc_carry_spec:
  assumes "bounded b s" "length b = 24" "i < 23"
    "sint (s ! i - push_bit 21 c) = sint (s ! i) - 2 ^ 21 * y" "sint (s ! (i + 1) + c) = sint (s ! (i + 1)) + y"
    "\<bar>sint (s ! i) - 2 ^ 21 * y\<bar> \<le> X" "\<bar>sint (s ! (i + 1)) + y\<bar> \<le> Y"
  shows "bounded (b[i + 1 := Y, i := X]) (sc_carry i c s) \<and> sc_val (sc_carry i c s) = sc_val s"
proof
  have len: "length s = 24" using bounded_length [OF assms(1)] assms(2) by simp
  have w: "(2::int) ^ (21 * (i + 1)) = 2097152 * 2 ^ (21 * i)" by (simp add: power_add)
  show "bounded (b[i + 1 := Y, i := X]) (sc_carry i c s)"
    unfolding sc_carry_eq by (intro bounded_upd assms(1)) (use assms(4-7) in simp_all)
  have "sc_val (sc_carry i c s) = sc_val s + 2 ^ (21 * (i + 1)) * (sint (s ! (i + 1) + c) - sint (s ! (i + 1))) +
      2 ^ (21 * i) * (sint (s ! i - push_bit 21 c) - sint (s ! i))"
    using assms(3) len unfolding sc_carry_eq by (simp add: sc_val_upd)
  also have "\<dots> = sc_val s" unfolding assms(4,5) w by (simp add: algebra_simps)
  finally show "sc_val (sc_carry i c s) = sc_val s" .
qed

lemma sc_round_spec:
  assumes "bounded b s" "length b = 24" "step_ok (Round i) b"
  shows "bounded (step_bound (Round i) b) (sc_round_at i s) \<and> sc_val (sc_round_at i s) = sc_val s"
proof -
  define c where "c = signed_drop_bit 21 (s ! i + push_bit 20 1)"
  have i: "i < 23" "b ! i < 2 ^ 63 - 2 ^ 31" using assms(3) by simp_all
  have h: "\<bar>sint (s ! i)\<bar> \<le> b ! i" "\<bar>sint (s ! (i + 1))\<bar> \<le> b ! (i + 1)"
    using bounded_nth [OF assms(1)] i assms(2) by simp_all
  have "b ! (i + 1) + (b ! i + 2 ^ 20) div 2 ^ 21 < 2 ^ 63"
    using assms(2,3) i(1) by simp
  then have up: "b ! (i + 1) + int 1 * ((b ! i + 2 ^ (21 - 1)) div 2 ^ 21) < 2 ^ 63" by simp
  obtain y where y: "sint (s ! i - push_bit 21 c) = sint (s ! i) - 2 ^ 21 * y"
      "sint (s ! (i + 1) + c * of_nat 1) = sint (s ! (i + 1)) + int 1 * y"
      "\<bar>sint (s ! i - push_bit 21 c)\<bar> \<le> 2 ^ (21 - 1)"
      "\<bar>sint (s ! (i + 1) + c * of_nat 1)\<bar> \<le> b ! (i + 1) + int 1 * ((b ! i + 2 ^ (21 - 1)) div 2 ^ 21)"
    using carry_step [OF h _ _ i(2) up] unfolding c_def by auto
  have e: "sint (s ! (i + 1) + c) = sint (s ! (i + 1)) + y" using y(2) by simp
  have X: "\<bar>sint (s ! i) - 2 ^ 21 * y\<bar> \<le> 2 ^ 20" using y(3) unfolding y(1) by simp
  have Y: "\<bar>sint (s ! (i + 1)) + y\<bar> \<le> b ! (i + 1) + (b ! i + 2 ^ 20) div 2 ^ 21"
    using y(4) unfolding y(2) by simp
  have at: "sc_round_at i s = sc_carry i c s" by (simp only: sc_round_at_def c_def)
  show ?thesis
    using sc_carry_spec [OF assms(1,2) i(1) y(1) e X Y] by (simp only: at step_bound.simps)
qed

lemma div_abs_bound: "\<bar>x\<bar> \<le> (B::int) \<Longrightarrow> \<bar>x div 2097152\<bar> \<le> B div 2097152 + 1"
  using mult_div_mod_eq [of 2097152 x] mult_div_mod_eq [of 2097152 B] pos_mod_bound [of 2097152 x] pos_mod_sign [of 2097152 x]
    pos_mod_bound [of 2097152 B] pos_mod_sign [of 2097152 B]
  by linarith

lemma sc_floor_spec:
  assumes "bounded b s" "length b = 24" "step_ok (Floor i) b"
  shows "bounded (step_bound (Floor i) b) (sc_floor_at i s) \<and> sc_val (sc_floor_at i s) = sc_val s"
    and "sint (sc_floor_at i s ! i) = sint (s ! i) mod 2 ^ 21"
proof -
  define x where "x = sint (s ! i)"
  define y where "y = x div 2 ^ 21"
  define c where "c = signed_drop_bit 21 (s ! i)"
  have i: "i < 23" "b ! i < 2 ^ 62" using assms(3) by simp_all
  have len: "length s = 24" using bounded_length [OF assms(1)] assms(2) by simp
  have h: "\<bar>x\<bar> \<le> b ! i" "\<bar>sint (s ! (i + 1))\<bar> \<le> b ! (i + 1)"
    using bounded_nth [OF assms(1)] i assms(2) by (simp_all add: x_def)
  have up: "b ! (i + 1) + b ! i div 2 ^ 21 + 1 < 2 ^ 63"
    using assms(2,3) i(1) by simp
  have r: "0 \<le> x - 2 ^ 21 * y" "x - 2 ^ 21 * y \<le> 2 ^ 21 - 1" "x - 2 ^ 21 * y = x mod 2 ^ 21"
    unfolding y_def minus_mult_div_eq_mod using pos_mod_bound [of "2 ^ 21" x] by simp_all
  have y: "\<bar>y\<bar> \<le> b ! i div 2 ^ 21 + 1" using div_abs_bound [OF h(1)] unfolding y_def by simp
  have c: "sint c = y" by (simp add: c_def sint_shift_down y_def x_def)
  have p: "sint (push_bit 21 c) = 2 ^ 21 * y"
    unfolding push_bit_scale using sint_scale_64 [of "2 ^ 21" c] r h(1) i(2) by (simp add: c)
  have d: "sint (s ! i - push_bit 21 c) = sint (s ! i) - 2 ^ 21 * y"
    using r sint_sub_64 [of "s ! i" "push_bit 21 c"] by (simp add: p x_def)
  have e: "sint (s ! (i + 1) + c) = sint (s ! (i + 1)) + y" "\<bar>sint (s ! (i + 1)) + y\<bar> \<le> b ! (i + 1) + b ! i div 2 ^ 21 + 1"
    using y h(2) up sint_add_64 [of "s ! (i + 1)" c] by (simp_all add: c)
  have X: "\<bar>sint (s ! i) - 2 ^ 21 * y\<bar> \<le> 2 ^ 21 - 1" using r unfolding x_def by linarith
  have at: "sc_floor_at i s = sc_carry i c s" by (simp only: sc_floor_at_def c_def)
  show "bounded (step_bound (Floor i) b) (sc_floor_at i s) \<and> sc_val (sc_floor_at i s) = sc_val s"
    using sc_carry_spec [OF assms(1,2) i(1) d e(1) X e(2)] by (simp only: at step_bound.simps)
  show "sint (sc_floor_at i s ! i) = sint (s ! i) mod 2 ^ 21"
    using i(1) len d r(3) unfolding at by (simp add: sc_carry_eq x_def)
qed

lemma fold_weight:
  assumes "12 \<le> k"
  shows "(2::int) ^ (21 * (k - 12 + j)) = 2 ^ (21 * (k - 12)) * 2 ^ (21 * j)"
    "(2::int) ^ (21 * k) = 2 ^ (21 * (k - 12)) * 2 ^ 252"
proof -
  have "21 * k = 21 * (k - 12) + 252" using assms by simp
  then show "(2::int) ^ (21 * k) = 2 ^ (21 * (k - 12)) * 2 ^ 252" by (simp only: power_add)
qed (simp add: power_add [symmetric] algebra_simps)

lemma sc_fold_spec:
  assumes "bounded b s" "length b = 24" "step_ok (Fold k) b"
  shows "bounded (step_bound (Fold k) b) (sc_fold_at k s) \<and>
    sc_val (sc_fold_at k s) = sc_val s - 2 ^ (21 * (k - 12)) * sint (s ! k) * sc_l"
proof
  define a x where "a = k - 12" and "x = s ! k"
  have k: "12 \<le> k" "k < 24" "b ! k < 2 ^ 43" using assms(3) unfolding step_ok.simps by blast+
  then have ka: "k = a + 12" "a < 12" by (simp_all add: a_def)
  have len: "length s = 24" using bounded_length [OF assms(1)] assms(2) by simp
  have h: "\<bar>sint (s ! j)\<bar> \<le> b ! j" if "j < 24" for j using bounded_nth [OF assms(1)] that assms(2) by simp
  have at: "sc_fold_at k s =
      s[a := s ! a + x * of_nat 666643, a + 1 := s ! (a + 1) + x * of_nat 470296, a + 2 := s ! (a + 2) + x * of_nat 654183,
        a + 3 := s ! (a + 3) - x * of_nat 997805, a + 4 := s ! (a + 4) + x * of_nat 136657,
        a + 5 := s ! (a + 5) - x * of_nat 683901, k := 0]"
    by (simp add: sc_fold_at_def Let_def a_def x_def)
  have bd: "step_bound (Fold k) b =
      b[a := b ! a + b ! k * int 666643, a + 1 := b ! (a + 1) + b ! k * int 470296, a + 2 := b ! (a + 2) + b ! k * int 654183,
        a + 3 := b ! (a + 3) + b ! k * int 997805, a + 4 := b ! (a + 4) + b ! k * int 136657,
        a + 5 := b ! (a + 5) + b ! k * int 683901, k := 0]"
    by (simp add: Let_def a_def)
  have up: "b ! a + b ! k * int 666643 < 2 ^ 63" "b ! (a + 1) + b ! k * int 470296 < 2 ^ 63"
      "b ! (a + 2) + b ! k * int 654183 < 2 ^ 63" "b ! (a + 3) + b ! k * int 997805 < 2 ^ 63"
      "b ! (a + 4) + b ! k * int 136657 < 2 ^ 63" "b ! (a + 5) + b ! k * int 683901 < 2 ^ 63"
    using assms(2,3) ka unfolding step_ok.simps bd by (simp_all add: nth_list_update)
  have x: "\<bar>sint x\<bar> \<le> b ! k" using h k(2) by (simp add: x_def)
  note u0 = added_64(1) [OF x k(3) h [of a] _ up(1)] and u1 = added_64(1) [OF x k(3) h [of "a + 1"] _ up(2)]
    and u2 = added_64(1) [OF x k(3) h [of "a + 2"] _ up(3)] and u3 = added_64(2) [OF x k(3) h [of "a + 3"] _ up(4)]
    and u4 = added_64(1) [OF x k(3) h [of "a + 4"] _ up(5)] and u5 = added_64(2) [OF x k(3) h [of "a + 5"] _ up(6)]
  note u = u0 u1 u2 u3 u4 u5
  show "bounded (step_bound (Fold k) b) (sc_fold_at k s)"
    unfolding at bd by (intro bounded_upd assms(1)) (use u ka in simp_all)
  have "sc_val (sc_fold_at k s) = sc_val s + 2 ^ (21 * a) * (sint x * int 666643) + 2 ^ (21 * (a + 1)) * (sint x * int 470296) +
      2 ^ (21 * (a + 2)) * (sint x * int 654183) - 2 ^ (21 * (a + 3)) * (sint x * int 997805) +
      2 ^ (21 * (a + 4)) * (sint x * int 136657) - 2 ^ (21 * (a + 5)) * (sint x * int 683901) - 2 ^ (21 * k) * sint x"
    using u ka len unfolding at by (simp add: sc_val_upd nth_list_update x_def)
  then show "sc_val (sc_fold_at k s) = sc_val s - 2 ^ (21 * (k - 12)) * sint (s ! k) * sc_l"
    unfolding fold_weight(2) [OF k(1)] x_def [symmetric] a_def [symmetric] sc_l_def by (simp add: power_add algebra_simps)
qed

declare step_bound.simps [simp del] step_ok.simps [simp del]

end
