(* ===== verification/ScProofs.thy ===== *)
theory ScProofs
  imports ScSpec
begin

text \<open>
  The straight-line code of the reduction as a whole: from 24 limbs to the canonical twelve, and from
  those to the bytes.
\<close>

section \<open>Chains of steps\<close>

fun steps_ok :: "sc_step list \<Rightarrow> int list \<Rightarrow> bool" where
  "steps_ok [] b = True"
| "steps_ok (op # ops) b = (step_ok op b \<and> steps_ok ops (step_bound op b))"

lemma step_spec:
  assumes "bounded b s" "length b = 24" "step_ok op b"
  shows "bounded (step_bound op b) (step_run op s) \<and> sc_val (step_run op s) mod sc_l = sc_val s mod sc_l"
proof (cases op)
  case (Fold k)
  have "(sc_val s - 2 ^ (21 * (k - 12)) * sint (s ! k) * sc_l) mod sc_l = sc_val s mod sc_l"
    by (simp add: mod_diff_eq [symmetric, of "sc_val s"])
  then show ?thesis using sc_fold_spec [of b s k] assms Fold by simp
qed (use assms sc_round_spec sc_floor_spec(1) in auto)

lemma steps_spec:
  assumes "bounded b s" "length b = 24" "steps_ok ops b"
  shows "bounded (fold step_bound ops b) (fold step_run ops s) \<and> sc_val (fold step_run ops s) mod sc_l = sc_val s mod sc_l"
  using assms
proof (induction ops arbitrary: b s)
  case (Cons op ops)
  from step_spec [OF Cons.prems(1,2)] Cons.prems(3) Cons.IH [of "step_bound op b" "step_run op s"] Cons.prems(2)
  show ?case by auto
qed simp

definition short_steps :: "sc_step list" where
  "short_steps = map Fold [23, 22, 21, 20, 19, 18] @ map Round [6, 8, 10, 12, 14, 16, 7, 9, 11, 13, 15] @
     map Fold [17, 16, 15, 14, 13, 12] @ map Round [0, 2, 4, 6, 8, 10, 1, 3, 5, 7, 9, 11]"

lemma sc_short_steps: "sc_short s = fold step_run short_steps s"
  by (simp add: sc_short_def short_steps_def Let_def)

definition round_steps :: "sc_step list" where
  "round_steps = map Round [0, 2, 4, 6, 8, 10, 12, 14, 16, 18, 20, 22, 1, 3, 5, 7, 9, 11, 13, 15, 17, 19, 21]"

definition short_bound :: "int list" where
  "short_bound = [2 ^ 36, 2 ^ 36, 2 ^ 36, 2 ^ 36, 2 ^ 36, 2 ^ 36, 2 ^ 36, 2 ^ 36, 2 ^ 36, 2 ^ 36, 2 ^ 36, 2 ^ 20, 2 ^ 36,
     0, 0, 0, 0, 0, 0, 0, 0, 0, 0, 0]"

text \<open>From limbs below 2^30, or products below 2^54 after a round of carries, to twelve short limbs.\<close>

lemma reduce_chain:
  "steps_ok short_steps (replicate 24 (2 ^ 30))"
  "list_all2 (\<le>) (fold step_bound short_steps (replicate 24 (2 ^ 30))) short_bound"
  by code_simp+

lemma muladd_chain:
  "steps_ok (round_steps @ short_steps) (replicate 23 (2 ^ 54) @ [0])"
  "list_all2 (\<le>) (fold step_bound (round_steps @ short_steps) (replicate 23 (2 ^ 54) @ [0])) short_bound"
  by code_simp+

section \<open>Digits\<close>

text \<open>The value of a list of limbs of 21 bits.\<close>

fun hval :: "int list \<Rightarrow> int" where
  "hval [] = 0"
| "hval (x # xs) = x + 2 ^ 21 * hval xs"

definition digit :: "int \<Rightarrow> bool" where
  "digit x \<longleftrightarrow> 0 \<le> x \<and> x < 2 ^ 21"

lemma hval_sum: "hval xs = (\<Sum>i<length xs. 2 ^ (21 * i) * xs ! i)"
proof (induction xs)
  case (Cons x xs)
  show ?case unfolding hval.simps Cons.IH
    by (simp add: sum.lessThan_Suc_shift sum_distrib_left power_add power_mult mult.assoc del: sum.lessThan_Suc)
qed simp

lemma hval_append: "hval (xs @ ys) = hval xs + 2 ^ (21 * length xs) * hval ys"
  by (induction xs) (simp_all add: power_add algebra_simps)

lemma hval_zeros [simp]: "hval (replicate n 0) = 0"
  by (induction n) simp_all

lemma hval_range: "\<forall>x \<in> set xs. digit x \<Longrightarrow> 0 \<le> hval xs \<and> hval xs < 2 ^ (21 * length xs)"
proof (induction xs)
  case (Cons x xs)
  then have "0 \<le> hval xs" "hval xs + 1 \<le> 2 ^ (21 * length xs)" "0 \<le> x" "x < 2 ^ 21" by (auto simp: digit_def)
  moreover from this have "2 ^ 21 * (hval xs + 1) \<le> 2 ^ 21 * 2 ^ (21 * length xs)" by (intro mult_left_mono) simp_all
  ultimately show ?case by (simp add: power_add)
qed simp

lemma hval_div:
  assumes "\<forall>x \<in> set (take i xs). digit x" "i \<le> length xs"
  shows "hval xs div 2 ^ (21 * i) = hval (drop i xs)"
proof -
  have "hval xs = hval (take i xs) + 2 ^ (21 * i) * hval (drop i xs)"
    using hval_append [of "take i xs" "drop i xs"] assms(2) by simp
  moreover have "0 \<le> hval (take i xs)" "hval (take i xs) < 2 ^ (21 * i)"
    using hval_range [OF assms(1)] assms(2) by simp_all
  ultimately show ?thesis by (simp add: div_pos_pos_trivial)
qed

lemma sc_val_hval: "length s = 24 \<Longrightarrow> sc_val s = hval (map sint s)"
  by (simp add: hval_sum sc_val_def)

section \<open>The canonical limbs\<close>

lemma steps_ok_append [simp]: "steps_ok (xs @ ys) b = (steps_ok xs b \<and> steps_ok ys (fold step_bound xs b))"
  by (induction xs arbitrary: b) simp_all

lemma length_fold_bound [simp]: "length (fold step_bound ops b) = length b"
  by (induction ops arbitrary: b) simp_all

lemma floors_exact:
  assumes "bounded b s" "length b = 24" "steps_ok (map Floor [0..<n]) b" "n \<le> 23"
  defines "t \<equiv> fold sc_floor_at [0..<n] s"
  shows "bounded (fold step_bound (map Floor [0..<n]) b) t \<and> sc_val t = sc_val s \<and> (\<forall>x \<in> set (take n (map sint t)). digit x)"
  using assms(3,4) unfolding t_def
proof (induction n)
  case (Suc n)
  let ?b = "fold step_bound (map Floor [0..<n]) b" and ?t = "fold sc_floor_at [0..<n] s"
  have ih: "bounded ?b ?t" "sc_val ?t = sc_val s" "\<forall>x \<in> set (take n (map sint ?t)). digit x"
    using Suc by simp_all
  have ok: "step_ok (Floor n) ?b" using Suc.prems(1) by simp
  have lb: "length ?b = 24" using assms(2) by simp
  have lt: "length ?t = 24" using bounded_length [OF ih(1)] lb by simp
  note f = sc_floor_spec [OF ih(1) lb ok]
  have "take n (sc_floor_at n ?t) = take n ?t"
    by (simp add: sc_floor_at_def sc_carry_eq)
  then have "take (Suc n) (sc_floor_at n ?t) = take n ?t @ [sc_floor_at n ?t ! n]"
    using lt Suc.prems(2) by (simp add: take_Suc_conv_app_nth sc_floor_at_def)
  then have "\<forall>x \<in> set (take (Suc n) (map sint (sc_floor_at n ?t))). digit x"
    using ih(3) f(2) by (simp add: take_map digit_def)
  then show ?case using f(1) ih(2) by simp
qed (use assms(1) in simp)

lemma bounded_hval: "bounded b s \<Longrightarrow> \<bar>hval (map sint s)\<bar> \<le> hval b"
  unfolding bounded_def by (induction rule: list_all2_induct) auto

lemma bounded_zeros:
  assumes "bounded b s" "drop k b = replicate m 0"
  shows "map sint (drop k s) = replicate m 0"
proof (rule nth_equalityI)
  have l: "length s = length b" "length b - k = m"
    using bounded_length [OF assms(1)] arg_cong [OF assms(2), of length] by simp_all
  then show "length (map sint (drop k s)) = length (replicate m (0::int))" by simp
  fix i assume "i < length (map sint (drop k s))"
  then have i: "k + i < length b" "i < m" using l by simp_all
  then have "b ! (k + i) = 0" using arg_cong [OF assms(2), of "\<lambda>xs. xs ! i"] by simp
  then show "map sint (drop k s) ! i = replicate m 0 ! i"
    using bounded_nth [OF assms(1) i(1)] i l by simp
qed

definition folded_bound :: "int list" where
  "folded_bound = step_bound (Fold 12) short_bound"

definition floored_bound :: "int list" where
  "floored_bound = fold step_bound (map Floor [0..<12]) folded_bound"

definition final_bound :: "int list" where
  "final_bound = step_bound (Fold 12) floored_bound"

lemma canonical_bounds:
  "step_ok (Fold 12) short_bound" "steps_ok (map Floor [0..<12]) folded_bound" "step_ok (Fold 12) floored_bound"
  "steps_ok (map Floor [0..<11]) final_bound" "hval folded_bound < 2 ^ 252" "drop 13 floored_bound = replicate 11 0"
  "drop 12 (fold step_bound (map Floor [0..<11]) final_bound) = replicate 12 0"
  "length short_bound = 24" "length folded_bound = 24" "length floored_bound = 24" "length final_bound = 24"
  by code_simp+

lemma upt_11: "[0..<11] = [0, 1, 2, 3, 4, 5, 6, 7, 8, 9, 10]" "[0..<12] = [0, 1, 2, 3, 4, 5, 6, 7, 8, 9, 10, 11]"
  by (simp_all add: upt_rec)

lemma quotient_minus_one:
  fixes r q V l :: int
  assumes "V = r + 2 ^ 252 * q" "0 \<le> r" "r < 2 ^ 252" "\<bar>V\<bar> < 2 ^ 252" "2 ^ 252 < l"
  shows "0 \<le> V - q * l \<and> V - q * l < l"
proof -
  define K :: int where "K = 2 ^ 252"
  have K: "V = r + K * q" "r < K" "\<bar>V\<bar> < K" "0 < K" using assms(1,3,4) by (simp_all add: K_def)
  have "q = 0 \<or> q = - 1"
  proof (rule ccontr)
    assume "\<not> (q = 0 \<or> q = - 1)"
    then have "1 \<le> q \<or> q \<le> - 2" by linarith
    then have "K * 1 \<le> K * q \<or> K * q \<le> K * (- 2)" 
      using mult_left_mono [of 1 q K] mult_left_mono [of q "- 2" K] K(4) by auto
    then show False using K(1-3) assms(2) by linarith
  qed
  then show ?thesis using assms by auto
qed

lemma sc_canonical_value:
  assumes "bounded short_bound s"
  defines "u \<equiv> sc_canonical s"
  shows "sc_val u = sc_val s mod sc_l \<and> length u = 24 \<and> (\<forall>x \<in> set (take 11 (map sint u)). digit x) \<and>
    map sint (drop 12 u) = replicate 12 0"
proof -
  define A where "A = sc_fold_at 12 s"
  define t where "t = fold sc_floor_at [0..<12] A"
  have A: "bounded folded_bound A" "sc_val A mod sc_l = sc_val s mod sc_l"
    using step_spec [OF assms(1) canonical_bounds(8,1)] by (simp_all add: A_def folded_bound_def)
  have t: "bounded floored_bound t" "sc_val t = sc_val A" "\<forall>x \<in> set (take 12 (map sint t)). digit x"
    using floors_exact [OF A(1) canonical_bounds(9,2)] by (simp_all add: t_def floored_bound_def)
  have f: "bounded final_bound (sc_fold_at 12 t)" "sc_val (sc_fold_at 12 t) = sc_val A - sint (t ! 12) * sc_l"
    using sc_fold_spec [OF t(1) canonical_bounds(10,3)] t(2) by (simp_all add: final_bound_def)
  have u: "u = fold sc_floor_at [0..<11] (sc_fold_at 12 t)"
    by (simp add: u_def sc_canonical_def A_def t_def upt_11)
  have e: "bounded (fold step_bound (map Floor [0..<11]) final_bound) u" "sc_val u = sc_val A - sint (t ! 12) * sc_l"
      "\<forall>x \<in> set (take 11 (map sint u)). digit x"
    using floors_exact [OF f(1) canonical_bounds(11,4)] f(2) by (simp_all add: u)
  have lA: "length A = 24" and lt: "length t = 24" and lu: "length u = 24"
    using bounded_length [OF A(1)] bounded_length [OF t(1)] bounded_length [OF e(1)] canonical_bounds(9-11) by simp_all
  have "map sint t = take 12 (map sint t) @ map sint t ! 12 # drop (Suc 12) (map sint t)"
    using lt by (intro id_take_nth_drop) simp
  from arg_cong [OF this, of hval] have "hval (map sint t) = hval (take 12 (map sint t)) + 2 ^ 252 * sint (t ! 12)"
    using bounded_zeros [OF t(1) canonical_bounds(6)] lt unfolding hval_append by (simp add: drop_map)
  then have "sc_val A = hval (take 12 (map sint t)) + 2 ^ 252 * sint (t ! 12)"
    using t(2) lt by (simp add: sc_val_hval)
  moreover have "0 \<le> hval (take 12 (map sint t)) \<and> hval (take 12 (map sint t)) < 2 ^ 252"
    using hval_range [OF t(3)] lt by simp
  moreover have "\<bar>sc_val A\<bar> < 2 ^ 252"
    using bounded_hval [OF A(1)] canonical_bounds(5) lA by (simp add: sc_val_hval)
  ultimately have r: "0 \<le> sc_val u \<and> sc_val u < sc_l"
    using quotient_minus_one [of "sc_val A" "hval (take 12 (map sint t))" "sint (t ! 12)" sc_l] e(2)
    by (simp add: sc_l_def)
  have "sc_val u mod sc_l = sc_val s mod sc_l"
    using A(2) by (simp add: e(2) mod_diff_eq [symmetric, of "sc_val A"])
  then have "sc_val u = sc_val s mod sc_l" using r by simp
  then show ?thesis using e lu bounded_zeros [OF e(1) canonical_bounds(7)] by simp
qed

section \<open>Bytes\<close>

text \<open>The limbs of the number \<open>N\<close>, as words.\<close>

definition limb_of :: "nat \<Rightarrow> nat \<Rightarrow> i64" where
  "limb_of N i = of_nat (take_bit 21 (drop_bit (21 * i) N))"

definition top_of :: "nat \<Rightarrow> nat \<Rightarrow> i64" where
  "top_of N i = of_nat (drop_bit (21 * i) N)"

definition byte_of :: "nat \<Rightarrow> nat \<Rightarrow> u8" where
  "byte_of N k = of_nat (drop_bit k N)"

lemma bit_limb_of: "bit (limb_of N i) n \<longleftrightarrow> n < 21 \<and> bit N (21 * i + n)"
  by (auto simp: limb_of_def bit_simps)

lemma bit_top_of: "bit (top_of N i) n \<longleftrightarrow> n < 64 \<and> bit N (21 * i + n)"
  by (auto simp: top_of_def bit_simps)

lemma bit_byte_of: "bit (byte_of N k) n \<longleftrightarrow> n < 8 \<and> bit N (k + n)"
  by (auto simp: byte_of_def bit_simps)

lemma sc_byte_limb: "k \<le> 13 \<Longrightarrow> sc_byte k (limb_of N i) = byte_of N (21 * i + k)"
  by (rule bit_word_eqI) (auto simp: sc_byte_def bit_simps bit_limb_of bit_byte_of ac_simps)

lemma sc_byte_top: "k \<le> 20 \<Longrightarrow> sc_byte k (top_of N i) = byte_of N (21 * i + k)"
  by (rule bit_word_eqI) (auto simp: sc_byte_def bit_simps bit_top_of bit_byte_of ac_simps)

lemma sc_join_limb:
  assumes "k + l = 21" "l < 8" "\<And>n. n < 21 \<Longrightarrow> bit y n = bit N (21 * Suc i + n)"
  shows "sc_join k (limb_of N i) l y = byte_of N (21 * i + k)"
proof (rule bit_word_eqI)
  fix n assume "n < LENGTH(8)"
  then have n: "n < 8" by simp
  show "bit (sc_join k (limb_of N i) l y) n = bit (byte_of N (21 * i + k)) n"
  proof (cases "n < l")
    case True
    then show ?thesis using n assms(1) by (auto simp: sc_join_def bit_simps bit_limb_of bit_byte_of ac_simps)
  next
    case False
    have e: "21 * Suc i + (n - l) = 21 * i + k + n" using False assms(1) by simp
    have "bit y (n - l) = bit N (21 * i + k + n)" using assms(3) [of "n - l"] n unfolding e by simp
    then show ?thesis using False n assms(1) by (auto simp: sc_join_def bit_simps bit_limb_of bit_byte_of)
  qed
qed

lemma le_bytes_of: "le_bytes k N = map (\<lambda>j. byte_of N (8 * j)) [0..<k]"
proof (induction k arbitrary: N)
  case (Suc k)
  have "byte_of (N div 256) (8 * j) = byte_of N (8 * Suc j)" for j
    using drop_bit_drop_bit [of "8 * j" 8 N] by (simp add: byte_of_def drop_bit_eq_div add.commute)
  then have "map (\<lambda>j. byte_of N (8 * j)) [0..<Suc k] = byte_of N 0 # le_bytes k (N div 256)"
    unfolding Suc.IH by (subst upt_conv_Cons) (simp_all add: map_Suc_upt [symmetric] comp_def del: upt_Suc)
  moreover have "(of_nat (N mod 256) :: u8) = of_nat N" by (simp add: word_unat_eq_iff unat_of_nat)
  ultimately show ?case by (simp add: byte_of_def)
qed simp

lemma sc_pack_correct:
  assumes "\<And>i. i < 11 \<Longrightarrow> s ! i = limb_of N i" "s ! 11 = top_of N 11"
  shows "sc_pack s = le_bytes 32 N"
proof -
  have j: "sc_join k (limb_of N i) l (limb_of N (Suc i)) = byte_of N (21 * i + k)" if "k + l = 21" "l < 8" for k l i
    using that by (intro sc_join_limb) (auto simp: bit_limb_of)
  have t: "sc_join 14 (limb_of N 10) 7 (top_of N 11) = byte_of N (21 * 10 + 14)"
    by (rule sc_join_limb) (auto simp: bit_top_of)
  show ?thesis
    using j [of 16 5 0] j [of 19 2 1, unfolded Suc_1] j [of 14 7 2] j [of 17 4 3] j [of 20 1 4] j [of 15 6 5] j [of 18 3 6] j [of 16 5 8]
      j [of 19 2 9] t
    by (simp add: sc_pack_def assms sc_byte_limb sc_byte_top le_bytes_of upt_rec)
qed

lemma canonical_limbs:
  assumes "sc_val u = int N" "length u = 24" "\<forall>x \<in> set (take 11 (map sint u)). digit x"
    "map sint (drop 12 u) = replicate 12 0"
  shows "i < 11 \<Longrightarrow> u ! i = limb_of N i" "u ! 11 = top_of N 11"
proof -
  have v: "hval (drop i (map sint u)) = int (N div 2 ^ (21 * i))" if "i \<le> 11" for i
  proof -
    have "set (take i (map sint u)) \<subseteq> set (take 11 (map sint u))" using that by (rule set_take_subset_set_take)
    then have "hval (map sint u) div 2 ^ (21 * i) = hval (drop i (map sint u))"
      using assms(2,3) that by (intro hval_div) auto
    then show ?thesis using assms(1,2) by (simp add: sc_val_hval zdiv_int)
  qed
  have w: "u ! i = of_nat n" if "sint (u ! i) = int n" for i n
  proof -
    have "of_int (sint (u ! i)) = u ! i" by simp
    then show ?thesis using that by simp
  qed
  show "u ! i = limb_of N i" if i: "i < 11"
  proof -
    have "sint (u ! i) \<in> set (take 11 (map sint u))"
      using i assms(2) by (auto simp: in_set_conv_nth intro!: exI [of _ i])
    then have "digit (sint (u ! i))" using assms(3) by blast
    moreover have "hval (drop i (map sint u)) = sint (u ! i) + 2 ^ 21 * hval (drop (Suc i) (map sint u))"
      using i assms(2) by (simp add: Cons_nth_drop_Suc [symmetric])
    ultimately have "sint (u ! i) = hval (drop i (map sint u)) mod 2 ^ 21" by (simp add: digit_def)
    then have "sint (u ! i) = int (N div 2 ^ (21 * i) mod 2 ^ 21)" using v [of i] i by (simp add: zmod_int)
    then show ?thesis unfolding limb_of_def take_bit_eq_mod drop_bit_eq_div by (rule w)
  qed
  have "sint (u ! 11) # map sint (drop 12 u) = drop 11 (map sint u)"
    using assms(2) Cons_nth_drop_Suc [of 11 "map sint u"] by (simp add: drop_map)
  from arg_cong [OF this, of hval]
  have "hval (drop 11 (map sint u)) = sint (u ! 11) + 2 ^ 21 * hval (map sint (drop 12 u))" by simp
  then have "sint (u ! 11) = int (N div 2 ^ (21 * 11))" using v [of 11] assms(4) by simp
  then show "u ! 11 = top_of N 11" unfolding top_of_def drop_bit_eq_div by (rule w)
qed

text \<open>Twelve short limbs are written as the canonical bytes of their value.\<close>

lemma sc_write:
  assumes "bounded short_bound s"
  shows "sc_pack (sc_canonical s) = le_bytes 32 (nat (sc_val s mod sc_l))"
proof -
  have "0 < sc_l" by (simp add: sc_l_def)
  then have "sc_val (sc_canonical s) = int (nat (sc_val s mod sc_l))"
    using sc_canonical_value [OF assms] by simp
  then show ?thesis
    using sc_canonical_value [OF assms] canonical_limbs [of "sc_canonical s"] by (intro sc_pack_correct) blast+
qed

lemma sc_short_write:
  assumes "bounded b s" "length b = 24" "steps_ok (ops @ short_steps) b"
    "list_all2 (\<le>) (fold step_bound (ops @ short_steps) b) short_bound"
  shows "sc_pack (sc_canonical (sc_short (fold step_run ops s))) = le_bytes 32 (nat (sc_val s mod sc_l))"
proof -
  have s: "sc_short (fold step_run ops s) = fold step_run (ops @ short_steps) s" by (simp add: sc_short_steps)
  from steps_spec [OF assms(1-3)] have "bounded short_bound (fold step_run (ops @ short_steps) s)"
    "sc_val (fold step_run (ops @ short_steps) s) mod sc_l = sc_val s mod sc_l"
    using bounded_mono [OF _ assms(4)] by blast+
  then show ?thesis unfolding s by (simp only: sc_write)
qed

end
