(* ===== verification/ScClaims.thy ===== *)
theory ScClaims
  imports ScProofs
begin

text \<open>
  What the scalar arithmetic (\<open>src/lib/ed25519/sc.c\<close>) promises: the bytes are read as the digits of
  their number, and both operations write the canonical bytes of the result modulo the order of the
  group.
\<close>

section \<open>Reading\<close>

lemma le_nat_less_pow: "length s \<le> j \<Longrightarrow> le_nat s < 2 ^ (8 * j)"
proof -
  assume "length s \<le> j"
  then have "256 ^ length s \<le> (256::nat) ^ j" by (intro power_increasing) simp_all
  from less_le_trans [OF le_nat_less this] show ?thesis by (simp add: power_mult)
qed

lemma le_nat_take: "le_nat (take j s) = take_bit (8 * j) (le_nat s)"
proof (cases "j \<le> length s")
  case True
  have "(2::nat) ^ (8 * j) = 256 ^ j" by (simp add: power_mult)
  then show ?thesis
    using le_nat_take_drop [of s j] le_nat_less [of "take j s"] True by (simp add: take_bit_eq_mod)
next
  case False
  then have "le_nat s < 2 ^ (8 * j)" by (intro le_nat_less_pow) simp
  then show ?thesis using False by (simp add: take_bit_nat_eq_self)
qed

lemma le_nat_drop: "le_nat (drop j s) = drop_bit (8 * j) (le_nat s)"
proof (cases "j \<le> length s")
  case True
  have "(2::nat) ^ (8 * j) = 256 ^ j" by (simp add: power_mult)
  then show ?thesis
    using le_nat_take_drop [of s j] le_nat_less [of "take j s"] True by (simp add: drop_bit_eq_div)
next
  case False
  then have "le_nat s < 2 ^ (8 * j)" by (intro le_nat_less_pow) simp
  then show ?thesis using False by (simp add: drop_bit_eq_div)
qed

lemma load_bits:
  "i + 3 \<le> length s \<Longrightarrow> bit (load_3 s i) n \<longleftrightarrow> n < 24 \<and> bit (le_nat s) (8 * i + n)"
  "i + 4 \<le> length s \<Longrightarrow> bit (load_4 s i) n \<longleftrightarrow> n < 32 \<and> bit (le_nat s) (8 * i + n)"
proof -
  have b: "bit w n \<longleftrightarrow> bit (unat w) n" for w :: i64 by (simp add: bit_simps)
  show "i + 3 \<le> length s \<Longrightarrow> bit (load_3 s i) n \<longleftrightarrow> n < 24 \<and> bit (le_nat s) (8 * i + n)"
    by (simp add: b unat_load_3 le_nat_take le_nat_drop bit_simps)
  show "i + 4 \<le> length s \<Longrightarrow> bit (load_4 s i) n \<longleftrightarrow> n < 32 \<and> bit (le_nat s) (8 * i + n)"
    by (simp add: b unat_load_4 le_nat_take le_nat_drop bit_simps)
qed

lemma mask_21: "2097151 = (mask 21 :: i64)"
  by (simp add: mask_eq_exp_minus_1)

lemma limb_loads:
  "at + 3 \<le> length s \<Longrightarrow> k \<le> 3 \<Longrightarrow> 8 * at + k = 21 * i \<Longrightarrow> limb_3 s at k = limb_of (le_nat s) i"
  "at + 4 \<le> length s \<Longrightarrow> k \<le> 11 \<Longrightarrow> 8 * at + k = 21 * i \<Longrightarrow> limb_4 s at k = limb_of (le_nat s) i"
  unfolding limb_3_def limb_4_def mask_21
  by (rule bit_word_eqI; auto simp: bit_simps load_bits bit_limb_of simp flip: add.assoc)+

lemma top_load:
  assumes "length s = at + 4" "8 * at + k = 21 * i"
  shows "drop_bit k (load_4 s at) = top_of (le_nat s) i"
proof (rule bit_word_eqI)
  have l: "bit (le_nat s) m \<Longrightarrow> m < 8 * length s" for m
    using le_nat_less [of s] bit_imp_possible_bit [of "le_nat s" m]
    by (metis (no_types, lifting) le_nat_take bit_take_bit_iff order_refl take_all)
  fix n assume n: "n < LENGTH(64)"
  show "bit (drop_bit k (load_4 s at)) n = bit (top_of (le_nat s) i) n"
    using assms n l [of "8 * at + (k + n)"] by (auto simp: bit_simps load_bits bit_top_of simp flip: add.assoc)
qed

lemma upt_23: "[0..<23] = [0, 1, 2, 3, 4, 5, 6, 7, 8, 9, 10, 11, 12, 13, 14, 15, 16, 17, 18, 19, 20, 21, 22]"
  by (simp add: upt_rec)

lemma reduce_loads_eq:
  assumes "length s = 64"
  shows "reduce_loads s = map (limb_of (le_nat s)) [0..<23] @ [top_of (le_nat s) 23]"
  using assms by (simp add: reduce_loads_def upt_23 limb_loads top_load)

lemma scalar_loads_eq:
  assumes "length a = 32"
  shows "scalar_loads a = map (limb_of (le_nat a)) [0..<11] @ [top_of (le_nat a) 11]"
  using assms by (simp add: scalar_loads_def upt_11 limb_loads top_load)

lemma sint_of_nat: "n < 2 ^ 32 \<Longrightarrow> sint (of_nat n :: i64) = int n"
  by (subst sint_small) (simp_all add: unat_of_nat)

lemma sint_limb_of: "sint (limb_of N i) = int (N div 2 ^ (21 * i) mod 2 ^ 21)"
  unfolding limb_of_def by (subst sint_of_nat) (simp_all add: take_bit_eq_mod drop_bit_eq_div less_trans [OF mod_less_divisor])

lemma sint_top_of: "N < 2 ^ (21 * i + 32) \<Longrightarrow> sint (top_of N i) = int (N div 2 ^ (21 * i))"
  unfolding top_of_def by (subst sint_of_nat) (simp_all add: drop_bit_eq_div less_mult_imp_div_less power_add mult.commute)

lemma hval_digits: "hval (map (\<lambda>i. int (N div 2 ^ (21 * i) mod 2 ^ 21)) [0..<n] @ [int (N div 2 ^ (21 * n))]) = int N"
proof (induction n)
  case (Suc n)
  have "int (N div 2 ^ (21 * n)) = int (N div 2 ^ (21 * n) mod 2 ^ 21) + 2 ^ 21 * int (N div 2 ^ (21 * Suc n))"
  proof -
    have "N div 2 ^ (21 * Suc n) = N div 2 ^ (21 * n) div 2 ^ 21" by (simp add: power_add div_mult2_eq mult.commute)
    then have "N div 2 ^ (21 * n) = N div 2 ^ (21 * n) mod 2 ^ 21 + 2 ^ 21 * (N div 2 ^ (21 * Suc n))"
      by (simp only: mod_mult_div_eq)
    then show ?thesis by (metis of_nat_add of_nat_mult of_nat_numeral of_nat_power)
  qed
  then show ?case using Suc.IH by (simp add: hval_append)
qed simp

lemma hval_loads:
  assumes "N < 2 ^ (21 * n + 32)"
  shows "hval (map sint (map (limb_of N) [0..<n] @ [top_of N n])) = int N"
  using hval_digits [of N n] assms by (simp add: comp_def sint_limb_of sint_top_of)

lemma loads_bounded:
  assumes "N < 2 ^ (21 * n + m)" "21 \<le> m" "m \<le> 32"
  shows "x \<in> set (map (limb_of N) [0..<n] @ [top_of N n]) \<Longrightarrow> \<bar>sint x\<bar> \<le> 2 ^ m"
proof -
  have c: "\<bar>int v\<bar> \<le> 2 ^ m" if "v < 2 ^ m" for v
    using that of_nat_less_iff [of v "2 ^ m", where 'a = int] by simp
  have "\<bar>sint (limb_of N i)\<bar> \<le> 2 ^ m" for i
  proof -
    have "N div 2 ^ (21 * i) mod 2 ^ 21 < 2 ^ 21" by (rule mod_less_divisor) simp
    also have "\<dots> \<le> 2 ^ m" using assms(2) by (rule power_increasing) simp
    finally show ?thesis unfolding sint_limb_of by (rule c)
  qed
  moreover have "N div 2 ^ (21 * n) < 2 ^ m" using assms(1) by (simp add: less_mult_imp_div_less power_add mult.commute)
  then have "\<bar>int (N div 2 ^ (21 * n))\<bar> \<le> 2 ^ m" by (rule c)
  moreover have "N < 2 ^ (21 * n + 32)" using assms(1) by (rule less_le_trans) (use assms(3) in \<open>simp add: power_increasing\<close>)
  ultimately show "x \<in> set (map (limb_of N) [0..<n] @ [top_of N n]) \<Longrightarrow> \<bar>sint x\<bar> \<le> 2 ^ m"
    by (auto simp: sint_top_of)
qed

section \<open>Reduction\<close>

lemma reduce_correct:
  assumes "length s = 64"
  shows "sc_reduce s = le_bytes 32 (nat (int (le_nat s) mod sc_l))"
proof -
  have N: "le_nat s < 2 ^ (21 * 23 + 29)" using le_nat_less_pow [of s 64] assms by simp
  then have "bounded (replicate 24 (2 ^ 30)) (reduce_loads s)"
    unfolding reduce_loads_eq [OF assms] bounded_replicate using loads_bounded [OF N] by fastforce
  moreover have "sc_val (reduce_loads s) = int (le_nat s)"
    using hval_loads [of "le_nat s" 23] less_le_trans [OF N] reduce_loads_eq [OF assms] by (simp add: sc_val_hval)
  ultimately show ?thesis
    using sc_short_write [of "replicate 24 (2 ^ 30)" "reduce_loads s" "[]"] reduce_chain by (simp add: sc_reduce_def)
qed

section \<open>Multiplication and addition\<close>

lemma sum_of_products:
  assumes "\<And>i. i \<in> set js \<Longrightarrow> \<bar>sint (a ! i)\<bar> \<le> 2 ^ 25 \<and> \<bar>sint (b ! (k - i))\<bar> \<le> 2 ^ 25"
    "\<bar>sint (x :: i64)\<bar> \<le> M" "M + int (length js) * 2 ^ 50 < 2 ^ 63"
  shows "sint (foldl (\<lambda>s i. s + a ! i * b ! (k - i)) x js) = sint x + (\<Sum>i\<leftarrow>js. sint (a ! i) * sint (b ! (k - i))) \<and>
    \<bar>sint (foldl (\<lambda>s i. s + a ! i * b ! (k - i)) x js)\<bar> \<le> M + int (length js) * 2 ^ 50"
  using assms
proof (induction js arbitrary: x M)
  case (Cons i js)
  have "\<bar>sint (a ! i) * sint (b ! (k - i))\<bar> \<le> 2 ^ 25 * 2 ^ 25"
    unfolding abs_mult using Cons.prems(1) [of i] by (intro mult_mono) simp_all
  then have p: "\<bar>sint (a ! i) * sint (b ! (k - i))\<bar> \<le> 2 ^ 50" by simp
  have "a ! i * b ! (k - i) = of_int (sint (a ! i) * sint (b ! (k - i)))" by simp
  then have m: "sint (a ! i * b ! (k - i)) = sint (a ! i) * sint (b ! (k - i))"
    using sint_word_of_int_64 [of "sint (a ! i) * sint (b ! (k - i))"] p by simp
  have l: "0 \<le> int (length js) * 2 ^ 50" by simp
  then have "\<bar>sint x + sint (a ! i) * sint (b ! (k - i))\<bar> < 2 ^ 63"
    using Cons.prems(2,3) p by (simp only: length_Cons of_nat_Suc distrib_right)
  then have s: "sint (x + a ! i * b ! (k - i)) = sint x + sint (a ! i) * sint (b ! (k - i))"
    using sint_add_64 [of x "a ! i * b ! (k - i)"] by (simp add: m)
  have "\<bar>sint (x + a ! i * b ! (k - i))\<bar> \<le> M + 2 ^ 50" using Cons.prems(2) p unfolding s by linarith
  note ih = Cons.IH [OF _ this]
  have len: "M + int (length (i # js)) * 2 ^ 50 = M + 2 ^ 50 + int (length js) * 2 ^ 50" by (simp add: distrib_right)
  have "M + 2 ^ 50 + int (length js) * 2 ^ 50 < 2 ^ 63" using Cons.prems(3) unfolding len .
  note ih [OF _ this]
  then show ?case
    using Cons.prems(1) unfolding len foldl.simps list.map sum_list.Cons s add.assoc [of "sint x", symmetric] by auto
qed simp

lemma cauchy_product:
  fixes F :: "nat \<Rightarrow> nat \<Rightarrow> int"
  shows "(\<Sum>k<24. \<Sum>i \<in> {k - 11..<min (k + 1) 12}. F i (k - i)) = (\<Sum>i<12. \<Sum>j<12. F i j)"
proof -
  have "(\<Sum>k<24. \<Sum>i \<in> {k - 11..<min (k + 1) 12}. F i (k - i)) =
      (\<Sum>(k, i) \<in> (SIGMA k:{..<24}. {k - 11..<min (k + 1) 12}). F i (k - i))"
    by (rule sum.Sigma) simp_all
  also have "\<dots> = (\<Sum>(i, j) \<in> {..<12} \<times> {..<12}. F i j)"
    by (rule sum.reindex_bij_witness [where i = "\<lambda>(i, j). (i + j, i)" and j = "\<lambda>(k, i). (i, k - i)"]) auto
  also have "\<dots> = (\<Sum>i<12. \<Sum>j<12. F i j)" by (rule sum.cartesian_product [symmetric])
  finally show ?thesis .
qed

text \<open>The 24 sums, with factors below 2^25: no overflow, and the value of the product plus the summand.\<close>

lemma muladd_sums_correct:
  assumes "length a = 12" "length b = 12" "length c = 12" "\<forall>x \<in> set a \<union> set b \<union> set c. \<bar>sint x\<bar> \<le> 2 ^ 25"
  defines "s \<equiv> muladd_sums a b c"
  shows "bounded (replicate 23 (2 ^ 54) @ [0]) s"
    "sc_val s = hval (map sint a) * hval (map sint b) + hval (map sint c)"
proof -
  let ?c = "\<lambda>k. if k < 12 then sint (c ! k) else 0" and ?is = "\<lambda>k. [k - 11..<min (k + 1) 12]"
  have x: "sint (if k < 12 then c ! k else 0) = ?c k" "\<bar>?c k\<bar> \<le> 2 ^ 25" for k using assms(3,4) by simp_all
  have e: "sint (muladd_sum a b c k) = ?c k + (\<Sum>i \<in> {k - 11..<min (k + 1) 12}. sint (a ! i) * sint (b ! (k - i))) \<and>
      \<bar>sint (muladd_sum a b c k)\<bar> \<le> 2 ^ 54" if "k < 24" for k
  proof -
    define js where "js = ?is k"
    have js: "distinct js" "set js = {k - 11..<min (k + 1) 12}" by (simp_all only: js_def distinct_upt set_upt)
    have "length js \<le> 12" unfolding js_def length_upt by (rule order_trans [OF diff_le_self]) simp
    then have "int (length js) * 2 ^ 50 \<le> 12 * 2 ^ 50" by (intro mult_right_mono) simp_all
    then have m: "2 ^ 25 + int (length js) * 2 ^ 50 \<le> 2 ^ 54" "2 ^ 25 + int (length js) * 2 ^ 50 < 2 ^ 63"
      by simp_all
    have f: "\<bar>sint (a ! i)\<bar> \<le> 2 ^ 25 \<and> \<bar>sint (b ! (k - i))\<bar> \<le> 2 ^ 25" if "i \<in> set js" for i
      using that \<open>k < 24\<close> assms(1,2,4) unfolding js by auto
    note p = sum_of_products [OF f _ m(2), of "if k < 12 then c ! k else 0", unfolded x(1), OF _ x(2)]
    have "sint (muladd_sum a b c k) = ?c k + (\<Sum>i\<leftarrow>js. sint (a ! i) * sint (b ! (k - i)))"
      "\<bar>sint (muladd_sum a b c k)\<bar> \<le> 2 ^ 54"
      unfolding muladd_sum_def js_def [symmetric] using p m(1) by linarith+
    then show ?thesis using js by (simp only: sum_list_distinct_conv_sum_set)
  qed
  have n: "s ! k = muladd_sum a b c k" if "k < 24" for k
  proof -
    have "[0..<24] ! k = k" using nth_upt [of 0 k 24] that by simp
    then show ?thesis using that by (simp add: s_def muladd_sums_def)
  qed
  have l: "length s = 24" by (simp add: s_def muladd_sums_def)
  have b: "\<bar>sint (s ! k)\<bar> \<le> 2 ^ 54" if "k < 24" for k using conjunct2 [OF e [OF that]] unfolding n [OF that] .
  have "muladd_sum a b c 23 = 0" by (simp add: muladd_sum_def)
  then show "bounded (replicate 23 (2 ^ 54) @ [0]) s"
    using l n [of 23] b by (auto simp: bounded_def list_all2_conv_all_nth nth_append less_Suc_eq [of _ 23, simplified])
  have "sc_val s = (\<Sum>k<24. 2 ^ (21 * k) * ?c k) +
      (\<Sum>k<24. \<Sum>i \<in> {k - 11..<min (k + 1) 12}. 2 ^ (21 * k) * (sint (a ! i) * sint (b ! (k - i))))"
    unfolding sc_val_def sum.distrib [symmetric]
    by (intro sum.cong refl) (simp only: lessThan_iff n conjunct1 [OF e] distrib_left sum_distrib_left)
  also have "(\<Sum>k<24. \<Sum>i \<in> {k - 11..<min (k + 1) 12}. 2 ^ (21 * k) * (sint (a ! i) * sint (b ! (k - i)))) =
      (\<Sum>k<24. \<Sum>i \<in> {k - 11..<min (k + 1) 12}. 2 ^ (21 * i) * sint (a ! i) * (2 ^ (21 * (k - i)) * sint (b ! (k - i))))"
  proof (intro sum.cong refl)
    fix k i :: nat assume "i \<in> {k - 11..<min (k + 1) 12}"
    then have "i \<le> k" by auto
    then have "21 * k = 21 * i + 21 * (k - i)" by simp
    then have "(2::int) ^ (21 * k) = 2 ^ (21 * i) * 2 ^ (21 * (k - i))" by (simp only: power_add)
    then show "2 ^ (21 * k) * (sint (a ! i) * sint (b ! (k - i))) =
        2 ^ (21 * i) * sint (a ! i) * (2 ^ (21 * (k - i)) * sint (b ! (k - i)))" by (simp add: ac_simps)
  qed
  also have "\<dots> = (\<Sum>i<12. \<Sum>j<12. 2 ^ (21 * i) * sint (a ! i) * (2 ^ (21 * j) * sint (b ! j)))"
    by (rule cauchy_product)
  also have "\<dots> = hval (map sint a) * hval (map sint b)" using assms(1,2) by (simp add: hval_sum sum_product)
  also have "(\<Sum>k<24. 2 ^ (21 * k) * ?c k) = (\<Sum>k<12. 2 ^ (21 * k) * sint (c ! k))"
    by (rule sum.mono_neutral_cong_right) auto
  also have "\<dots> = hval (map sint c)" using assms(3) by (simp add: hval_sum)
  finally show "sc_val s = hval (map sint a) * hval (map sint b) + hval (map sint c)" by simp
qed

lemma scalar_loads_spec:
  assumes "length a = 32"
  shows "length (scalar_loads a) = 12" "hval (map sint (scalar_loads a)) = int (le_nat a)"
    "x \<in> set (scalar_loads a) \<Longrightarrow> \<bar>sint x\<bar> \<le> 2 ^ 25"
proof -
  have N: "le_nat a < 2 ^ (21 * 11 + 25)" using le_nat_less_pow [of a 32] assms by simp
  show "length (scalar_loads a) = 12" by (simp add: scalar_loads_def)
  show "hval (map sint (scalar_loads a)) = int (le_nat a)"
    unfolding scalar_loads_eq [OF assms] by (rule hval_loads) (rule less_trans [OF N], simp)
  show "x \<in> set (scalar_loads a) \<Longrightarrow> \<bar>sint x\<bar> \<le> 2 ^ 25"
    using loads_bounded [OF N] unfolding scalar_loads_eq [OF assms] by simp
qed

lemma muladd_correct:
  assumes "length a = 32" "length b = 32" "length c = 32"
  shows "sc_muladd a b c = le_bytes 32 (nat ((int (le_nat a) * int (le_nat b) + int (le_nat c)) mod sc_l))"
proof -
  let ?s = "muladd_sums (scalar_loads a) (scalar_loads b) (scalar_loads c)"
  note l = scalar_loads_spec [OF assms(1)] scalar_loads_spec [OF assms(2)] scalar_loads_spec [OF assms(3)]
  have "\<forall>x \<in> set (scalar_loads a) \<union> set (scalar_loads b) \<union> set (scalar_loads c). \<bar>sint x\<bar> \<le> 2 ^ 25"
    using l(3,6,9) by blast
  note s = muladd_sums_correct [OF l(1,4,7) this]
  have r: "fold sc_round_at [0, 2, 4, 6, 8, 10, 12, 14, 16, 18, 20, 22, 1, 3, 5, 7, 9, 11, 13, 15, 17, 19, 21] ?s =
      fold step_run round_steps ?s"
    by (simp add: round_steps_def)
  show ?thesis
    using sc_short_write [OF s(1) _ muladd_chain] unfolding sc_muladd_def Let_def r s(2) l by simp
qed

lemma sc_reduce_value:
  assumes "length s = 64"
  shows "sc_reduce s = le_bytes 32 (le_nat s mod (2 ^ 252 + 27742317777372353535851937790883648493))"
proof -
  have "int (le_nat s) mod sc_l = int (le_nat s mod (2 ^ 252 + 27742317777372353535851937790883648493))"
    by (simp add: sc_l_def zmod_int)
  then show ?thesis using reduce_correct [OF assms] by simp
qed

lemma sc_muladd_value:
  assumes "length a = 32" "length b = 32" "length c = 32"
  shows "sc_muladd a b c =
    le_bytes 32 ((le_nat a * le_nat b + le_nat c) mod (2 ^ 252 + 27742317777372353535851937790883648493))"
proof -
  have "(int (le_nat a) * int (le_nat b) + int (le_nat c)) mod sc_l =
      int ((le_nat a * le_nat b + le_nat c) mod (2 ^ 252 + 27742317777372353535851937790883648493))"
    by (simp add: sc_l_def zmod_int)
  then show ?thesis using muladd_correct [OF assms] by simp
qed

section \<open>The promises of the scalar arithmetic\<close>

text \<open>Reducing a 512-bit hash refines the modulus: the 32 bytes left are the canonical encoding of the
  number modulo the order of the group, for every input.\<close>

theorem sc_reduce_correct:
  assumes "length s = 64"
  shows "sc_reduce s = le_bytes 32 (le_nat s mod (2 ^ 252 + 27742317777372353535851937790883648493))"
  using sc_reduce_value [OF assms] .

theorem sc_reduce_correct_witness:
  "sc_reduce (replicate 64 255) =
    le_bytes 32 (le_nat (replicate 64 255) mod (2 ^ 252 + 27742317777372353535851937790883648493))"
  by (rule sc_reduce_correct) simp

text \<open>C32: The second half of a signature: product and sum of any three 256-bit numbers, reduced or not, are
  written as the canonical encoding of the result modulo the order of the group.\<close>

theorem sc_muladd_correct:
  assumes "length a = 32" "length b = 32" "length c = 32"
  shows "sc_muladd a b c =
    le_bytes 32 ((le_nat a * le_nat b + le_nat c) mod (2 ^ 252 + 27742317777372353535851937790883648493))"
  using sc_muladd_value [OF assms] .

theorem sc_muladd_correct_witness:
  "sc_muladd (replicate 32 255) (2 # replicate 31 0) (7 # replicate 31 0) =
    le_bytes 32 ((le_nat (replicate 32 255) * le_nat (2 # replicate 31 0) + le_nat (7 # replicate 31 0)) mod
      (2 ^ 252 + 27742317777372353535851937790883648493))"
  by (rule sc_muladd_correct) simp_all

end
