(* ===== verification/Ge.thy ===== *)
theory Ge
  imports GeTables
begin

text \<open>
  The operations on points (\<open>src/lib/ed25519/ge.c\<close>).  A result structure is the value of the function;
  where the code uses fields of the result for intermediates, they are the bindings of the same names.
  A \<open>signed char\<close> is an integer, reduced by \<open>schar\<close> where the code stores it.
\<close>

section \<open>Conversions and formulas\<close>

definition ge_p1p1_to_p2 :: "ge_p1p1 \<Rightarrow> ge_p2" where
  "ge_p1p1_to_p2 p =
     \<lparr>p2_X = fe_mul (p1_X p) (p1_T p), p2_Y = fe_mul (p1_Y p) (p1_Z p), p2_Z = fe_mul (p1_Z p) (p1_T p)\<rparr>"

definition ge_p1p1_to_p3 :: "ge_p1p1 \<Rightarrow> ge_p3" where
  "ge_p1p1_to_p3 p =
     \<lparr>p3_X = fe_mul (p1_X p) (p1_T p), p3_Y = fe_mul (p1_Y p) (p1_Z p), p3_Z = fe_mul (p1_Z p) (p1_T p),
      p3_T = fe_mul (p1_X p) (p1_Y p)\<rparr>"

definition ge_p2_0 :: ge_p2 where
  "ge_p2_0 = \<lparr>p2_X = fe_0, p2_Y = fe_1, p2_Z = fe_1\<rparr>"

definition ge_p3_0 :: ge_p3 where
  "ge_p3_0 = \<lparr>p3_X = fe_0, p3_Y = fe_1, p3_Z = fe_1, p3_T = fe_0\<rparr>"

definition ge_p3_to_p2 :: "ge_p3 \<Rightarrow> ge_p2" where
  "ge_p3_to_p2 p = \<lparr>p2_X = fe_copy (p3_X p), p2_Y = fe_copy (p3_Y p), p2_Z = fe_copy (p3_Z p)\<rparr>"

definition ge_d :: fe where
  "ge_d = [- 10913610, 13857413, - 15372611, 6949391, 114729, - 8787816, - 6275908, - 3247719, - 18696448, - 12055116]"

definition ge_d2 :: fe where
  "ge_d2 = [- 21827239, - 5839606, - 30745221, 13898782, 229458, 15978800, - 12551817, - 6495438, 29715968, 9444199]"

definition ge_sqrtm1 :: fe where
  "ge_sqrtm1 = [- 32595792, - 7943725, 9377950, 3500415, 12389472, - 272473, - 25146209, - 2005654, 326686, 11406482]"

definition ge_p3_to_cached :: "ge_p3 \<Rightarrow> ge_cached" where
  "ge_p3_to_cached p =
     \<lparr>YplusX = fe_add (p3_Y p) (p3_X p), YminusX = fe_sub (p3_Y p) (p3_X p), ca_Z = fe_copy (p3_Z p),
      T2d = fe_mul (p3_T p) ge_d2\<rparr>"

definition ge_add :: "ge_p3 \<Rightarrow> ge_cached \<Rightarrow> ge_p1p1" where
  "ge_add p q =
     (let X = fe_add (p3_Y p) (p3_X p);
          Y = fe_sub (p3_Y p) (p3_X p);
          Z = fe_mul X (YplusX q);
          Y = fe_mul Y (YminusX q);
          T = fe_mul (T2d q) (p3_T p);
          X = fe_mul (p3_Z p) (ca_Z q);
          t0 = fe_add X X;
          X = fe_sub Z Y;
          Y = fe_add Z Y;
          Z = fe_add t0 T;
          T = fe_sub t0 T
      in \<lparr>p1_X = X, p1_Y = Y, p1_Z = Z, p1_T = T\<rparr>)"

definition ge_sub :: "ge_p3 \<Rightarrow> ge_cached \<Rightarrow> ge_p1p1" where
  "ge_sub p q =
     (let X = fe_add (p3_Y p) (p3_X p);
          Y = fe_sub (p3_Y p) (p3_X p);
          Z = fe_mul X (YminusX q);
          Y = fe_mul Y (YplusX q);
          T = fe_mul (T2d q) (p3_T p);
          X = fe_mul (p3_Z p) (ca_Z q);
          t0 = fe_add X X;
          X = fe_sub Z Y;
          Y = fe_add Z Y;
          Z = fe_sub t0 T;
          T = fe_add t0 T
      in \<lparr>p1_X = X, p1_Y = Y, p1_Z = Z, p1_T = T\<rparr>)"

definition ge_madd :: "ge_p3 \<Rightarrow> ge_precomp \<Rightarrow> ge_p1p1" where
  "ge_madd p q =
     (let X = fe_add (p3_Y p) (p3_X p);
          Y = fe_sub (p3_Y p) (p3_X p);
          Z = fe_mul X (yplusx q);
          Y = fe_mul Y (yminusx q);
          T = fe_mul (xy2d q) (p3_T p);
          t0 = fe_add (p3_Z p) (p3_Z p);
          X = fe_sub Z Y;
          Y = fe_add Z Y;
          Z = fe_add t0 T;
          T = fe_sub t0 T
      in \<lparr>p1_X = X, p1_Y = Y, p1_Z = Z, p1_T = T\<rparr>)"

definition ge_msub :: "ge_p3 \<Rightarrow> ge_precomp \<Rightarrow> ge_p1p1" where
  "ge_msub p q =
     (let X = fe_add (p3_Y p) (p3_X p);
          Y = fe_sub (p3_Y p) (p3_X p);
          Z = fe_mul X (yminusx q);
          Y = fe_mul Y (yplusx q);
          T = fe_mul (xy2d q) (p3_T p);
          t0 = fe_add (p3_Z p) (p3_Z p);
          X = fe_sub Z Y;
          Y = fe_add Z Y;
          Z = fe_sub t0 T;
          T = fe_add t0 T
      in \<lparr>p1_X = X, p1_Y = Y, p1_Z = Z, p1_T = T\<rparr>)"

definition ge_p2_dbl :: "ge_p2 \<Rightarrow> ge_p1p1" where
  "ge_p2_dbl p =
     (let X = fe_sq (p2_X p);
          Z = fe_sq (p2_Y p);
          T = fe_sq2 (p2_Z p);
          Y = fe_add (p2_X p) (p2_Y p);
          t0 = fe_sq Y;
          Y = fe_add Z X;
          Z = fe_sub Z X;
          X = fe_sub t0 Y;
          T = fe_sub T Z
      in \<lparr>p1_X = X, p1_Y = Y, p1_Z = Z, p1_T = T\<rparr>)"

definition ge_p3_dbl :: "ge_p3 \<Rightarrow> ge_p1p1" where
  "ge_p3_dbl p = ge_p2_dbl (ge_p3_to_p2 p)"

section \<open>Bytes\<close>

text \<open>\<open>s[31] ^= fe_isnegative(x) << 7\<close>\<close>

definition point_bytes :: "fe \<Rightarrow> fe \<Rightarrow> fe \<Rightarrow> bytes" where
  "point_bytes X Y Z =
     (let recip = fe_invert Z; x = fe_mul X recip; y = fe_mul Y recip; s = fe_tobytes y
      in s[31 := s ! 31 XOR ucast (push_bit 7 (fe_isnegative x))])"

definition ge_tobytes :: "ge_p2 \<Rightarrow> bytes" where
  "ge_tobytes h = point_bytes (p2_X h) (p2_Y h) (p2_Z h)"

definition ge_p3_tobytes :: "ge_p3 \<Rightarrow> bytes" where
  "ge_p3_tobytes h = point_bytes (p3_X h) (p3_Y h) (p3_Z h)"

text \<open>The return code and the structure written, \<open>h\<close> before the call: on failure its \<open>T\<close> is left as it was.\<close>

definition ge_frombytes_negate_vartime :: "ge_p3 \<Rightarrow> bytes \<Rightarrow> int \<times> ge_p3" where
  "ge_frombytes_negate_vartime h s =
     (let Y = fe_frombytes s;
          Z = fe_1;
          u = fe_sq Y;
          v = fe_mul u ge_d;
          u = fe_sub u Z;
          v = fe_add v Z;
          v3 = fe_sq v;
          v3 = fe_mul v3 v;
          X = fe_sq v3;
          X = fe_mul X v;
          X = fe_mul X u;
          X = fe_pow22523 X;
          X = fe_mul X v3;
          X = fe_mul X u;
          vxx = fe_sq X;
          vxx = fe_mul vxx v;
          finish = (\<lambda>X. let X = (if fe_isnegative X = ucast (drop_bit 7 (s ! 31)) then fe_neg X else X)
                        in (0, \<lparr>p3_X = X, p3_Y = Y, p3_Z = Z, p3_T = fe_mul X Y\<rparr>))
      in if fe_isnonzero (fe_sub vxx u) \<noteq> 0
         then (if fe_isnonzero (fe_add vxx u) \<noteq> 0 then (- 1, h\<lparr>p3_X := X, p3_Y := Y, p3_Z := Z\<rparr>)
               else finish (fe_mul X ge_sqrtm1))
         else finish X)"

section \<open>Signed digits\<close>

text \<open>The value a \<open>signed char\<close> keeps.\<close>

definition schar :: "int \<Rightarrow> int" where
  "schar x = (x + 128) mod 256 - 128"

text \<open>\<open>for (k = i + b; k < 256; ++k) \<dots>\<close>: a carry into the bits from \<open>k\<close> on.\<close>

function slide_carry :: "nat \<Rightarrow> int list \<Rightarrow> int list" where
  "slide_carry k r =
     (if 256 \<le> k then r
      else if r ! k = 0 then r[k := 1]
      else slide_carry (k + 1) (r[k := 0]))"
  by pat_completeness auto
termination by (relation "measure (\<lambda>(k, r). 256 - k)") auto

declare slide_carry.simps [simp del]

text \<open>The loop over \<open>b\<close>, from \<open>b\<close> on.\<close>

function slide_digit :: "nat \<Rightarrow> nat \<Rightarrow> int list \<Rightarrow> int list" where
  "slide_digit i b r =
     (if \<not> (b \<le> 6 \<and> i + b < 256) then r
      else if r ! (i + b) \<noteq> 0 then
        (let x = r ! (i + b) * 2 ^ b
         in if r ! i + x \<le> 15 then slide_digit i (b + 1) (r[i := schar (r ! i + x), i + b := 0])
            else if r ! i - x \<ge> - 15 then slide_digit i (b + 1) (slide_carry (i + b) (r[i := schar (r ! i - x)]))
            else r)
      else slide_digit i (b + 1) r)"
  by pat_completeness auto
termination by (relation "measure (\<lambda>(i, b, r). 7 - b)") auto

declare slide_digit.simps [simp del]

definition slide_bits :: "bytes \<Rightarrow> int list" where
  "slide_bits a = map (\<lambda>i. uint (1 AND drop_bit (i mod 8) (a ! (i div 8)))) [0..<256]"

definition slide :: "bytes \<Rightarrow> int list" where
  "slide a = fold (\<lambda>i r. if r ! i \<noteq> 0 then slide_digit i 1 r else r) [0..<256] (slide_bits a)"

text \<open>Radix 16, with digits from -8 to 8: the two nibbles of every byte, then the carries.\<close>

definition recode_nibbles :: "bytes \<Rightarrow> int list" where
  "recode_nibbles a = concat (map (\<lambda>i. [uint (a ! i AND 15), uint (drop_bit 4 (a ! i) AND 15)]) [0..<32])"

definition recode_step :: "nat \<Rightarrow> int \<times> int list \<Rightarrow> int \<times> int list" where
  "recode_step i = (\<lambda>(carry, e).
     (let e = e[i := schar (e ! i + carry)];
          carry = schar (e ! i + 8);
          carry = carry div 16
      in (carry, e[i := schar (e ! i - carry * 16)])))"

definition recode :: "bytes \<Rightarrow> int list" where
  "recode a =
     (case fold recode_step [0..<63] (0, recode_nibbles a) of (carry, e) \<Rightarrow> e[63 := schar (e ! 63 + carry)])"

section \<open>Selection without branches\<close>

definition ge_equal :: "int \<Rightarrow> int \<Rightarrow> u8" where
  "ge_equal b c =
     (let ub = of_int b; uc = of_int c; x = ub XOR uc :: u8; y = ucast x :: 64 word; y = y - 1
      in ucast (drop_bit 63 y))"

definition negative :: "int \<Rightarrow> u8" where
  "negative b = ucast (drop_bit 63 (of_int b :: 64 word))"

definition ge_cmov :: "ge_precomp \<Rightarrow> ge_precomp \<Rightarrow> u8 \<Rightarrow> ge_precomp" where
  "ge_cmov t u b =
     \<lparr>yplusx = fe_cmov (yplusx t) (yplusx u) (ucast b), yminusx = fe_cmov (yminusx t) (yminusx u) (ucast b),
      xy2d = fe_cmov (xy2d t) (xy2d u) (ucast b)\<rparr>"

definition select :: "nat \<Rightarrow> int \<Rightarrow> ge_precomp" where
  "select pos b =
     (let bnegative = negative b;
          babs = of_int (b - push_bit 1 ((- uint bnegative) AND b)) :: u8;
          t = \<lparr>yplusx = fe_1, yminusx = fe_1, xy2d = fe_0\<rparr>;
          row = base_table ! pos;
          t = fold (\<lambda>j t. ge_cmov t (row ! j) (ge_equal (sint babs) (int j + 1))) [0, 1, 2, 3, 4, 5, 6, 7] t;
          minust = \<lparr>yplusx = fe_copy (yminusx t), yminusx = fe_copy (yplusx t), xy2d = fe_neg (xy2d t)\<rparr>
      in ge_cmov t minust bnegative)"

section \<open>Multiples of points\<close>

definition base_add :: "int list \<Rightarrow> nat \<Rightarrow> ge_p3 \<Rightarrow> ge_p3" where
  "base_add e i h = ge_p1p1_to_p3 (ge_madd h (select (i div 2) (e ! i)))"

definition times_16 :: "ge_p3 \<Rightarrow> ge_p3" where
  "times_16 h =
     (let r = ge_p3_dbl h;
          r = ge_p2_dbl (ge_p1p1_to_p2 r);
          r = ge_p2_dbl (ge_p1p1_to_p2 r);
          r = ge_p2_dbl (ge_p1p1_to_p2 r)
      in ge_p1p1_to_p3 r)"

definition ge_scalarmult_base :: "bytes \<Rightarrow> ge_p3" where
  "ge_scalarmult_base a =
     (let e = recode a;
          h = fold (base_add e) (map (\<lambda>k. 2 * k + 1) [0..<32]) ge_p3_0;
          h = times_16 h
      in fold (base_add e) (map (\<lambda>k. 2 * k) [0..<32]) h)"

text \<open>\<open>A, 3A, ..., 15A\<close>, and the digits from the highest on that is not zero.\<close>

definition odd_multiples :: "ge_p3 \<Rightarrow> ge_cached list" where
  "odd_multiples A =
     (let A2 = ge_p1p1_to_p3 (ge_p3_dbl A)
      in fold (\<lambda>k Ai. Ai @ [ge_p3_to_cached (ge_p1p1_to_p3 (ge_add A2 (Ai ! k)))]) [0..<7] [ge_p3_to_cached A])"

definition double_step :: "int list \<Rightarrow> int list \<Rightarrow> ge_cached list \<Rightarrow> nat \<Rightarrow> ge_p2 \<Rightarrow> ge_p2" where
  "double_step aslide bslide Ai i r =
     (let t = ge_p2_dbl r;
          t = (if aslide ! i > 0 then ge_add (ge_p1p1_to_p3 t) (Ai ! nat (aslide ! i div 2))
               else if aslide ! i < 0 then ge_sub (ge_p1p1_to_p3 t) (Ai ! nat (- aslide ! i div 2))
               else t);
          t = (if bslide ! i > 0 then ge_madd (ge_p1p1_to_p3 t) (Bi ! nat (bslide ! i div 2))
               else if bslide ! i < 0 then ge_msub (ge_p1p1_to_p3 t) (Bi ! nat (- bslide ! i div 2))
               else t)
      in ge_p1p1_to_p2 t)"

definition ge_double_scalarmult_vartime :: "bytes \<Rightarrow> ge_p3 \<Rightarrow> bytes \<Rightarrow> ge_p2" where
  "ge_double_scalarmult_vartime a A b =
     (let aslide = slide a;
          bslide = slide b;
          Ai = odd_multiples A;
          top = dropWhile (\<lambda>i. aslide ! i = 0 \<and> bslide ! i = 0) (rev [0..<256])
      in fold (double_step aslide bslide Ai) top ge_p2_0)"

end
