(* ===== verification/Ed25519.thy ===== *)
theory Ed25519
  imports Ge Sc Sha512
begin

text \<open>
  Keys, signatures and the key exchange (\<open>src/lib/ed25519/keypair.c\<close>, \<open>sign.c\<close>, \<open>verify.c\<close>,
  \<open>add_scalar.c\<close>, \<open>key_exchange.c\<close>, \<open>seed.c\<close>).  Arrays are lists of bytes; a call that reads the
  first 32 bytes of a longer array is given the array.  \<open>ctx\<close> and \<open>junk\<close> are the uninitialized locals
  for the hash context and the digest.
\<close>

section \<open>Hashing\<close>

text \<open>\<open>sha512_init\<close>, one \<open>sha512_update\<close> for each part, and \<open>sha512_final\<close> into \<open>junk\<close>; the callers ignore
  the return codes.\<close>

definition hash_parts :: "sha512_context \<Rightarrow> bytes \<Rightarrow> bytes list \<Rightarrow> bytes" where
  "hash_parts ctx junk parts =
     (let p = snd (sha512_init (Some ctx));
          p = fold (\<lambda>x p. snd (sha512_update p (Some x))) parts p
      in case sha512_final p True of (ret, p, digest) \<Rightarrow> (case digest of None \<Rightarrow> junk | Some d \<Rightarrow> d))"

text \<open>\<open>sc_reduce\<close> in place.\<close>

definition reduce_in_place :: "bytes \<Rightarrow> bytes" where
  "reduce_in_place s = sc_reduce s @ drop 32 s"

section \<open>Keys\<close>

text \<open>The seed: what \<open>/dev/urandom\<close> yields when it can be opened; bytes it does not yield stay.\<close>

definition ed25519_create_seed :: "bytes option \<Rightarrow> bytes \<Rightarrow> nat \<times> bytes" where
  "ed25519_create_seed urandom seed =
     (case urandom of None \<Rightarrow> (1, seed)
      | Some input \<Rightarrow> (let got = take 32 input in (0, got @ drop (length got) seed)))"

definition clamp :: "bytes \<Rightarrow> bytes" where
  "clamp e =
     (let e = e[0 := e ! 0 AND 248];
          e = e[31 := e ! 31 AND 63]
      in e[31 := e ! 31 OR 64])"

definition ed25519_derive_pub :: "bytes \<Rightarrow> bytes" where
  "ed25519_derive_pub private_key = ge_p3_tobytes (ge_scalarmult_base private_key)"

text \<open>The public and the private key, \<open>private_key\<close> before the call.\<close>

definition ed25519_create_keypair :: "sha512_context \<Rightarrow> bytes \<Rightarrow> bytes \<Rightarrow> bytes \<times> bytes" where
  "ed25519_create_keypair ctx private_key seed =
     (let private_key = (case snd (sha512 ctx (Some seed) True) of None \<Rightarrow> private_key | Some d \<Rightarrow> d);
          private_key = clamp private_key
      in (ge_p3_tobytes (ge_scalarmult_base private_key), private_key))"

section \<open>Signatures\<close>

definition ed25519_sign :: "sha512_context \<Rightarrow> bytes \<Rightarrow> bytes \<Rightarrow> bytes \<Rightarrow> bytes \<Rightarrow> bytes" where
  "ed25519_sign ctx junk message public_key private_key =
     (let r = hash_parts ctx junk [take 32 (drop 32 private_key), message];
          r = reduce_in_place r;
          signature = ge_p3_tobytes (ge_scalarmult_base r);
          hram = hash_parts ctx junk [take 32 signature, take 32 public_key, message];
          hram = reduce_in_place hram
      in signature @ sc_muladd hram private_key r)"

text \<open>\<open>!r\<close> of the 32 differences.\<close>

definition consttime_equal :: "bytes \<Rightarrow> bytes \<Rightarrow> bool" where
  "consttime_equal x y =
     (let r = x ! 0 XOR y ! 0; r = fold (\<lambda>i r. r OR (x ! i XOR y ! i)) [1..<32] r in r = 0)"

definition ed25519_verify :: "sha512_context \<Rightarrow> bytes \<Rightarrow> ge_p3 \<Rightarrow> bytes \<Rightarrow> bytes \<Rightarrow> bytes \<Rightarrow> nat" where
  "ed25519_verify ctx junk A signature message public_key =
     (if signature ! 63 AND 224 \<noteq> 0 then 0
      else case ge_frombytes_negate_vartime A public_key of (ret, A) \<Rightarrow>
        if ret \<noteq> 0 then 0
        else
          (let h = hash_parts ctx junk [take 32 signature, take 32 public_key, message];
               h = reduce_in_place h;
               R = ge_double_scalarmult_vartime h A (drop 32 signature);
               checker = ge_tobytes R
           in if \<not> consttime_equal checker signature then 0 else 1))"

section \<open>Key derivation\<close>

text \<open>The two arguments that may be null, after the call; \<open>T\<close> is the uninitialized local the public key
  is unpacked into.\<close>

definition SC_1 :: bytes where
  "SC_1 = 1 # replicate 31 0"

definition add_private :: "sha512_context \<Rightarrow> bytes \<Rightarrow> bytes \<Rightarrow> bytes \<Rightarrow> bytes \<Rightarrow> bytes" where
  "add_private ctx junk n private_key scalar =
     (let private_key = sc_muladd SC_1 n private_key @ drop 32 private_key;
          hashbuf = hash_parts ctx junk [take 32 (drop 32 private_key), take 32 scalar]
      in take 32 private_key @ take 32 hashbuf @ drop 64 private_key)"

definition add_public :: "ge_p3 \<Rightarrow> bytes \<Rightarrow> bytes \<Rightarrow> ge_p3" where
  "add_public unpacked n public_key =
     (let public_key_unpacked = snd (ge_frombytes_negate_vartime unpacked public_key);
          public_key_unpacked = public_key_unpacked\<lparr>p3_X := fe_neg (p3_X public_key_unpacked)\<rparr>;
          public_key_unpacked = public_key_unpacked\<lparr>p3_T := fe_neg (p3_T public_key_unpacked)\<rparr>;
          T = ge_p3_to_cached public_key_unpacked;
          nB = ge_scalarmult_base n
      in ge_p1p1_to_p3 (ge_add nB T))"

definition ed25519_add_scalar ::
  "sha512_context \<Rightarrow> bytes \<Rightarrow> ge_p3 \<Rightarrow> bytes option \<Rightarrow> bytes option \<Rightarrow> bytes \<Rightarrow> bytes option \<times> bytes option" where
  "ed25519_add_scalar ctx junk unpacked public_key private_key scalar =
     (let n = take 31 scalar @ [scalar ! 31 AND 127];
          private_key = map_option (\<lambda>k. add_private ctx junk n k scalar) private_key;
          public_key = map_option (\<lambda>k.
            let A = (case private_key of Some a \<Rightarrow> ge_scalarmult_base a | None \<Rightarrow> add_public unpacked n k)
            in ge_p3_tobytes A @ drop 32 k) public_key
      in (public_key, private_key))"

section \<open>Key exchange\<close>

record ladder =
  la_x2 :: fe
  la_z2 :: fe
  la_x3 :: fe
  la_z3 :: fe
  la_swap :: u32

definition swap_points :: "u32 \<Rightarrow> ladder \<Rightarrow> ladder" where
  "swap_points swap s =
     (case fe_cswap (la_x2 s) (la_x3 s) swap of (x2, x3) \<Rightarrow>
      case fe_cswap (la_z2 s) (la_z3 s) swap of (z2, z3) \<Rightarrow>
        s\<lparr>la_x2 := x2, la_x3 := x3, la_z2 := z2, la_z3 := z3\<rparr>)"

definition ladder_formulas :: "fe \<Rightarrow> ladder \<Rightarrow> ladder" where
  "ladder_formulas x1 s =
     (let x2 = la_x2 s; z2 = la_z2 s; x3 = la_x3 s; z3 = la_z3 s;
          tmp0 = fe_sub x3 z3;
          tmp1 = fe_sub x2 z2;
          x2 = fe_add x2 z2;
          z2 = fe_add x3 z3;
          z3 = fe_mul tmp0 x2;
          z2 = fe_mul z2 tmp1;
          tmp0 = fe_sq tmp1;
          tmp1 = fe_sq x2;
          x3 = fe_add z3 z2;
          z2 = fe_sub z3 z2;
          x2 = fe_mul tmp1 tmp0;
          tmp1 = fe_sub tmp1 tmp0;
          z2 = fe_sq z2;
          z3 = fe_mul121666 tmp1;
          x3 = fe_sq x3;
          tmp0 = fe_add tmp0 z3;
          z3 = fe_mul x1 z2;
          z2 = fe_mul tmp1 tmp0
      in s\<lparr>la_x2 := x2, la_z2 := z2, la_x3 := x3, la_z3 := z3\<rparr>)"

definition ladder_step :: "bytes \<Rightarrow> fe \<Rightarrow> nat \<Rightarrow> ladder \<Rightarrow> ladder" where
  "ladder_step e x1 pos s =
     (let b = ucast (drop_bit (pos mod 8) (e ! (pos div 8))) AND 1;
          swap = la_swap s XOR b;
          s = swap_points swap s
      in ladder_formulas x1 (s\<lparr>la_swap := b\<rparr>))"

definition montgomery_x :: "bytes \<Rightarrow> fe" where
  "montgomery_x public_key =
     (let x1 = fe_frombytes public_key;
          tmp1 = fe_1;
          tmp0 = fe_add x1 tmp1;
          tmp1 = fe_sub tmp1 x1;
          tmp1 = fe_invert tmp1
      in fe_mul tmp0 tmp1)"

definition ed25519_key_exchange :: "bytes \<Rightarrow> bytes \<Rightarrow> bytes" where
  "ed25519_key_exchange public_key private_key =
     (let e = clamp (take 32 private_key);
          x1 = montgomery_x public_key;
          s = \<lparr>la_x2 = fe_1, la_z2 = fe_0, la_x3 = fe_copy x1, la_z3 = fe_1, la_swap = 0\<rparr>;
          s = fold (ladder_step e x1) (rev [0..<255]) s;
          s = swap_points (la_swap s) s;
          z2 = fe_invert (la_z2 s);
          x2 = fe_mul (la_x2 s) z2
      in fe_tobytes x2)"

end
