(* ===== verification/GeDigits.thy ===== *)
theory GeDigits
  imports Ge ScClaims
begin

text \<open>
  The signed digits the scalar multiplications are driven by: sliding windows and radix 16.  Both
  have the value of the scalar, and their range is that of the tables they index.
\<close>

section \<open>Radix 16\<close>

lemma schar_id: "- 128 \<le> x \<Longrightarrow> x < 128 \<Longrightarrow> schar x = x"
  by (simp add: schar_def)

text \<open>The value of digits in base \<open>b\<close>.\<close>

fun dval :: "int \<Rightarrow> int list \<Rightarrow> int" where
  "dval b [] = 0"
| "dval b (x # xs) = x + b * dval b xs"

lemma dval_append: "dval b (xs @ ys) = dval b xs + b ^ length xs * dval b ys"
  by (induction xs) (simp_all add: algebra_simps)

lemma dval_upd:
  assumes "i < length xs"
  shows "dval b (xs[i := y]) = dval b xs + b ^ i * (y - xs ! i)"
  using assms
proof (induction xs arbitrary: i)
  case (Cons x xs)
  then show ?case by (cases i) (simp_all add: distrib_left mult.assoc)
qed simp

lemma le_nat_dval: "int (le_nat s) = dval 256 (map uint s)"
  by (induction s) simp_all

lemma nibble_range: "0 \<le> x \<Longrightarrow> x < 256 \<Longrightarrow> x div 16 mod 16 = (x div 16 :: int)"
  by (simp add: div_pos_pos_trivial zdiv_zmult2_eq [symmetric] div_mod_decomp_int)

lemma nibbles: "uint (x AND 15 :: u8) = uint x mod 16" "uint (drop_bit 4 x :: u8) mod 16 = uint x div 16"
proof -
  have "x AND 15 = take_bit 4 x" by (simp add: take_bit_eq_mask mask_eq_exp_minus_1)
  then show "uint (x AND 15) = uint x mod 16" by (simp add: unsigned_take_bit_eq take_bit_eq_mod uint_mod)
  show "uint (drop_bit 4 x) mod 16 = uint x div 16"
    using nibble_range [of "uint x"] uint_lt2p [of x] unfolding unsigned_drop_bit_eq
    by (simp add: drop_bit_eq_div take_bit_eq_mod)
qed

lemma nibbles_dval: "dval 16 (concat (map (\<lambda>x :: u8. [uint (x AND 15), uint (drop_bit 4 x AND 15)]) s)) = dval 256 (map uint s)"
proof (induction s)
  case (Cons x s)
  have "uint x = uint x mod 16 + 16 * (uint x div 16)" by simp
  then show ?case using Cons.IH by (simp only: nibbles list.map concat.simps append.simps dval.simps) simp
qed simp

lemma concat_map_upt: "length s = n \<Longrightarrow> concat (map (\<lambda>i. f (s ! i)) [0..<n]) = concat (map f s)"
  by (metis map_nth map_map comp_def map_cong)

lemma recode_nibbles_spec:
  assumes "length a = 32"
  shows "length (recode_nibbles a) = 64" "dval 16 (recode_nibbles a) = int (le_nat a)"
    "x \<in> set (recode_nibbles a) \<Longrightarrow> 0 \<le> x \<and> x \<le> 15"
proof -
  have e: "recode_nibbles a = concat (map (\<lambda>x. [uint (x AND 15), uint (drop_bit 4 x AND 15)]) a)"
    unfolding recode_nibbles_def using concat_map_upt [OF assms, of "\<lambda>x. [uint (x AND 15), uint (drop_bit 4 x AND 15)]"] .
  show "length (recode_nibbles a) = 64" by (simp add: e length_concat comp_def assms sum_list_triv)
  show "dval 16 (recode_nibbles a) = int (le_nat a)" by (simp only: e nibbles_dval le_nat_dval)
  have "0 \<le> uint y div 16 \<and> uint y div 16 \<le> 15" for y :: u8
    using uint_lt2p [of y] uint_ge_0 [of y] by (auto simp: pos_imp_zdiv_nonneg_iff)
  then show "x \<in> set (recode_nibbles a) \<Longrightarrow> 0 \<le> x \<and> x \<le> 15" unfolding e nibbles by auto
qed

text \<open>The carries, up to the digit \<open>i\<close>.\<close>

definition recoding :: "int \<Rightarrow> nat \<Rightarrow> int \<times> int list \<Rightarrow> bool" where
  "recoding N i = (\<lambda>(carry, e). length e = 64 \<and> (carry = 0 \<or> carry = 1) \<and> dval 16 e + 16 ^ i * carry = N \<and>
     (\<forall>k<64. if k < i then - 8 \<le> e ! k \<and> e ! k \<le> 7 else 0 \<le> e ! k \<and> e ! k \<le> 15))"

lemma recoding_step:
  assumes "recoding N i ce" "i < 63"
  shows "recoding N (Suc i) (recode_step i ce)"
proof -
  obtain c e where ce: "ce = (c, e)" by (cases ce)
  have h: "length e = 64" "c = 0 \<or> c = 1" "dval 16 e + 16 ^ i * c = N" "0 \<le> e ! i" "e ! i \<le> 15"
    and k: "\<forall>k<64. if k < i then - 8 \<le> e ! k \<and> e ! k \<le> 7 else 0 \<le> e ! k \<and> e ! k \<le> 15"
    using assms by (auto simp: recoding_def ce)
  define x where "x = e ! i + c"
  define d where "d = (x + 8) div 16"
  have x: "0 \<le> x" "x \<le> 16" using h by (auto simp: x_def)
  have d: "(d = 0 \<or> d = 1) \<and> - 8 \<le> x - d * 16 \<and> x - d * 16 \<le> 7" using x unfolding d_def by presburger
  have "schar x = x" "schar (x + 8) = x + 8" "schar (x - d * 16) = x - d * 16" using x d by (auto intro!: schar_id)
  then have r: "recode_step i ce = (d, e[i := x - d * 16])"
    using h(1) assms(2) by (simp add: recode_step_def ce Let_def d_def x_def [symmetric])
  have "dval 16 (e[i := x - d * 16]) + 16 ^ Suc i * d = N"
    using h(1,3) assms(2) by (simp add: dval_upd x_def algebra_simps)
  moreover have "if j < Suc i then - 8 \<le> e[i := x - d * 16] ! j \<and> e[i := x - d * 16] ! j \<le> 7
      else 0 \<le> e[i := x - d * 16] ! j \<and> e[i := x - d * 16] ! j \<le> 15" if "j < 64" for j
    using spec [OF k, of j] d h(1) that by (cases "j = i") (auto simp: less_Suc_eq)
  ultimately show ?thesis using h(1) d unfolding recoding_def r prod.case length_list_update by blast
qed

lemma recoding_fold: "recoding N 0 ce \<Longrightarrow> n \<le> 63 \<Longrightarrow> recoding N n (fold recode_step [0..<n] ce)"
  by (induction n) (use recoding_step in auto)

lemma dval_nonneg: "\<forall>x \<in> set xs. 0 \<le> x \<Longrightarrow> 0 \<le> b \<Longrightarrow> 0 \<le> dval b xs"
  by (induction xs) auto

text \<open>The top nibble of a number below 2^255, and the whole conversion.\<close>

lemma recode_spec:
  assumes "length a = 32" "le_nat a < 2 ^ 255"
  shows "length (recode a) = 64 \<and> dval 16 (recode a) = int (le_nat a) \<and> (\<forall>x \<in> set (recode a). - 8 \<le> x \<and> x \<le> 8)"
proof -
  let ?n = "recode_nibbles a"
  note n = recode_nibbles_spec [OF assms(1)]
  have n1: "0 \<le> ?n ! k \<and> ?n ! k \<le> 15" if "k < 64" for k using n(1,3) that nth_mem by metis
  have "recoding (int (le_nat a)) 0 (0, ?n)" using n(1,2) n1 by (simp add: recoding_def)
  from recoding_fold [OF this, of 63]
  obtain c e where f: "fold recode_step [0..<63] (0, ?n) = (c, e)" and r: "recoding (int (le_nat a)) 63 (c, e)"
    by (metis order_refl surj_pair)
  have h: "length e = 64" "c = 0 \<or> c = 1" "dval 16 e + 16 ^ 63 * c = int (le_nat a)" "0 \<le> e ! 63"
    "\<forall>k<63. - 8 \<le> e ! k \<and> e ! k \<le> 7"
    using r by (auto simp: recoding_def split: if_splits)
  have e63: "e ! 63 = ?n ! 63"
  proof -
    have "snd (fold recode_step [0..<k] (0, ?n)) ! 63 = ?n ! 63" if "k \<le> 63" for k
      using that by (induction k) (simp_all add: recode_step_def Let_def split: prod.splits, fastforce)
    from this [of 63] show ?thesis by (simp add: f)
  qed
  have "?n = take 63 ?n @ [?n ! 63]" using n(1) take_Suc_conv_app_nth [of 63 ?n] by simp
  from arg_cong [OF this, of "dval 16"] have "dval 16 ?n = dval 16 (take 63 ?n) + 16 ^ 63 * ?n ! 63"
    using n(1) by (simp add: dval_append)
  moreover have "0 \<le> dval 16 (take 63 ?n)" using n(3) by (intro dval_nonneg) (auto dest: in_set_takeD)
  moreover have "int (le_nat a) < 2 ^ 255" using assms(2) of_nat_less_iff [of "le_nat a" "2 ^ 255", where 'a = int] by simp
  ultimately have t: "e ! 63 \<le> 7" using n(2) by (simp add: e63)
  have x: "schar (e ! 63 + c) = e ! 63 + c" using h(2,4) t by (intro schar_id) auto
  have rec: "recode a = e[63 := e ! 63 + c]" by (simp add: recode_def f x)
  have "dval 16 (recode a) = int (le_nat a)" using h(1,3) by (simp add: rec dval_upd)
  moreover have "- 8 \<le> recode a ! k \<and> recode a ! k \<le> 8" if "k < 64" for k
  proof (cases "k = 63")
    case True
    then show ?thesis using h(1,2,4) t by (auto simp: rec)
  next
    case False
    then have "k < 63" using that by simp
    then show ?thesis using h(1) spec [OF h(5), of k] by (simp add: rec)
  qed
  ultimately show ?thesis using h(1) by (auto simp: rec in_set_conv_nth)
qed

section \<open>Sliding windows\<close>

text \<open>The value of the digits below \<open>n\<close>, and from \<open>n\<close> on.\<close>

lemma dval_split: "n \<le> length r \<Longrightarrow> dval b r = dval b (take n r) + b ^ n * dval b (drop n r)"
  using dval_append [of b "take n r" "drop n r"] by simp

lemma dval_ones: "\<forall>x \<in> set r. x = 1 \<Longrightarrow> dval 2 r = 2 ^ length r - 1"
  by (induction r) auto

text \<open>A carry into bits adds \<open>2 ^ k\<close> unless all bits from \<open>k\<close> on are set.\<close>

definition bits :: "int list \<Rightarrow> bool" where
  "bits r \<longleftrightarrow> (\<forall>x \<in> set r. x = 0 \<or> x = 1)"

lemma bits_upd: "bits r \<Longrightarrow> x = 0 \<or> x = 1 \<Longrightarrow> bits (r[i := x])"
  unfolding bits_def using set_update_subset_insert [of r i x] by blast

lemma slide_carry_spec:
  assumes "length r = 256" "bits (drop k r)" "\<exists>j. k \<le> j \<and> j < 256 \<and> r ! j = 0"
  shows "length (slide_carry k r) = 256 \<and> bits (drop k (slide_carry k r)) \<and> take k (slide_carry k r) = take k r \<and>
    dval 2 (slide_carry k r) = dval 2 r + 2 ^ k"
  using assms
proof (induction k r rule: slide_carry.induct)
  case (1 k r)
  then have k: "k < 256" "\<not> 256 \<le> k" by auto
  show ?case
  proof (cases "r ! k = 0")
    case True
    then have e: "slide_carry k r = r[k := 1]" using k by (subst slide_carry.simps) simp
    show ?thesis using "1.prems"(1,2) k True by (simp add: e dval_upd drop_update_swap bits_upd)
  next
    case False
    have "r ! k \<in> set (drop k r)" using "1.prems"(1) k by (metis Cons_nth_drop_Suc list.set_intros(1))
    then have one: "r ! k = 1" using "1.prems"(2) False by (auto simp: bits_def)
    have e: "slide_carry k r = slide_carry (k + 1) (r[k := 0])" using k False by (subst slide_carry.simps) simp
    have b: "bits (drop (k + 1) (r[k := 0]))"
      using "1.prems"(2) set_drop_subset_set_drop [of k "k + 1" r] by (auto simp: bits_def)
    obtain j where j: "k \<le> j" "j < 256" "r ! j = 0" using "1.prems"(3) by blast
    then have "\<exists>j. k + 1 \<le> j \<and> j < 256 \<and> r[k := 0] ! j = 0" using False by (intro exI [of _ j]) (cases "j = k", auto)
    from "1.IH" [OF k(2) False _ b this] "1.prems"(1)
    have ih: "length (slide_carry (k + 1) (r[k := 0])) = 256" "bits (drop (k + 1) (slide_carry (k + 1) (r[k := 0])))"
      "take (k + 1) (slide_carry (k + 1) (r[k := 0])) = take (k + 1) (r[k := 0])"
      "dval 2 (slide_carry (k + 1) (r[k := 0])) = dval 2 (r[k := 0]) + 2 ^ (k + 1)" by auto
    let ?s = "slide_carry (k + 1) (r[k := 0])"
    have sk: "?s ! k = 0" using arg_cong [OF ih(3), of "\<lambda>xs. xs ! k"] "1.prems"(1) k(1) by simp
    have "drop k ?s = ?s ! k # drop (k + 1) ?s" using ih(1) k(1) by (simp add: Cons_nth_drop_Suc)
    then have "bits (drop k ?s)" using ih(2) sk by (simp add: bits_def)
    moreover have "take k ?s = take k r"
      using arg_cong [OF ih(3), of "take k"] by (simp add: min_def)
    moreover have "dval 2 ?s = dval 2 r + 2 ^ k" using ih(4) "1.prems"(1) k(1) one by (simp add: dval_upd)
    ultimately show ?thesis using ih(1) unfolding e by simp
  qed
qed

text \<open>What holds while the digit \<open>i\<close> is built: the value of the list is that of the scalar, the digit is
  odd and short, and the three bits after it are absorbed, so that the carries, which start no
  earlier than four places on, never run out of the list.\<close>

definition digit_ok :: "int \<Rightarrow> bool" where
  "digit_ok x \<longleftrightarrow> odd x \<and> - 15 \<le> x \<and> x \<le> 15"

definition building :: "int \<Rightarrow> int list \<Rightarrow> nat \<Rightarrow> nat \<Rightarrow> int list \<Rightarrow> bool" where
  "building N t i b r \<longleftrightarrow> i < 256 \<and> length r = 256 \<and> dval 2 r = N \<and> take i r = t \<and> digit_ok (r ! i) \<and>
     bits (drop (i + 1) r) \<and> (b \<le> 4 \<longrightarrow> 0 < r ! i \<and> r ! i < 2 ^ b) \<and>
     (\<forall>k. i < k \<and> k < i + b \<and> k < i + 4 \<and> k < 256 \<longrightarrow> r ! k = 0)"

lemma in_set_drop: "x \<in> set (drop n l) \<longleftrightarrow> (\<exists>i. n \<le> i \<and> i < length l \<and> l ! i = x)"
proof
  assume "x \<in> set (drop n l)"
  then obtain k where "k < length l - n" "drop n l ! k = x" by (auto simp: in_set_conv_nth)
  then show "\<exists>i. n \<le> i \<and> i < length l \<and> l ! i = x" by (intro exI [of _ "n + k"]) auto
next
  assume "\<exists>i. n \<le> i \<and> i < length l \<and> l ! i = x"
  then obtain i where "n \<le> i" "i < length l" "l ! i = x" by blast
  then show "x \<in> set (drop n l)" by (auto simp: in_set_conv_nth intro!: exI [of _ "i - n"])
qed

lemma bits_nth: "bits (drop j r) \<Longrightarrow> j \<le> k \<Longrightarrow> k < length r \<Longrightarrow> r ! k = 0 \<or> r ! k = 1"
  unfolding bits_def by (metis in_set_drop)

lemma bits_drop: "bits (drop j r) \<Longrightarrow> j \<le> k \<Longrightarrow> bits (drop k r)"
  unfolding bits_def using set_drop_subset_set_drop [of j k r] by blast

text \<open>If all bits from \<open>i + b\<close> on were set the scalar would not be below 2^255.\<close>

lemma carry_has_room:
  assumes "building N t i b r" "N < 2 ^ 255" "\<bar>dval 2 t\<bar> < 2 ^ i" "i + b < 256" "4 \<le> b" "r ! i - 2 ^ b \<ge> - 15"
  shows "\<exists>j. i + b \<le> j \<and> j < 256 \<and> r ! j = 0"
proof (rule ccontr)
  assume no: "\<not> ?thesis"
  have h: "length r = 256" "dval 2 r = N" "take i r = t" "bits (drop (i + 1) r)" using assms(1) by (auto simp: building_def)
  let ?m = "drop (i + 1) (take (i + b) r)"
  have ones: "\<forall>x \<in> set (drop (i + b) r). x = 1"
  proof
    fix x assume "x \<in> set (drop (i + b) r)"
    then obtain j where j: "i + b \<le> j" "j < 256" "r ! j = x" using h(1) by (auto simp: in_set_drop)
    then show "x = 1" using no bits_nth [OF h(4), of j] h(1) assms(5) by auto
  qed
  have "bits ?m" using h(4) unfolding bits_def by (metis drop_take in_set_takeD)
  then have m: "0 \<le> dval 2 ?m" by (intro dval_nonneg) (auto simp: bits_def)
  have "take (i + b) r = take i r @ r ! i # ?m"
    using h(1) assms(4,5) id_take_nth_drop [of i "take (i + b) r"] by (simp add: min_def)
  from arg_cong [OF this, of "dval 2"] have "dval 2 (take (i + b) r) = dval 2 t + 2 ^ i * (r ! i + 2 * dval 2 ?m)"
    using h(1) assms(4) unfolding dval_append h(3) [symmetric] by simp
  moreover have "2 ^ (i + b) * dval 2 (drop (i + b) r) = 2 ^ 256 - 2 ^ (i + b)"
  proof -
    have "dval 2 (drop (i + b) r) = 2 ^ (256 - (i + b)) - 1" using dval_ones [OF ones] h(1) by simp
    moreover have "(2::int) ^ (i + b) * 2 ^ (256 - (i + b)) = 2 ^ 256"
      using assms(4) by (simp add: power_add [symmetric])
    ultimately show ?thesis by (simp only: right_diff_distrib mult_1_right)
  qed
  moreover have "N = dval 2 (take (i + b) r) + 2 ^ (i + b) * dval 2 (drop (i + b) r)"
    using dval_split [of "i + b" r 2] h(1,2) assms(4) by simp
  ultimately have "N = dval 2 t + 2 ^ i * (r ! i + 2 * dval 2 ?m) + (2 ^ 256 - 2 ^ (i + b))" by (simp only:)
  then have N: "N = dval 2 t + 2 ^ i * (r ! i - 2 ^ b) + 2 ^ i * (2 * dval 2 ?m) + 2 ^ 256"
    by (simp add: power_add right_diff_distrib distrib_left)
  have "2 ^ i * (- 15) \<le> 2 ^ i * (r ! i - 2 ^ b)" using assms(6) by (intro mult_left_mono) simp_all
  moreover have "0 \<le> 2 ^ i * (2 * dval 2 ?m)" using m by simp
  moreover have "(2::int) ^ i \<le> 2 ^ 251" using assms(4,5) by (intro power_increasing) simp_all
  ultimately have "2 ^ 256 - 2 ^ 255 \<le> N" using assms(3) unfolding N by simp
  then show False using assms(2) by simp
qed

lemma full_digit_late:
  assumes "building N t i b r" "\<not> r ! i + 2 ^ b \<le> 15"
  shows "4 \<le> b"
proof (rule ccontr)
  assume b: "\<not> 4 \<le> b"
  then have "(2::int) ^ b \<le> 2 ^ 3" by (intro power_increasing) auto
  moreover have "r ! i < 2 ^ b" using assms(1) b by (simp add: building_def)
  ultimately show False using assms(2) by simp
qed

lemma slide_digit_spec:
  assumes "building N t i b r" "N < 2 ^ 255" "\<bar>dval 2 t\<bar> < 2 ^ i" "1 \<le> b"
  shows "building N t i 7 (slide_digit i b r)"
  using assms
proof (induction i b r rule: slide_digit.induct)
  case (1 i b r)
  note h = "1.prems"(1) [unfolded building_def]
  show ?case
  proof (cases "b \<le> 6 \<and> i + b < 256")
    case False
    then have "slide_digit i b r = r" by (subst slide_digit.simps) auto
    moreover have "\<forall>k. i < k \<and> k < i + 7 \<and> k < i + 4 \<and> k < 256 \<longrightarrow> r ! k = 0" using h False by auto
    ultimately show ?thesis using h by (simp add: building_def)
  next
    case b: True
    let ?x = "2 ^ b :: int"
    have hb: "bits (drop (i + 1) r)" using h by blast
    have x0: "0 < ?x" by simp
    have d15: "- 15 \<le> r ! i" "r ! i \<le> 15" using h by (auto simp: digit_ok_def)
    have d15x: "- 15 \<le> r ! i + ?x" "r ! i - ?x \<le> 15" using d15 x0 by linarith+
    have ev: "even ?x" using "1.prems"(4) by simp
    consider "r ! (i + b) = 0" | "r ! (i + b) = 1" using bits_nth [of "i + 1" r "i + b"] h b "1.prems"(4) by auto
    then show ?thesis
    proof cases
      case 1
      then have e: "slide_digit i b r = slide_digit i (b + 1) r" using b by (subst slide_digit.simps) simp
      have "building N t i (b + 1) r" using h 1 by (auto simp: building_def less_Suc_eq)
      then show ?thesis unfolding e using "1.IH"(3) b 1 "1.prems" by simp
    next
      case one: 2
      have i: "i < 256" "i < length r" using h by simp_all
      consider "r ! i + ?x \<le> 15" | "\<not> r ! i + ?x \<le> 15" "r ! i - ?x \<ge> - 15" | "\<not> r ! i + ?x \<le> 15" "\<not> r ! i - ?x \<ge> - 15"
        by blast
      then show ?thesis
      proof cases
        case 1
        let ?r = "r[i := r ! i + ?x, i + b := 0]"
        have s: "schar (r ! i + ?x) = r ! i + ?x" using d15 x0 1 by (intro schar_id) linarith+
        have e: "slide_digit i b r = slide_digit i (b + 1) ?r" using b one 1 s by (subst slide_digit.simps) simp
        have "building N t i (b + 1) ?r"
          using h b 1 one ev "1.prems"(4) d15x
          by (auto simp: building_def digit_ok_def dval_upd nth_list_update power_add drop_update_swap bits_upd)
        then show ?thesis unfolding e using "1.IH"(1) b one 1 s "1.prems" by simp
      next
        case 2
        note b4 = full_digit_late [OF "1.prems"(1) 2(1)]
        let ?r = "r[i := r ! i - ?x]"
        have s: "schar (r ! i - ?x) = r ! i - ?x" using d15 x0 2 by (intro schar_id) linarith+
        have e: "slide_digit i b r = slide_digit i (b + 1) (slide_carry (i + b) ?r)"
          using b one 2 s by (subst slide_digit.simps) simp
        obtain j where j: "i + b \<le> j" "j < 256" "r ! j = 0"
          using carry_has_room [OF "1.prems"(1-3)] b b4 2(2) by blast
        have d: "drop (i + b) ?r = drop (i + b) r" using "1.prems"(4) by simp
        have "bits (drop (i + b) ?r)" unfolding d by (rule bits_drop [OF hb]) (use "1.prems"(4) in simp)
        moreover have "i \<noteq> j" using j(1) b4 by simp
        then have "\<exists>j. i + b \<le> j \<and> j < 256 \<and> ?r ! j = 0" using j by (intro exI [of _ j]) simp
        ultimately have c: "length (slide_carry (i + b) ?r) = 256" "bits (drop (i + b) (slide_carry (i + b) ?r))"
          "take (i + b) (slide_carry (i + b) ?r) = take (i + b) ?r"
          "dval 2 (slide_carry (i + b) ?r) = dval 2 ?r + 2 ^ (i + b)"
          using slide_carry_spec [of ?r "i + b"] h by auto
        let ?s = "slide_carry (i + b) ?r"
        have same: "?s ! k = ?r ! k" if "k < i + b" for k
          using arg_cong [OF c(3), of "\<lambda>xs. xs ! k"] that by simp
        have "bits (drop (i + 1) ?s)"
          unfolding bits_def
        proof
          fix x assume "x \<in> set (drop (i + 1) ?s)"
          then obtain k where k: "i + 1 \<le> k" "k < 256" "?s ! k = x" using c(1) by (auto simp: in_set_drop)
          show "x = 0 \<or> x = 1"
          proof (cases "k < i + b")
            case True
            then show ?thesis using k same [OF True] bits_nth [of "i + 1" r k] h by auto
          next
            case False
            then show ?thesis using k bits_nth [OF c(2), of k] c(1) by auto
          qed
        qed
        moreover have "take i ?s = take i r" using arg_cong [OF c(3), of "take i"] by (simp add: min_def)
        moreover have "?s ! i = r ! i - ?x" using same [of i] "1.prems"(4) i by simp
        ultimately have "building N t i (b + 1) ?s"
          using h b b4 2 ev c(1,4) same i d15x by (auto simp: building_def digit_ok_def dval_upd power_add algebra_simps)
        then show ?thesis unfolding e using "1.IH"(2) b one 2 s "1.prems" by simp
      next
        case 3
        note b4 = full_digit_late [OF "1.prems"(1) 3(1)]
        have e: "slide_digit i b r = r" using b one 3 by (subst slide_digit.simps) simp
        show ?thesis using h b4 unfolding e by (auto simp: building_def)
      qed
    qed
  qed
qed

text \<open>The bits of the scalar.\<close>

lemma bit_le_nat: "i < 8 * length s \<Longrightarrow> bit (le_nat s) i = bit (s ! (i div 8)) (i mod 8)"
proof (induction s arbitrary: i)
  case (Cons x s)
  have t: "take_bit 8 (le_nat (x # s)) = unat x" using unat_u8_less [of x] by (simp add: take_bit_eq_mod)
  have d: "drop_bit 8 (le_nat (x # s)) = le_nat s" using unat_u8_less [of x] by (simp add: drop_bit_eq_div)
  show ?case
  proof (cases "i < 8")
    case True
    then have "bit (le_nat (x # s)) i = bit (take_bit 8 (le_nat (x # s))) i" by (simp add: bit_take_bit_iff)
    also have "\<dots> = bit x i" unfolding t using True by (simp add: bit_simps)
    finally show ?thesis using True by simp
  next
    case False
    then have "bit (le_nat (x # s)) i = bit (drop_bit 8 (le_nat (x # s))) (i - 8)" by (simp add: bit_drop_bit_eq)
    also have "\<dots> = bit (s ! ((i - 8) div 8)) ((i - 8) mod 8)" unfolding d using False Cons by simp
    finally show ?thesis using False by (simp add: le_div_geq le_mod_geq)
  qed
qed simp

lemma dval_bits: "dval 2 (map (\<lambda>i. of_bool (bit N i)) [0..<n]) = int (take_bit n N)"
  by (induction n) (simp_all add: dval_append take_bit_Suc_from_most)

lemma slide_bits_eq:
  assumes "length a = 32"
  shows "slide_bits a = map (\<lambda>i. of_bool (bit (le_nat a) i)) [0..<256]"
proof -
  have "uint (1 AND drop_bit j x) = of_bool (bit x j)" for j and x :: u8
  proof -
    have "1 AND drop_bit j x = of_bool (bit x j)"
      by (rule bit_word_eqI) (auto simp: bit_simps)
    then show ?thesis by simp
  qed
  then show ?thesis unfolding slide_bits_def using assms by (simp add: bit_le_nat)
qed

definition sliding :: "int \<Rightarrow> nat \<Rightarrow> int list \<Rightarrow> bool" where
  "sliding N i r \<longleftrightarrow> length r = 256 \<and> dval 2 r = N \<and> bits (drop i r) \<and> (\<forall>k<i. r ! k = 0 \<or> digit_ok (r ! k)) \<and>
     (\<exists>m\<ge>i. \<bar>dval 2 (take i r)\<bar> < 2 ^ m \<and> (\<forall>k. i \<le> k \<and> k < m \<and> k < 256 \<longrightarrow> r ! k = 0))"

lemma sliding_step:
  assumes "sliding N i r" "i < 256" "N < 2 ^ 255"
  shows "sliding N (Suc i) (if r ! i \<noteq> 0 then slide_digit i 1 r else r)"
proof -
  obtain m where m: "i \<le> m" "\<bar>dval 2 (take i r)\<bar> < 2 ^ m" "\<forall>k. i \<le> k \<and> k < m \<and> k < 256 \<longrightarrow> r ! k = 0"
    using assms(1) by (auto simp: sliding_def)
  have h: "length r = 256" "dval 2 r = N" "bits (drop i r)" "\<forall>k<i. r ! k = 0 \<or> digit_ok (r ! k)"
    using assms(1) by (auto simp: sliding_def)
  have hb: "bits (drop (i + 1) r)" by (rule bits_drop [OF h(3)]) simp
  show ?thesis
  proof (cases "r ! i = 0")
    case True
    have t: "take (Suc i) r = take i r @ [0]" using h(1) assms(2) True by (simp add: take_Suc_conv_app_nth)
    have "\<exists>m\<ge>Suc i. \<bar>dval 2 (take (Suc i) r)\<bar> < 2 ^ m \<and> (\<forall>k. Suc i \<le> k \<and> k < m \<and> k < 256 \<longrightarrow> r ! k = 0)"
    proof (cases "m = i")
      case True
      then show ?thesis using m by (intro exI [of _ "Suc i"]) (simp add: t dval_append)
    next
      case False
      then show ?thesis using m by (intro exI [of _ m]) (simp add: t dval_append)
    qed
    moreover have "\<forall>k<Suc i. r ! k = 0 \<or> digit_ok (r ! k)" using h(4) True by (simp add: less_Suc_eq)
    ultimately show ?thesis using h(1,2) hb True by (simp add: sliding_def)
  next
    case False
    have "m = i" using m False assms(2) by (metis le_neq_implies_less order_refl)
    then have P: "\<bar>dval 2 (take i r)\<bar> < 2 ^ i" using m(2) by simp
    have "r ! i = 1" using bits_nth [OF h(3), of i] False h(1) assms(2) by simp
    then have "building N (take i r) i 1 r" using h hb assms(2) by (simp add: building_def digit_ok_def)
    from slide_digit_spec [OF this assms(3) P] have "building N (take i r) i 7 (slide_digit i 1 r)" by simp
    then have d: "length (slide_digit i 1 r) = 256" "dval 2 (slide_digit i 1 r) = N" "take i (slide_digit i 1 r) = take i r"
      "digit_ok (slide_digit i 1 r ! i)" "bits (drop (i + 1) (slide_digit i 1 r))"
      "\<forall>k. i < k \<and> k < i + 4 \<and> k < 256 \<longrightarrow> slide_digit i 1 r ! k = 0"
      by (auto simp: building_def)
    let ?s = "slide_digit i 1 r"
    have "?s ! k = r ! k" if "k < i" for k using arg_cong [OF d(3), of "\<lambda>xs. xs ! k"] that by simp
    then have ok: "\<forall>k<Suc i. ?s ! k = 0 \<or> digit_ok (?s ! k)" using h(4) d(4) by (auto simp: less_Suc_eq)
    have "dval 2 (take (Suc i) ?s) = dval 2 (take i r) + 2 ^ i * ?s ! i"
      using d(1,3) h(1) assms(2) by (simp add: take_Suc_conv_app_nth dval_append)
    moreover have "2 ^ i * (- 15) \<le> 2 ^ i * ?s ! i" "2 ^ i * ?s ! i \<le> 2 ^ i * 15"
      using d(4) by (simp_all only: digit_ok_def mult_le_cancel_left_pos zero_less_power zero_less_numeral)
    moreover have "(2::int) ^ (i + 4) = 2 ^ i * 16" by (simp add: power_add)
    ultimately have "\<bar>dval 2 (take (Suc i) ?s)\<bar> < 2 ^ (i + 4)" using P by linarith
    then have "\<exists>m\<ge>Suc i. \<bar>dval 2 (take (Suc i) ?s)\<bar> < 2 ^ m \<and> (\<forall>k. Suc i \<le> k \<and> k < m \<and> k < 256 \<longrightarrow> ?s ! k = 0)"
      using d(6) by (intro exI [of _ "i + 4"]) auto
    then show ?thesis using d(1,2,5) ok False by (simp add: sliding_def)
  qed
qed

lemma slide_spec:
  assumes "length a = 32" "le_nat a < 2 ^ 255"
  shows "length (slide a) = 256 \<and> dval 2 (slide a) = int (le_nat a) \<and> (\<forall>x \<in> set (slide a). x = 0 \<or> digit_ok x)"
proof -
  have N: "int (le_nat a) < 2 ^ 255" using assms(2) of_nat_less_iff [of "le_nat a" "2 ^ 255", where 'a = int] by simp
  have "le_nat a < 2 ^ 256" using assms(2) by simp
  then have "dval 2 (slide_bits a) = int (le_nat a)"
    unfolding slide_bits_eq [OF assms(1)] dval_bits by (simp add: take_bit_nat_eq_self)
  moreover have "bits (slide_bits a)" "length (slide_bits a) = 256" by (auto simp: bits_def slide_bits_eq [OF assms(1)])
  ultimately have "sliding (int (le_nat a)) 0 (slide_bits a)" by (auto simp: sliding_def)
  then have "sliding (int (le_nat a)) n (fold (\<lambda>i r. if r ! i \<noteq> 0 then slide_digit i 1 r else r) [0..<n] (slide_bits a))" if "n \<le> 256" for n
    using that sliding_step [OF _ _ N] by (induction n) auto
  from this [of 256] have "sliding (int (le_nat a)) 256 (slide a)" by (simp add: slide_def)
  then show ?thesis by (auto simp: sliding_def in_set_conv_nth)
qed

section \<open>Selection\<close>

text \<open>Entries with short limbs; the bounds of the tables.\<close>

definition precomp_ok :: "ge_precomp \<Rightarrow> bool" where
  "precomp_ok q \<longleftrightarrow> fe_bound 33554432 16777216 (yplusx q) \<and> fe_bound 33554432 16777216 (yminusx q) \<and>
     fe_bound 33554432 16777216 (xy2d q)"

lemma precomp_ok_precomp:
  "precomp_ok (precomp a b c) \<longleftrightarrow> fe_bound 33554432 16777216 a \<and> fe_bound 33554432 16777216 b \<and> fe_bound 33554432 16777216 c"
  by (simp add: precomp_ok_def precomp_def)

lemma fe_bound_ten: "fe_bound A B [x0, x1, x2, x3, x4, x5, x6, x7, x8, x9] \<longleftrightarrow>
    \<bar>sint x0\<bar> \<le> A \<and> \<bar>sint x1\<bar> \<le> B \<and> \<bar>sint x2\<bar> \<le> A \<and> \<bar>sint x3\<bar> \<le> B \<and> \<bar>sint x4\<bar> \<le> A \<and> \<bar>sint x5\<bar> \<le> B \<and>
    \<bar>sint x6\<bar> \<le> A \<and> \<bar>sint x7\<bar> \<le> B \<and> \<bar>sint x8\<bar> \<le> A \<and> \<bar>sint x9\<bar> \<le> B"
  by (simp add: fe_bound_def bounded_def)

definition neutral :: ge_precomp where
  "neutral = \<lparr>yplusx = fe_1, yminusx = fe_1, xy2d = fe_0\<rparr>"

definition opposite :: "ge_precomp \<Rightarrow> ge_precomp" where
  "opposite t = \<lparr>yplusx = yminusx t, yminusx = yplusx t, xy2d = fe_neg (xy2d t)\<rparr>"

definition tens :: "ge_precomp \<Rightarrow> bool" where
  "tens q \<longleftrightarrow> length (yplusx q) = 10 \<and> length (yminusx q) = 10 \<and> length (xy2d q) = 10"

lemma tens_ok: "precomp_ok q \<Longrightarrow> tens q" "tens neutral" "tens t \<Longrightarrow> tens (opposite t)"
  by (auto simp: tens_def precomp_ok_def neutral_def opposite_def fe_0_def fe_1_def fe_neg_def fe_bound_length)

lemma ge_cmov_choice:
  assumes "tens t" "tens u"
  shows "ge_cmov t u 0 = t" "ge_cmov t u 1 = u"
  using assms fe_moves_correct by (auto simp: ge_cmov_def tens_def)

text \<open>The selection for every digit, evaluated.\<close>

lemma select_spec:
  assumes "list_all tens (base_table ! pos)" "length (base_table ! pos) = 8" "- 8 \<le> b" "b \<le> 8"
  shows "select pos b =
    (if b = 0 then neutral else if 0 < b then base_table ! pos ! nat (b - 1) else opposite (base_table ! pos ! nat (- b - 1)))"
proof -
  have t: "tens (base_table ! pos ! j)" if "j < 8" for j using assms(1,2) that by (simp add: list_all_length)
  note t [of 0, simp] t [of "Suc 0", simp] t [of 2, simp] t [of 3, simp] t [of 4, simp] t [of 5, simp] t [of 6, simp] t [of 7, simp]
    tens_ok(2,3) [simp]
  have "b \<in> {- 8, - 7, - 6, - 5, - 4, - 3, - 2, - 1, 0, 1, 2, 3, 4, 5, 6, 7, 8}" 
    using assms(3,4) unfolding insert_iff empty_iff by presburger
  then show ?thesis
    by (elim insertE emptyE)
      (simp_all add: select_def Let_def negative_def ge_equal_def neutral_def [symmetric] fe_copy_def opposite_def [symmetric]
        ge_cmov_choice)
qed

end
