(* ===== verification/GePoints.thy ===== *)
theory GePoints
  imports GeDigits
begin

text \<open>
  The point formulas as integer formulas: \<open>represents a b f x\<close> says that the element \<open>f\<close> stands for \<open>x\<close>
  modulo 2^255 - 19 and has limbs of at most \<open>a\<close> and \<open>b\<close>; each field operation has a rule, and the rules
  follow the code of a point operation.  Then the same in affine coordinates: the operations compute
  sums on the curve.
\<close>

section \<open>Elements and the integers they stand for\<close>

definition represents :: "int \<Rightarrow> int \<Rightarrow> fe \<Rightarrow> int \<Rightarrow> bool" where
  "represents a b f x \<longleftrightarrow> fe_bound a b f \<and> fe_val f mod fe_p = x mod fe_p"

text \<open>Limbs short enough for a sum to be multiplied, those of a product, and those a factor may have.\<close>

abbreviation short :: "fe \<Rightarrow> int \<Rightarrow> bool" where
  "short \<equiv> represents 36909875 18454937"

abbreviation tight :: "fe \<Rightarrow> int \<Rightarrow> bool" where
  "tight \<equiv> represents 33889976 16944988"

abbreviation broad :: "fe \<Rightarrow> int \<Rightarrow> bool" where
  "broad \<equiv> represents 110729625 55364812"

lemma represents_mono: "represents a b f x \<Longrightarrow> a \<le> a' \<Longrightarrow> b \<le> b' \<Longrightarrow> represents a' b' f x"
  by (auto simp: represents_def elim: fe_bound_mono)

lemma represents_cong: "represents a b f x \<Longrightarrow> x mod fe_p = y mod fe_p \<Longrightarrow> represents a b f y"
  by (simp add: represents_def)

lemma fe_sum_bound:
  assumes "fe_bound a b f" "fe_bound a' b' g" "a + a' < 2 ^ 31" "b + b' < 2 ^ 31"
  shows "fe_val (fe_add f g) = fe_val f + fe_val g \<and> fe_bound (a + a') (b + b') (fe_add f g) \<and>
    fe_val (fe_sub f g) = fe_val f - fe_val g \<and> fe_bound (a + a') (b + b') (fe_sub f g)"
proof -
  have len: "length f = 10" "length g = 10" using assms(1,2) by (simp_all add: fe_bound_length)
  have b: "\<bar>sint (f ! i)\<bar> \<le> (if even i then a else b)" "\<bar>sint (g ! i)\<bar> \<le> (if even i then a' else b')" if "i < 10" for i
    using that assms(1,2) by (simp_all add: fe_bound_conv)
  have c: "(if even i then a else b) + (if even i then a' else b') < 2 ^ 31" for i using assms(3,4) by simp
  have s: "sint (f ! i + g ! i) = sint (f ! i) + sint (g ! i)" "sint (f ! i - g ! i) = sint (f ! i) - sint (g ! i)" if "i < 10" for i
    using b [OF that] c [of i] sint_add_32 [of "f ! i" "g ! i"] sint_sub_32 [of "f ! i" "g ! i"] by linarith+
  have t: "\<bar>sint (f ! i) + sint (g ! i)\<bar> \<le> (if even i then a + a' else b + b')"
      "\<bar>sint (f ! i) - sint (g ! i)\<bar> \<le> (if even i then a + a' else b + b')" if "i < 10" for i
    using b [OF that] by (auto split: if_splits)
  have "fe_val (fe_add f g) = 1 * fe_val f + 1 * fe_val g" "fe_val (fe_sub f g) = 1 * fe_val f + (- 1) * fe_val g"
    unfolding fe_val_def by (rule limbs_val_cong; simp add: fe_add_def fe_sub_def len s)+
  moreover have "fe_bound (a + a') (b + b') (fe_add f g)" "fe_bound (a + a') (b + b') (fe_sub f g)"
    using t by (simp_all add: fe_bound_conv fe_add_def fe_sub_def len s)
  ultimately show ?thesis by simp
qed

lemma represents_add:
  assumes "represents a b f x" "represents a' b' g y" "a + a' < 2 ^ 31" "b + b' < 2 ^ 31"
  shows "represents (a + a') (b + b') (fe_add f g) (x + y)"
  using assms fe_sum_bound [of a b f a' b' g] by (auto simp: represents_def intro: mod_add_cong)

lemma represents_sub:
  assumes "represents a b f x" "represents a' b' g y" "a + a' < 2 ^ 31" "b + b' < 2 ^ 31"
  shows "represents (a + a') (b + b') (fe_sub f g) (x - y)"
  using assms fe_sum_bound [of a b f a' b' g] by (auto simp: represents_def intro: mod_diff_cong)

lemma represents_neg:
  assumes "short f x" shows "short (fe_neg f) (- x)"
  using assms fe_add_sub_correct [of f f] mod_minus_eq [of "fe_val f" fe_p] mod_minus_eq [of x fe_p]
  by (simp add: represents_def)

lemma represents_mul: "broad f x \<Longrightarrow> broad g y \<Longrightarrow> tight (fe_mul f g) (x * y)"
  using fe_mul_correct [of f g] by (auto simp: represents_def intro: mod_mult_cong)

lemma represents_sq: "broad f x \<Longrightarrow> tight (fe_sq f) (x * x)"
  using represents_mul [of f x f x] fe_sq_is_mul [of f] by (simp add: represents_def)

lemma represents_sq2: "broad f x \<Longrightarrow> tight (fe_sq2 f) (2 * (x * x))"
  using fe_sq2_correct [of f]
  by (auto simp: represents_def power2_eq_square intro!: mod_mult_cong)

lemma represents_mul121666:
  assumes "represents 73819750 36909875 f x" shows "short (fe_mul121666 f) (121666 * x)"
  using assms fe_mul121666_correct [of f] by (auto simp: represents_def intro!: mod_mult_cong)

text \<open>The inverse, by Fermat's theorem.\<close>

definition inverse_power :: "int \<Rightarrow> int" where
  "inverse_power x = x ^ (2 ^ 255 - 21)"

lemma represents_invert: "broad z x \<Longrightarrow> broad (fe_invert z) (inverse_power x)"
proof -
  assume z: "broad z x"
  have c: "fe_val z ^ n mod fe_p = x ^ n mod fe_p" for n
    using z power_mod [of "fe_val z" fe_p n] power_mod [of x fe_p n] by (simp add: represents_def)
  have b: "fe_bound 110729625 55364812 z" using z by (simp add: represents_def)
  show ?thesis
    unfolding represents_def inverse_power_def using fe_invert_correct [OF b] c [of "2 ^ 255 - 21"] by (intro conjI) (erule conjunct2, simp only:)
qed

lemma represents_0: "0 \<le> a \<Longrightarrow> 0 \<le> b \<Longrightarrow> represents a b fe_0 0"
  by (simp add: represents_def fe_0_def fe_bound_ten fe_val_def limbs_val_def sum_10 limb_weight_def)

lemma represents_1: "1 \<le> a \<Longrightarrow> 0 \<le> b \<Longrightarrow> represents a b fe_1 1"
  by (simp add: represents_def fe_1_def fe_bound_ten fe_val_def limbs_val_def sum_10 limb_weight_def)

lemma represents_frombytes: "length s = 32 \<Longrightarrow> short (fe_frombytes s) (int (le_nat s mod 2 ^ 255))"
  using fe_frombytes_correct [of s] by (simp add: represents_def)

lemma represents_tobytes: "represents 73819750 36909875 f x \<Longrightarrow> fe_tobytes f = le_bytes 32 (nat (x mod fe_p))"
  using fe_tobytes_correct [of f] by (simp add: represents_def)

lemma represents_broad: "represents a b f x \<Longrightarrow> a \<le> 110729625 \<Longrightarrow> b \<le> 55364812 \<Longrightarrow> broad f x"
  by (rule represents_mono)

section \<open>Points by their coordinates\<close>

definition p2_is :: "ge_p2 \<Rightarrow> int \<Rightarrow> int \<Rightarrow> int \<Rightarrow> bool" where
  "p2_is p X Y Z \<longleftrightarrow> short (p2_X p) X \<and> short (p2_Y p) Y \<and> short (p2_Z p) Z"

definition p3_is :: "ge_p3 \<Rightarrow> int \<Rightarrow> int \<Rightarrow> int \<Rightarrow> int \<Rightarrow> bool" where
  "p3_is p X Y Z T \<longleftrightarrow> short (p3_X p) X \<and> short (p3_Y p) Y \<and> short (p3_Z p) Z \<and> short (p3_T p) T"

definition p1_is :: "ge_p1p1 \<Rightarrow> int \<Rightarrow> int \<Rightarrow> int \<Rightarrow> int \<Rightarrow> bool" where
  "p1_is p X Y Z T \<longleftrightarrow> broad (p1_X p) X \<and> broad (p1_Y p) Y \<and> broad (p1_Z p) Z \<and> broad (p1_T p) T"

definition pc_is :: "ge_precomp \<Rightarrow> int \<Rightarrow> int \<Rightarrow> int \<Rightarrow> bool" where
  "pc_is q yp ym t \<longleftrightarrow> short (yplusx q) yp \<and> short (yminusx q) ym \<and> short (xy2d q) t"

definition ca_is :: "ge_cached \<Rightarrow> int \<Rightarrow> int \<Rightarrow> int \<Rightarrow> int \<Rightarrow> bool" where
  "ca_is q yp ym Z t \<longleftrightarrow> broad (YplusX q) yp \<and> broad (YminusX q) ym \<and> short (ca_Z q) Z \<and> short (T2d q) t"

text \<open>The rules applied from the result backwards; the bounds are computed on the way.\<close>

lemmas represents_rules =
  represents_mul represents_sq represents_sq2 represents_add represents_sub

lemma to_short: "tight f x \<Longrightarrow> short f x"
  by (erule represents_mono) simp_all

lemma ge_d2_value: "represents 33554432 16777216 ge_d2 (fe_val ge_d2)"
  by (simp add: represents_def ge_d2_def fe_bound_ten)

lemma p1p1_to_p2_is:
  assumes "p1_is p X Y Z T" shows "p2_is (ge_p1p1_to_p2 p) (X * T) (Y * Z) (Z * T)"
  using assms by (auto simp: p1_is_def p2_is_def ge_p1p1_to_p2_def intro!: to_short represents_mul)

lemma p1p1_to_p3_is:
  assumes "p1_is p X Y Z T" shows "p3_is (ge_p1p1_to_p3 p) (X * T) (Y * Z) (Z * T) (X * Y)"
  using assms by (auto simp: p1_is_def p3_is_def ge_p1p1_to_p3_def intro!: to_short represents_mul)

lemma p3_to_p2_is: "p3_is p X Y Z T \<Longrightarrow> p2_is (ge_p3_to_p2 p) X Y Z"
  by (simp add: p3_is_def p2_is_def ge_p3_to_p2_def fe_copy_def)

lemma neutral_points: "p2_is ge_p2_0 0 1 1" "p3_is ge_p3_0 0 1 1 0" "pc_is neutral 1 1 0"
  by (simp_all add: p2_is_def p3_is_def pc_is_def ge_p2_0_def ge_p3_0_def neutral_def represents_0 represents_1)

lemma p3_to_cached_is:
  assumes "p3_is p X Y Z T" shows "ca_is (ge_p3_to_cached p) (Y + X) (Y - X) Z (T * fe_val ge_d2)"
proof -
  have s: "short (p3_X p) X" "short (p3_Y p) Y" "short (p3_Z p) Z" "short (p3_T p) T" using assms by (auto simp: p3_is_def)
  have "broad (fe_add (p3_Y p) (p3_X p)) (Y + X)" "broad (fe_sub (p3_Y p) (p3_X p)) (Y - X)"
    using represents_add [OF s(2,1)] represents_sub [OF s(2,1)] by (auto elim: represents_broad)
  moreover have "tight (fe_mul (p3_T p) ge_d2) (T * fe_val ge_d2)"
    using s(4) ge_d2_value by (intro represents_mul) (auto elim: represents_broad)
  ultimately show ?thesis using s(3) by (simp add: ca_is_def ge_p3_to_cached_def fe_copy_def to_short)
qed

text \<open>The common part of the four additions: \<open>a\<close>, \<open>b\<close> the factors, \<open>c\<close> the double of the product of
  the \<open>Z\<close>, \<open>t\<close> the product of the \<open>T\<close>.\<close>

lemma addition_parts:
  assumes "short Xf X" "short Yf Y" "broad a A" "broad b B" "tight t T" "represents 73819750 36909874 c C"
  defines "z \<equiv> fe_mul (fe_add Yf Xf) a" and "y \<equiv> fe_mul (fe_sub Yf Xf) b"
  shows "broad (fe_sub z y) ((Y + X) * A - (Y - X) * B)" "broad (fe_add z y) ((Y + X) * A + (Y - X) * B)"
    "broad (fe_add c t) (C + T)" "broad (fe_sub c t) (C - T)"
proof -
  have "broad (fe_add Yf Xf) (Y + X)" "broad (fe_sub Yf Xf) (Y - X)"
    using represents_add [OF assms(2,1)] represents_sub [OF assms(2,1)] by (auto elim: represents_broad)
  then have zy: "tight z ((Y + X) * A)" "tight y ((Y - X) * B)"
    unfolding z_def y_def using assms(3,4) by (auto intro: represents_mul)
  show "broad (fe_sub z y) ((Y + X) * A - (Y - X) * B)" "broad (fe_add z y) ((Y + X) * A + (Y - X) * B)"
    using represents_add [OF zy] represents_sub [OF zy] by (auto elim: represents_broad)
  show "broad (fe_add c t) (C + T)" "broad (fe_sub c t) (C - T)"
    using represents_add [OF assms(6,5)] represents_sub [OF assms(6,5)] by (auto elim: represents_broad)
qed

lemma twice_sum: "short f x \<Longrightarrow> represents 73819750 36909874 (fe_add f f) (2 * x)"
  using represents_add [of 36909875 18454937 f x 36909875 18454937 f x] by simp

lemma ge_add_is:
  assumes "p3_is p X Y Z T" "ca_is q A B Z' T'"
  shows "p1_is (ge_add p q) ((Y + X) * A - (Y - X) * B) ((Y + X) * A + (Y - X) * B) (2 * (Z * Z') + T' * T) (2 * (Z * Z') - T' * T)"
    "p1_is (ge_sub p q) ((Y + X) * B - (Y - X) * A) ((Y + X) * B + (Y - X) * A) (2 * (Z * Z') - T' * T) (2 * (Z * Z') + T' * T)"
proof -
  have s: "short (p3_X p) X" "short (p3_Y p) Y" "short (p3_Z p) Z" "short (p3_T p) T" using assms(1) by (auto simp: p3_is_def)
  have c: "broad (YplusX q) A" "broad (YminusX q) B" "short (ca_Z q) Z'" "short (T2d q) T'" using assms(2) by (auto simp: ca_is_def)
  have z: "represents 73819750 36909874 (fe_add (fe_mul (p3_Z p) (ca_Z q)) (fe_mul (p3_Z p) (ca_Z q))) (2 * (Z * Z'))"
    using s(3) c(3) by (intro twice_sum to_short represents_mul) (auto elim: represents_broad)
  have t: "tight (fe_mul (T2d q) (p3_T p)) (T' * T)" using s(4) c(4) by (intro represents_mul) (auto elim: represents_broad)
  show "p1_is (ge_add p q) ((Y + X) * A - (Y - X) * B) ((Y + X) * A + (Y - X) * B) (2 * (Z * Z') + T' * T) (2 * (Z * Z') - T' * T)"
    using addition_parts [OF s(1,2) c(1,2) t z] by (simp add: p1_is_def ge_add_def Let_def)
  show "p1_is (ge_sub p q) ((Y + X) * B - (Y - X) * A) ((Y + X) * B + (Y - X) * A) (2 * (Z * Z') - T' * T) (2 * (Z * Z') + T' * T)"
    using addition_parts [OF s(1,2) c(2,1) t z] by (simp add: p1_is_def ge_sub_def Let_def)
qed

lemma ge_madd_is:
  assumes "p3_is p X Y Z T" "pc_is q A B T'"
  shows "p1_is (ge_madd p q) ((Y + X) * A - (Y - X) * B) ((Y + X) * A + (Y - X) * B) (2 * Z + T' * T) (2 * Z - T' * T)"
    "p1_is (ge_msub p q) ((Y + X) * B - (Y - X) * A) ((Y + X) * B + (Y - X) * A) (2 * Z - T' * T) (2 * Z + T' * T)"
proof -
  have s: "short (p3_X p) X" "short (p3_Y p) Y" "short (p3_Z p) Z" "short (p3_T p) T" using assms(1) by (auto simp: p3_is_def)
  have c: "broad (yplusx q) A" "broad (yminusx q) B" "short (xy2d q) T'"
    using assms(2) by (auto simp: pc_is_def elim: represents_broad)
  have t: "tight (fe_mul (xy2d q) (p3_T p)) (T' * T)" using s(4) c(3) by (intro represents_mul) (auto elim: represents_broad)
  show "p1_is (ge_madd p q) ((Y + X) * A - (Y - X) * B) ((Y + X) * A + (Y - X) * B) (2 * Z + T' * T) (2 * Z - T' * T)"
    using addition_parts [OF s(1,2) c(1,2) t twice_sum [OF s(3)]] by (simp add: p1_is_def ge_madd_def Let_def)
  show "p1_is (ge_msub p q) ((Y + X) * B - (Y - X) * A) ((Y + X) * B + (Y - X) * A) (2 * Z - T' * T) (2 * Z + T' * T)"
    using addition_parts [OF s(1,2) c(2,1) t twice_sum [OF s(3)]] by (simp add: p1_is_def ge_msub_def Let_def)
qed

lemma ge_p2_dbl_is:
  assumes "p2_is p X Y Z"
  shows "p1_is (ge_p2_dbl p) ((X + Y) * (X + Y) - (Y * Y + X * X)) (Y * Y + X * X) (Y * Y - X * X) (2 * (Z * Z) - (Y * Y - X * X))"
proof -
  have s: "broad (p2_X p) X" "broad (p2_Y p) Y" "broad (p2_Z p) Z" using assms by (auto simp: p2_is_def elim: represents_broad)
  have xy: "broad (fe_add (p2_X p) (p2_Y p)) (X + Y)"
    using assms represents_add [of 36909875 18454937 "p2_X p" X 36909875 18454937 "p2_Y p" Y]
    by (auto simp: p2_is_def elim: represents_broad)
  note q = represents_sq [OF s(1)] represents_sq [OF s(2)] represents_sq2 [OF s(3)] represents_sq [OF xy]
  have yz: "represents 67779952 33889976 (fe_add (fe_sq (p2_Y p)) (fe_sq (p2_X p))) (Y * Y + X * X)"
    "represents 67779952 33889976 (fe_sub (fe_sq (p2_Y p)) (fe_sq (p2_X p))) (Y * Y - X * X)"
    using represents_add [OF q(2,1)] represents_sub [OF q(2,1)] by simp_all
  have "broad (fe_sub (fe_sq (fe_add (p2_X p) (p2_Y p))) (fe_add (fe_sq (p2_Y p)) (fe_sq (p2_X p)))) ((X + Y) * (X + Y) - (Y * Y + X * X))"
    "broad (fe_sub (fe_sq2 (p2_Z p)) (fe_sub (fe_sq (p2_Y p)) (fe_sq (p2_X p)))) (2 * (Z * Z) - (Y * Y - X * X))"
    using represents_sub [OF q(4) yz(1)] represents_sub [OF q(3) yz(2)] by (auto elim: represents_broad)
  then show ?thesis using yz by (auto simp: p1_is_def ge_p2_dbl_def Let_def elim: represents_broad)
qed

end
