(* ===== verification/GeCurve.thy ===== *)
theory GeCurve
  imports GePoints
begin

text \<open>
  The point operations in affine coordinates.  A point is a pair of integers read modulo \<open>2^255 - 19\<close>;
  \<open>edwards_sum\<close> is the addition law of the curve, without division: the coordinates of the sum times
  the denominators.  A structure is at a point when its coordinates are those of the point times an
  invertible \<open>Z\<close>.
\<close>

section \<open>The curve\<close>

definition cg :: "int \<Rightarrow> int \<Rightarrow> bool" where
  "cg x y \<longleftrightarrow> x mod fe_p = y mod fe_p"

definition invertible :: "int \<Rightarrow> bool" where
  "invertible x \<longleftrightarrow> (\<exists>y. x * y mod fe_p = 1)"

type_synonym affine = "int \<times> int"

definition curve_d :: int where
  "curve_d = fe_val ge_d"

definition on_curve :: "affine \<Rightarrow> bool" where
  "on_curve = (\<lambda>(x, y). cg (y * y - x * x) (1 + curve_d * (x * x * y * y)))"

definition edwards_sum :: "affine \<Rightarrow> affine \<Rightarrow> affine \<Rightarrow> bool" where
  "edwards_sum = (\<lambda>(x1, y1) (x2, y2) (x3, y3).
     let D = curve_d * (x1 * x2 * y1 * y2)
     in invertible (1 + D) \<and> invertible (1 - D) \<and>
        cg (x3 * (1 + D)) (x1 * y2 + x2 * y1) \<and> cg (y3 * (1 - D)) (y1 * y2 + x1 * x2))"

definition p2_at :: "ge_p2 \<Rightarrow> affine \<Rightarrow> bool" where
  "p2_at p = (\<lambda>(x, y). \<exists>Z. invertible Z \<and> p2_is p (x * Z) (y * Z) Z)"

definition p3_at :: "ge_p3 \<Rightarrow> affine \<Rightarrow> bool" where
  "p3_at p = (\<lambda>(x, y). \<exists>Z. invertible Z \<and> p3_is p (x * Z) (y * Z) Z (x * y * Z))"

definition p1_at :: "ge_p1p1 \<Rightarrow> affine \<Rightarrow> bool" where
  "p1_at p = (\<lambda>(x, y). \<exists>Z T. invertible Z \<and> invertible T \<and> p1_is p (x * Z) (y * T) Z T)"

definition pc_at :: "ge_precomp \<Rightarrow> affine \<Rightarrow> bool" where
  "pc_at q = (\<lambda>(x, y). pc_is q (y + x) (y - x) (2 * curve_d * (x * y)))"

definition ca_at :: "ge_cached \<Rightarrow> affine \<Rightarrow> bool" where
  "ca_at q = (\<lambda>(x, y). \<exists>Z. invertible Z \<and> ca_is q ((y + x) * Z) ((y - x) * Z) Z (2 * curve_d * (x * y * Z)))"

section \<open>Congruences\<close>

lemma cg_refl [simp]: "cg x x"
  by (simp add: cg_def)

lemma cg_sym: "cg x y \<Longrightarrow> cg y x"
  by (simp add: cg_def)

lemma cg_trans [trans]: "cg x y \<Longrightarrow> cg y z \<Longrightarrow> cg x z"
  by (simp add: cg_def)

lemma cg_mult: "cg x y \<Longrightarrow> cg x' y' \<Longrightarrow> cg (x * x') (y * y')"
  unfolding cg_def by (rule mod_mult_cong)

lemma cg_add: "cg x y \<Longrightarrow> cg x' y' \<Longrightarrow> cg (x + x') (y + y')"
  unfolding cg_def by (rule mod_add_cong)

lemma cg_diff: "cg x y \<Longrightarrow> cg x' y' \<Longrightarrow> cg (x - x') (y - y')"
  unfolding cg_def by (rule mod_diff_cong)

lemma invertible_mult: "invertible x \<Longrightarrow> invertible y \<Longrightarrow> invertible (x * y)"
proof -
  assume "invertible x" "invertible y"
  then obtain x' y' where "x * x' mod fe_p = 1" "y * y' mod fe_p = 1" by (auto simp: invertible_def)
  then have "x * x' * (y * y') mod fe_p = 1 * 1 mod fe_p" by (intro mod_mult_cong) (simp_all add: fe_p_def)
  then have "x * y * (x' * y') mod fe_p = 1" by (simp add: fe_p_def ac_simps)
  then show ?thesis unfolding invertible_def by blast
qed

lemma invertible_cg: "invertible x \<Longrightarrow> cg x y \<Longrightarrow> invertible y"
  unfolding invertible_def cg_def by (metis mod_mult_left_eq)

lemma invertible_1: "invertible 1"
  unfolding invertible_def by (rule exI [of _ 1]) (simp add: fe_p_def)

lemma invertible_2: "invertible 2"
  unfolding invertible_def by (rule exI [of _ "2 ^ 254 - 9"]) (simp add: fe_p_def)

lemma p1_is_cg: "p1_is p X Y Z T \<Longrightarrow> cg X X' \<Longrightarrow> cg Y Y' \<Longrightarrow> cg Z Z' \<Longrightarrow> cg T T' \<Longrightarrow> p1_is p X' Y' Z' T'"
  by (auto simp: p1_is_def cg_def elim: represents_cong)

lemma ca_is_cg: "ca_is p X Y Z T \<Longrightarrow> cg X X' \<Longrightarrow> cg Y Y' \<Longrightarrow> cg Z Z' \<Longrightarrow> cg T T' \<Longrightarrow> ca_is p X' Y' Z' T'"
  by (auto simp: ca_is_def cg_def elim: represents_cong)

text \<open>The constants: 121666 d = - 121665, and twice d.\<close>

lemma curve_constants: "cg (121666 * curve_d) (- 121665)" "cg (fe_val ge_d2) (2 * curve_d)"
  by (simp_all add: cg_def curve_d_def fe_p_def ge_d_def ge_d2_def fe_val_def limbs_val_def sum_10 limb_weight_def)

section \<open>Conversions\<close>

lemma p1p1_to_p3_at: "p1_at p a \<Longrightarrow> p3_at (ge_p1p1_to_p3 p) a"
proof -
  assume "p1_at p a"
  then obtain x y Z T where h: "a = (x, y)" "invertible Z" "invertible T" "p1_is p (x * Z) (y * T) Z T"
    by (auto simp: p1_at_def)
  have "p3_is (ge_p1p1_to_p3 p) (x * (Z * T)) (y * (Z * T)) (Z * T) (x * y * (Z * T))"
    using p1p1_to_p3_is [OF h(4)] by (simp add: ac_simps)
  then show ?thesis using invertible_mult [OF h(2,3)] by (auto simp: p3_at_def h(1))
qed

lemma p1p1_to_p2_at: "p1_at p a \<Longrightarrow> p2_at (ge_p1p1_to_p2 p) a"
proof -
  assume "p1_at p a"
  then obtain x y Z T where h: "a = (x, y)" "invertible Z" "invertible T" "p1_is p (x * Z) (y * T) Z T"
    by (auto simp: p1_at_def)
  have "p2_is (ge_p1p1_to_p2 p) (x * (Z * T)) (y * (Z * T)) (Z * T)"
    using p1p1_to_p2_is [OF h(4)] by (simp add: ac_simps)
  then show ?thesis using invertible_mult [OF h(2,3)] by (auto simp: p2_at_def h(1))
qed

lemma p3_to_p2_at: "p3_at p a \<Longrightarrow> p2_at (ge_p3_to_p2 p) a"
  by (auto simp: p3_at_def p2_at_def intro: p3_to_p2_is)

lemma neutral_at: "p2_at ge_p2_0 (0, 1)" "p3_at ge_p3_0 (0, 1)" "pc_at neutral (0, 1)"
  using neutral_points invertible_1 by (auto simp: p2_at_def p3_at_def pc_at_def)

lemma p3_to_cached_at: "p3_at p a \<Longrightarrow> ca_at (ge_p3_to_cached p) a"
proof -
  assume "p3_at p a"
  then obtain x y Z where h: "a = (x, y)" "invertible Z" "p3_is p (x * Z) (y * Z) Z (x * y * Z)"
    by (auto simp: p3_at_def)
  have "ca_is (ge_p3_to_cached p) ((y + x) * Z) ((y - x) * Z) Z (2 * curve_d * (x * y * Z))"
  proof (rule ca_is_cg [OF p3_to_cached_is [OF h(3)]])
    show "cg (x * y * Z * fe_val ge_d2) (2 * curve_d * (x * y * Z))"
      using cg_mult [OF curve_constants(2) cg_refl, of "x * y * Z"] by (simp add: ac_simps)
  qed (simp_all add: algebra_simps)
  then show ?thesis using h(2) by (auto simp: ca_at_def h(1))
qed

section \<open>Sums\<close>

text \<open>The completed coordinates of a sum: \<open>N1\<close> and \<open>N2\<close> are the numerators, \<open>W\<close> the common factor.\<close>

lemma completed_sum:
  assumes "edwards_sum (x1, y1) (x2, y2) (x3, y3)" "invertible W"
  defines "D \<equiv> curve_d * (x1 * x2 * y1 * y2)"
  assumes "p1_is r (W * (x1 * y2 + x2 * y1)) (W * (y1 * y2 + x1 * x2)) (W * (1 + D)) (W * (1 - D))"
  shows "p1_at r (x3, y3)"
proof -
  have e: "invertible (1 + D)" "invertible (1 - D)" "cg (x3 * (1 + D)) (x1 * y2 + x2 * y1)" "cg (y3 * (1 - D)) (y1 * y2 + x1 * x2)"
    using assms(1) by (simp_all add: edwards_sum_def Let_def D_def)
  have "cg (W * (x1 * y2 + x2 * y1)) (W * (x3 * (1 + D)))" "cg (W * (y1 * y2 + x1 * x2)) (W * (y3 * (1 - D)))"
    by (rule cg_mult [OF cg_refl cg_sym [OF e(3)]], rule cg_mult [OF cg_refl cg_sym [OF e(4)]])
  then have "p1_is r (x3 * (W * (1 + D))) (y3 * (W * (1 - D))) (W * (1 + D)) (W * (1 - D))"
    by (intro p1_is_cg [OF assms(4)]) (simp_all only: mult.left_commute cg_refl)
  then show ?thesis using invertible_mult [OF assms(2) e(1)] invertible_mult [OF assms(2) e(2)] by (auto simp: p1_at_def)
qed

lemma ge_add_at:
  assumes "p3_at p a" "ca_at q b" "edwards_sum a b c"
  shows "p1_at (ge_add p q) c"
proof -
  obtain x1 y1 Z where h: "a = (x1, y1)" "invertible Z" "p3_is p (x1 * Z) (y1 * Z) Z (x1 * y1 * Z)"
    using assms(1) by (auto simp: p3_at_def)
  obtain x2 y2 Z' where g: "b = (x2, y2)" "invertible Z'"
    "ca_is q ((y2 + x2) * Z') ((y2 - x2) * Z') Z' (2 * curve_d * (x2 * y2 * Z'))"
    using assms(2) by (auto simp: ca_at_def)
  obtain x3 y3 where c: "c = (x3, y3)" by (cases c)
  have "invertible (2 * (Z * Z'))" by (intro invertible_mult invertible_2 h(2) g(2))
  moreover have "p1_is (ge_add p q) (2 * (Z * Z') * (x1 * y2 + x2 * y1)) (2 * (Z * Z') * (y1 * y2 + x1 * x2))
      (2 * (Z * Z') * (1 + curve_d * (x1 * x2 * y1 * y2))) (2 * (Z * Z') * (1 - curve_d * (x1 * x2 * y1 * y2)))"
    by (rule p1_is_cg [OF ge_add_is(1) [OF h(3) g(3)]]) (simp_all add: algebra_simps)
  ultimately show ?thesis using completed_sum assms(3) unfolding h(1) g(1) c by blast
qed

lemma ge_madd_at:
  assumes "p3_at p a" "pc_at q b" "edwards_sum a b c"
  shows "p1_at (ge_madd p q) c"
proof -
  obtain x1 y1 Z where h: "a = (x1, y1)" "invertible Z" "p3_is p (x1 * Z) (y1 * Z) Z (x1 * y1 * Z)"
    using assms(1) by (auto simp: p3_at_def)
  obtain x2 y2 where g: "b = (x2, y2)" "pc_is q (y2 + x2) (y2 - x2) (2 * curve_d * (x2 * y2))"
    using assms(2) by (auto simp: pc_at_def)
  obtain x3 y3 where c: "c = (x3, y3)" by (cases c)
  have "invertible (2 * Z)" by (intro invertible_mult invertible_2 h(2))
  moreover have "p1_is (ge_madd p q) (2 * Z * (x1 * y2 + x2 * y1)) (2 * Z * (y1 * y2 + x1 * x2))
      (2 * Z * (1 + curve_d * (x1 * x2 * y1 * y2))) (2 * Z * (1 - curve_d * (x1 * x2 * y1 * y2)))"
    by (rule p1_is_cg [OF ge_madd_is(1) [OF h(3) g(2)]]) (simp_all add: algebra_simps)
  ultimately show ?thesis using completed_sum assms(3) unfolding h(1) g(1) c by blast
qed

text \<open>The differences add the opposite point.\<close>

definition minus_point :: "affine \<Rightarrow> affine" where
  "minus_point = (\<lambda>(x, y). (- x, y))"

lemma ge_sub_at:
  assumes "p3_at p a" "ca_at q b" "edwards_sum a (minus_point b) c"
  shows "p1_at (ge_sub p q) c"
proof -
  obtain x1 y1 Z where h: "a = (x1, y1)" "invertible Z" "p3_is p (x1 * Z) (y1 * Z) Z (x1 * y1 * Z)"
    using assms(1) by (auto simp: p3_at_def)
  obtain x2 y2 Z' where g: "b = (x2, y2)" "invertible Z'"
    "ca_is q ((y2 + x2) * Z') ((y2 - x2) * Z') Z' (2 * curve_d * (x2 * y2 * Z'))"
    using assms(2) by (auto simp: ca_at_def)
  obtain x3 y3 where c: "c = (x3, y3)" by (cases c)
  have "invertible (2 * (Z * Z'))" by (intro invertible_mult invertible_2 h(2) g(2))
  moreover have "p1_is (ge_sub p q) (2 * (Z * Z') * (x1 * y2 + (- x2) * y1)) (2 * (Z * Z') * (y1 * y2 + x1 * (- x2)))
      (2 * (Z * Z') * (1 + curve_d * (x1 * (- x2) * y1 * y2))) (2 * (Z * Z') * (1 - curve_d * (x1 * (- x2) * y1 * y2)))"
    by (rule p1_is_cg [OF ge_add_is(2) [OF h(3) g(3)]]) (simp_all add: algebra_simps)
  ultimately show ?thesis using completed_sum assms(3) unfolding h(1) g(1) c minus_point_def prod.case by blast
qed

lemma ge_msub_at:
  assumes "p3_at p a" "pc_at q b" "edwards_sum a (minus_point b) c"
  shows "p1_at (ge_msub p q) c"
proof -
  obtain x1 y1 Z where h: "a = (x1, y1)" "invertible Z" "p3_is p (x1 * Z) (y1 * Z) Z (x1 * y1 * Z)"
    using assms(1) by (auto simp: p3_at_def)
  obtain x2 y2 where g: "b = (x2, y2)" "pc_is q (y2 + x2) (y2 - x2) (2 * curve_d * (x2 * y2))"
    using assms(2) by (auto simp: pc_at_def)
  obtain x3 y3 where c: "c = (x3, y3)" by (cases c)
  have "invertible (2 * Z)" by (intro invertible_mult invertible_2 h(2))
  moreover have "p1_is (ge_msub p q) (2 * Z * (x1 * y2 + (- x2) * y1)) (2 * Z * (y1 * y2 + x1 * (- x2)))
      (2 * Z * (1 + curve_d * (x1 * (- x2) * y1 * y2))) (2 * Z * (1 - curve_d * (x1 * (- x2) * y1 * y2)))"
    by (rule p1_is_cg [OF ge_madd_is(2) [OF h(3) g(2)]]) (simp_all add: algebra_simps)
  ultimately show ?thesis using completed_sum assms(3) unfolding h(1) g(1) c minus_point_def prod.case by blast
qed

text \<open>Doubling has no curve constant, as the equation of the curve gives the denominators.\<close>

lemma ge_p2_dbl_at:
  assumes "p2_at p a" "on_curve a" "edwards_sum a a c"
  shows "p1_at (ge_p2_dbl p) c"
proof -
  obtain x y Z where h: "a = (x, y)" "invertible Z" "p2_is p (x * Z) (y * Z) Z" using assms(1) by (auto simp: p2_at_def)
  obtain x3 y3 where c: "c = (x3, y3)" by (cases c)
  define D where "D = curve_d * (x * x * y * y)"
  have e: "cg (y * y - x * x) (1 + D)" using assms(2) by (simp add: on_curve_def h(1) D_def)
  have "cg (2 - (y * y - x * x)) (2 - (1 + D))" by (rule cg_diff [OF cg_refl e])
  then have f: "cg (2 - (y * y - x * x)) (1 - D)" by simp
  have W: "invertible (Z * Z)" by (intro invertible_mult h(2))
  have "p1_is (ge_p2_dbl p) (Z * Z * (x * y + x * y)) (Z * Z * (y * y + x * x)) (Z * Z * (1 + D)) (Z * Z * (1 - D))"
  proof (rule p1_is_cg [OF ge_p2_dbl_is [OF h(3)]])
    have "cg (Z * Z * (y * y - x * x)) (Z * Z * (1 + D))" "cg (Z * Z * (2 - (y * y - x * x))) (Z * Z * (1 - D))"
      by (rule cg_mult [OF cg_refl e], rule cg_mult [OF cg_refl f])
    then show "cg (y * Z * (y * Z) - x * Z * (x * Z)) (Z * Z * (1 + D))"
      "cg (2 * (Z * Z) - (y * Z * (y * Z) - x * Z * (x * Z))) (Z * Z * (1 - D))"
      by (simp_all add: algebra_simps)
  qed (simp_all add: algebra_simps)
  then show ?thesis using completed_sum [OF _ W, of x y x y x3 y3] assms(3) unfolding h(1) c D_def by blast
qed

end
