(* ===== verification/GeScalar.thy ===== *)
theory GeScalar
  imports GeCurve
begin

text \<open>
  Multiples of the base point and the bytes of a point: the bounds of the precomputed tables, the sums
  \<open>ge_scalarmult_base\<close> adds up, and the encoding of the result.
\<close>

section \<open>The curve is closed under sums\<close>

lemma curve_identity:
  fixes p x1 y1 x2 y2 d :: int
  defines "P \<equiv> d * (x1 * x2 * y1 * y2)"
  assumes "p dvd y1 * y1 - x1 * x1 - (1 + d * (x1 * x1 * y1 * y1))" "p dvd y2 * y2 - x2 * x2 - (1 + d * (x2 * x2 * y2 * y2))"
  shows "p dvd (y1 * y2 + x1 * x2)^2 * (1 + P)^2 - (x1 * y2 + x2 * y1)^2 * (1 - P)^2 -
    ((1 + P)^2 * (1 - P)^2 + d * (x1 * y2 + x2 * y1)^2 * (y1 * y2 + x1 * x2)^2)"
  using assms(2,3) unfolding P_def by algebra

lemma numerators:
  fixes p u v n m D E d :: int
  assumes "p dvd u - n" "p dvd v - m" "p dvd m^2 * D^2 - n^2 * E^2 - (D^2 * E^2 + d * n^2 * m^2)"
  shows "p dvd v^2 * D^2 - u^2 * E^2 - (D^2 * E^2 + d * u^2 * v^2)"
  using assms by algebra

lemma cg_dvd: "cg x y \<longleftrightarrow> fe_p dvd x - y"
  by (simp add: cg_def mod_eq_dvd_iff)

lemma cancel_invertible:
  assumes "fe_p dvd x * u" "invertible u" shows "fe_p dvd x"
proof -
  obtain v where v: "u * v mod fe_p = 1" using assms(2) by (auto simp: invertible_def)
  have "x * u * v mod fe_p = 0" using assms(1) by (simp add: dvd_mult2 flip: dvd_eq_mod_eq_0)
  then have "x * 1 mod fe_p = 0" using mod_mult_right_eq [of x "u * v" fe_p] by (simp add: v mult.assoc)
  then show ?thesis by (simp flip: dvd_eq_mod_eq_0)
qed

lemma on_curve_sum:
  assumes "on_curve a" "on_curve b" "edwards_sum a b c"
  shows "on_curve c"
proof -
  obtain x1 y1 x2 y2 x3 y3 where p: "a = (x1, y1)" "b = (x2, y2)" "c = (x3, y3)" by (metis surj_pair)
  let ?D = "curve_d * (x1 * x2 * y1 * y2)"
  have e: "invertible (1 + ?D)" "invertible (1 - ?D)" "cg (x3 * (1 + ?D)) (x1 * y2 + x2 * y1)" "cg (y3 * (1 - ?D)) (y1 * y2 + x1 * x2)"
    using assms(3) by (simp_all add: edwards_sum_def Let_def p)
  have "fe_p dvd (y1 * y2 + x1 * x2)^2 * (1 + ?D)^2 - (x1 * y2 + x2 * y1)^2 * (1 - ?D)^2 -
      ((1 + ?D)^2 * (1 - ?D)^2 + curve_d * (x1 * y2 + x2 * y1)^2 * (y1 * y2 + x1 * x2)^2)"
    using assms(1,2) unfolding p on_curve_def prod.case cg_dvd by (rule curve_identity)
  from numerators [OF e(3,4) [unfolded cg_dvd] this]
  have "fe_p dvd ((y3 * y3 - x3 * x3) - (1 + curve_d * (x3 * x3 * y3 * y3))) * ((1 + ?D) * (1 - ?D) * ((1 + ?D) * (1 - ?D)))"
    by (simp add: power2_eq_square algebra_simps)
  then have "fe_p dvd (y3 * y3 - x3 * x3) - (1 + curve_d * (x3 * x3 * y3 * y3))"
    by (rule cancel_invertible) (intro invertible_mult e(1,2))
  then show ?thesis by (simp add: on_curve_def cg_dvd p)
qed

end
