(* ===== verification/GeRows.thy ===== *)
theory GeRows
  imports GeDigits
begin

text \<open>
  The rows of the precomputed tables: eight entries each, with limbs of at most 2^25 and 2^24.
\<close>

definition row_ok :: "ge_precomp list \<Rightarrow> bool" where
  "row_ok r \<longleftrightarrow> length r = 8 \<and> list_all precomp_ok r"

lemma Bi_ok: "row_ok Bi"
  by (simp add: row_ok_def Bi_def precomp_ok_precomp fe_bound_ten)

lemma base_rows_0: "list_all row_ok [base_0, base_1, base_2, base_3, base_4, base_5, base_6, base_7]"
  by (simp add: row_ok_def precomp_ok_precomp fe_bound_ten
    base_0_def base_1_def base_2_def base_3_def base_4_def base_5_def base_6_def base_7_def)

lemma base_rows_8: "list_all row_ok [base_8, base_9, base_10, base_11, base_12, base_13, base_14, base_15]"
  by (simp add: row_ok_def precomp_ok_precomp fe_bound_ten
    base_8_def base_9_def base_10_def base_11_def base_12_def base_13_def base_14_def base_15_def)

lemma base_rows_16: "list_all row_ok [base_16, base_17, base_18, base_19, base_20, base_21, base_22, base_23]"
  by (simp add: row_ok_def precomp_ok_precomp fe_bound_ten
    base_16_def base_17_def base_18_def base_19_def base_20_def base_21_def base_22_def base_23_def)

lemma base_rows_24: "list_all row_ok [base_24, base_25, base_26, base_27, base_28, base_29, base_30, base_31]"
  by (simp add: row_ok_def precomp_ok_precomp fe_bound_ten
    base_24_def base_25_def base_26_def base_27_def base_28_def base_29_def base_30_def base_31_def)

lemma base_rows_ok: "list_all row_ok base_table" "length base_table = 32"
  using base_rows_0 base_rows_8 base_rows_16 base_rows_24 by (simp_all add: base_table_def)

lemma base_row_ok: "i < 32 \<Longrightarrow> row_ok (base_table ! i)"
  using base_rows_ok by (simp add: list_all_length)

lemma row_entry: "row_ok r \<Longrightarrow> j < 8 \<Longrightarrow> precomp_ok (r ! j)"
  by (simp add: row_ok_def list_all_length)

end
