(* ===== verification/GeMultiples.thy ===== *)
theory GeMultiples
  imports GeScalar GeRows
begin

text \<open>
  Multiples of points.  A family \<open>m\<close> names the multiples of a point, \<open>m k\<close> that of \<open>k\<close>; what the two
  scalar multiplications need of it is the sums they make.
\<close>

section \<open>Families of points\<close>

definition point_family :: "(int \<Rightarrow> affine) \<Rightarrow> bool" where
  "point_family m \<longleftrightarrow> m 0 = (0, 1) \<and> (\<forall>k. m (- k) = minus_point (m k)) \<and> (\<forall>k. on_curve (m k))"

text \<open>The sums from \<open>s\<close> on, by the summands in order; the doublings of \<open>s\<close>.\<close>

fun sums :: "(int \<Rightarrow> affine) \<Rightarrow> int \<Rightarrow> int list \<Rightarrow> bool" where
  "sums m s [] \<longleftrightarrow> True"
| "sums m s (x # xs) \<longleftrightarrow> edwards_sum (m s) (m x) (m (s + x)) \<and> sums m (s + x) xs"

definition doublings :: "(int \<Rightarrow> affine) \<Rightarrow> int \<Rightarrow> bool" where
  "doublings m s \<longleftrightarrow> (\<forall>k \<in> {s, 2 * s, 4 * s, 8 * s}. edwards_sum (m k) (m k) (m (2 * k)))"

lemma opposite_at: "pc_at q a \<Longrightarrow> pc_at (opposite q) (minus_point a)"
proof -
  assume "pc_at q a"
  then obtain x y where a: "a = (x, y)" and q: "pc_is q (y + x) (y - x) (2 * curve_d * (x * y))"
    by (cases a) (auto simp: pc_at_def)
  then show ?thesis using represents_neg [of "xy2d q" "2 * curve_d * (x * y)"]
    by (simp add: pc_at_def pc_is_def opposite_def minus_point_def)
qed

section \<open>Multiples of the base point\<close>

lemma row_tens: "row_ok r \<Longrightarrow> list_all tens r \<and> length r = 8"
  by (auto simp: row_ok_def list_all_iff tens_ok)

lemma select_at:
  assumes "point_family m" "i < 32" "- 8 \<le> b" "b \<le> 8"
    "b \<noteq> 0 \<Longrightarrow> pc_at (base_table ! i ! nat (\<bar>b\<bar> - 1)) (m (\<bar>b\<bar> * c))"
  shows "pc_at (select i b) (m (b * c))"
proof -
  have m: "m 0 = (0, 1)" "m (- k) = minus_point (m k)" for k using assms(1) by (auto simp: point_family_def)
  have t: "list_all tens (base_table ! i)" "length (base_table ! i) = 8" using row_tens base_row_ok assms(2) by blast+
  note s = select_spec [OF t assms(3,4)]
  consider "b = 0" | "0 < b" | "b < 0" by linarith
  then show ?thesis
  proof cases
    case 1
    then show ?thesis using s neutral_at(3) by (simp add: m)
  next
    case 2
    then show ?thesis using assms(5) by (simp add: s)
  next
    case 3
    then have "pc_at (opposite (base_table ! i ! nat (- b - 1))) (minus_point (m (- b * c)))"
      using assms(5) by (intro opposite_at) simp
    then show ?thesis using 3 m(2) [of "- b * c"] by (simp add: s)
  qed
qed

lemma base_add_at:
  assumes "p3_at h a" "pc_at (select (i div 2) (e ! i)) b" "edwards_sum a b c"
  shows "p3_at (base_add e i h) c"
  unfolding base_add_def by (rule p1p1_to_p3_at [OF ge_madd_at [OF assms]])

lemma base_adds_at:
  assumes "p3_at h (m s)" "sums m s (map f ks)" "\<And>k. k \<in> set ks \<Longrightarrow> pc_at (select (k div 2) (e ! k)) (m (f k))"
  shows "p3_at (fold (base_add e) ks h) (m (s + sum_list (map f ks)))"
  using assms
proof (induction ks arbitrary: h s)
  case (Cons k ks)
  have "p3_at (base_add e k h) (m (s + f k))"
    using Cons.prems by (intro base_add_at [OF Cons.prems(1)]) auto
  from Cons.IH [OF this] show ?case using Cons.prems by (simp add: add.assoc)
qed simp

lemma dbl_at: "p1_at p a \<Longrightarrow> on_curve a \<Longrightarrow> edwards_sum a a c \<Longrightarrow> p1_at (ge_p2_dbl (ge_p1p1_to_p2 p)) c"
  by (intro ge_p2_dbl_at p1p1_to_p2_at)

lemma p3_dbl_at: "p3_at p a \<Longrightarrow> on_curve a \<Longrightarrow> edwards_sum a a c \<Longrightarrow> p1_at (ge_p3_dbl p) c"
  unfolding ge_p3_dbl_def by (rule ge_p2_dbl_at [OF p3_to_p2_at])

lemma times_16_at:
  assumes "p3_at h (m s)" "on_curve (m s)" "doublings m s"
  shows "p3_at (times_16 h) (m (16 * s))"
proof -
  have d: "edwards_sum (m s) (m s) (m (2 * s))" "edwards_sum (m (2 * s)) (m (2 * s)) (m (4 * s))"
    "edwards_sum (m (4 * s)) (m (4 * s)) (m (8 * s))" "edwards_sum (m (8 * s)) (m (8 * s)) (m (16 * s))"
    using assms(3) by (simp_all add: doublings_def)
  note c = on_curve_sum [OF assms(2,2) d(1)]
  note c' = on_curve_sum [OF c c d(2)]
  note c'' = on_curve_sum [OF c' c' d(3)]
  from dbl_at [OF dbl_at [OF dbl_at [OF p3_dbl_at [OF assms(1,2) d(1)] c d(2)] c' d(3)] c'' d(4)]
  show ?thesis by (simp add: times_16_def Let_def p1p1_to_p3_at)
qed

text \<open>The digits at odd places count sixteen times those at even places.\<close>

lemma dval_sum: "dval b xs = (\<Sum>i<length xs. xs ! i * b ^ i)"
  by (induction xs rule: rev_induct) (simp_all add: dval_append nth_append)

lemma dval_even_odd:
  assumes "length e = 64"
  shows "16 * sum_list (map (\<lambda>k. e ! (2 * k + 1) * 256 ^ k) [0..<32]) + sum_list (map (\<lambda>k. e ! (2 * k) * 256 ^ k) [0..<32]) = dval 16 e"
proof -
  have "(\<Sum>i<2 * n. e ! i * 16 ^ i) = 16 * (\<Sum>k<n. e ! (2 * k + 1) * 256 ^ k) + (\<Sum>k<n. e ! (2 * k) * 256 ^ k)" for n
    by (induction n) (simp_all add: power_mult)
  from this [of 32] show ?thesis
    by (simp add: dval_sum assms interv_sum_list_conv_sum_set_nat atLeast0LessThan)
qed

text \<open>The summands in the order of the two loops.\<close>

definition base_parts :: "nat \<Rightarrow> bytes \<Rightarrow> int list" where
  "base_parts place a = map (\<lambda>k. recode a ! (2 * k + place) * 256 ^ k) [0..<32]"

definition base_multiples :: "(int \<Rightarrow> affine) \<Rightarrow> bytes \<Rightarrow> bool" where
  "base_multiples m a \<longleftrightarrow>
     (\<forall>i<64. recode a ! i \<noteq> 0 \<longrightarrow>
        pc_at (base_table ! (i div 2) ! nat (\<bar>recode a ! i\<bar> - 1)) (m (\<bar>recode a ! i\<bar> * 256 ^ (i div 2)))) \<and>
     sums m 0 (base_parts 1 a) \<and> doublings m (sum_list (base_parts 1 a)) \<and>
     sums m (16 * sum_list (base_parts 1 a)) (base_parts 0 a)"

lemma scalarmult_base_at:
  assumes "length a = 32" "le_nat a < 2 ^ 255" "point_family m" "base_multiples m a"
  shows "p3_at (ge_scalarmult_base a) (m (int (le_nat a)))"
proof -
  let ?e = "recode a"
  have e: "length ?e = 64" "dval 16 ?e = int (le_nat a)" "\<And>x. x \<in> set ?e \<Longrightarrow> - 8 \<le> x \<and> x \<le> 8"
    using recode_spec [OF assms(1,2)] by auto
  have h: "\<And>i. i < 64 \<Longrightarrow> ?e ! i \<noteq> 0 \<Longrightarrow> pc_at (base_table ! (i div 2) ! nat (\<bar>?e ! i\<bar> - 1)) (m (\<bar>?e ! i\<bar> * 256 ^ (i div 2)))"
    "sums m 0 (base_parts 1 a)" "doublings m (sum_list (base_parts 1 a))" "sums m (16 * sum_list (base_parts 1 a)) (base_parts 0 a)"
    using assms(4) by (auto simp: base_multiples_def)
  have sel: "pc_at (select (i div 2) (?e ! i)) (m (?e ! i * 256 ^ (i div 2)))" if "i < 64" for i
    using that e(3) [of "?e ! i"] e(1) h(1) [of i] by (intro select_at assms(3)) auto
  have m: "m 0 = (0, 1)" "on_curve (m k)" for k using assms(3) by (auto simp: point_family_def)
  have place: "pc_at (select k (?e ! Suc (2 * k))) (m (?e ! Suc (2 * k) * 256 ^ k))" 
    "pc_at (select k (?e ! (2 * k))) (m (?e ! (2 * k) * 256 ^ k))" if "k < 32" for k
    using sel [of "Suc (2 * k)"] sel [of "2 * k"] that by simp_all
  let ?f = "\<lambda>i. ?e ! i * 256 ^ (i div 2)"
  let ?odd = "map (\<lambda>k. 2 * k + 1) [0..<32]" and ?even = "map (\<lambda>k. 2 * k) [0..<32 :: nat]"
  have parts: "map ?f ?odd = base_parts 1 a" "map ?f ?even = base_parts 0 a"
    by (simp_all add: base_parts_def)
  have "p3_at (fold (base_add ?e) ?odd ge_p3_0) (m (0 + sum_list (map ?f ?odd)))"
    by (rule base_adds_at) (use neutral_at(2) m(1) h(2) parts place in auto)
  then have "p3_at (fold (base_add ?e) ?odd ge_p3_0) (m (sum_list (base_parts 1 a)))" by (simp only: parts add_0)
  from times_16_at [OF this m(2) h(3)]
  have "p3_at (fold (base_add ?e) ?even (times_16 (fold (base_add ?e) ?odd ge_p3_0)))
      (m (16 * sum_list (base_parts 1 a) + sum_list (map ?f ?even)))"
    by (rule base_adds_at) (use h(4) parts place in auto)
  then show ?thesis
    using dval_even_odd [OF e(1)] by (simp only: parts ge_scalarmult_base_def Let_def base_parts_def e(2) add_0_right)
qed

section \<open>Sums of two multiples\<close>

text \<open>A group of points: \<open>m i j\<close> is \<open>i\<close> times the first and \<open>j\<close> times the second.\<close>

definition point_group :: "(int \<Rightarrow> int \<Rightarrow> affine) \<Rightarrow> bool" where
  "point_group m \<longleftrightarrow> m 0 0 = (0, 1) \<and> (\<forall>i j. on_curve (m i j) \<and> m (- i) (- j) = minus_point (m i j)) \<and>
     (\<forall>i j i' j'. edwards_sum (m i j) (m i' j') (m (i + i') (j + j')))"

lemma point_groupD:
  assumes "point_group m"
  shows "m 0 0 = (0, 1)" "on_curve (m i j)" "m (- i) (- j) = minus_point (m i j)"
    "edwards_sum (m i j) (m i' j') (m (i + i') (j + j'))"
  using assms by (auto simp: point_group_def)

definition more_multiples :: "ge_p3 \<Rightarrow> nat \<Rightarrow> ge_cached list \<Rightarrow> ge_cached list" where
  "more_multiples A2 k Ai = Ai @ [ge_p3_to_cached (ge_p1p1_to_p3 (ge_add A2 (Ai ! k)))]"

lemma more_multiples_at:
  assumes "point_group m" "p3_at A2 (m 2 0)" "ca_at a (m 1 0)"
  shows "length (fold (more_multiples A2) [0..<n] [a]) = n + 1 \<and>
    (\<forall>k\<le>n. ca_at (fold (more_multiples A2) [0..<n] [a] ! k) (m (2 * int k + 1) 0))"
proof (induction n)
  case 0
  then show ?case using assms(3) by simp
next
  case (Suc n)
  define l where "l = fold (more_multiples A2) [0..<n] [a]"
  have l: "length l = n + 1" "\<And>k. k \<le> n \<Longrightarrow> ca_at (l ! k) (m (2 * int k + 1) 0)" using Suc by (simp_all add: l_def)
  have "ca_at (ge_p3_to_cached (ge_p1p1_to_p3 (ge_add A2 (l ! n)))) (m (2 + (2 * int n + 1)) (0 + 0))"
    using p3_to_cached_at [OF p1p1_to_p3_at [OF ge_add_at [OF assms(2) l(2) [OF order_refl] point_groupD(4) [OF assms(1)]]]] .
  then have top: "ca_at (more_multiples A2 n l ! Suc n) (m (2 * int (Suc n) + 1) 0)"
    using l(1) by (simp add: more_multiples_def nth_append algebra_simps)
  have "more_multiples A2 n l ! k = l ! k" if "k \<le> n" for k using l(1) that by (simp add: more_multiples_def nth_append)
  then have "\<forall>k\<le>Suc n. ca_at (more_multiples A2 n l ! k) (m (2 * int k + 1) 0)"
    using top l(2) by (auto simp: le_Suc_eq)
  then show ?case using l(1) by (simp add: l_def [symmetric]) (simp add: more_multiples_def)
qed

lemma odd_multiples_at:
  assumes "point_group m" "p3_at A (m 1 0)"
  shows "length (odd_multiples A) = 8 \<and> (\<forall>k<8. ca_at (odd_multiples A ! k) (m (2 * int k + 1) 0))"
proof -
  let ?A2 = "ge_p1p1_to_p3 (ge_p3_dbl A)"
  have a2: "p3_at ?A2 (m 2 0)"
    using p1p1_to_p3_at [OF p3_dbl_at [OF assms(2) point_groupD(2,4) [OF assms(1)]]] by simp
  have e: "odd_multiples A = fold (more_multiples ?A2) [0..<7] [ge_p3_to_cached A]"
    by (simp only: odd_multiples_def Let_def more_multiples_def [abs_def])
  show ?thesis unfolding e
    using more_multiples_at [OF assms(1) a2 p3_to_cached_at [OF assms(2)], of 7] less_Suc_eq_le [of _ 7] by auto
qed

text \<open>One step of the loop: doubling, then the two digits.\<close>

lemma double_step_at:
  assumes "point_group m" "p2_at r (m s t)"
    "\<And>k. k < 8 \<Longrightarrow> ca_at (Ai ! k) (m (2 * int k + 1) 0)"
    "aslide ! i = 0 \<or> digit_ok (aslide ! i)" "bslide ! i = 0 \<or> digit_ok (bslide ! i)"
    "bslide ! i \<noteq> 0 \<Longrightarrow> pc_at (Bi ! nat (\<bar>bslide ! i\<bar> div 2)) (m 0 \<bar>bslide ! i\<bar>)"
  shows "p2_at (double_step aslide bslide Ai i r) (m (2 * s + aslide ! i) (2 * t + bslide ! i))"
proof -
  note g = point_groupD [OF assms(1)]
  let ?x = "aslide ! i" and ?y = "bslide ! i"
  define t1 where "t1 = ge_p2_dbl r"
  define t2 where "t2 = (if ?x > 0 then ge_add (ge_p1p1_to_p3 t1) (Ai ! nat (?x div 2))
    else if ?x < 0 then ge_sub (ge_p1p1_to_p3 t1) (Ai ! nat (- ?x div 2)) else t1)"
  define t3 where "t3 = (if ?y > 0 then ge_madd (ge_p1p1_to_p3 t2) (Bi ! nat (?y div 2))
    else if ?y < 0 then ge_msub (ge_p1p1_to_p3 t2) (Bi ! nat (- ?y div 2)) else t2)"
  have "p1_at t1 (m (s + s) (t + t))" unfolding t1_def by (rule ge_p2_dbl_at [OF assms(2) g(2) g(4)])
  then have t1: "p1_at t1 (m (2 * s) (2 * t))" by simp
  have entry: "ca_at (Ai ! nat (z div 2)) (m z 0)" if "digit_ok z" "0 < z" for z
  proof -
    obtain k where z: "z = 2 * k + 1" using \<open>digit_ok z\<close> by (auto simp: digit_ok_def elim: oddE)
    have "ca_at (Ai ! nat k) (m (2 * int (nat k) + 1) 0)" using that z by (intro assms(3)) (auto simp: digit_ok_def)
    then show ?thesis using that(2) z by simp
  qed
  have t2: "p1_at t2 (m (2 * s + ?x) (2 * t))"
  proof -
    consider "?x = 0" | "0 < ?x" "digit_ok ?x" | "0 < - ?x" "digit_ok (- ?x)"
      using assms(4) by (cases ?x "0 :: int" rule: linorder_cases) (auto simp: digit_ok_def)
    then show ?thesis
    proof cases
      case 1
      then show ?thesis using t1 by (simp add: t2_def)
    next
      case 2
      have "p1_at (ge_add (ge_p1p1_to_p3 t1) (Ai ! nat (?x div 2))) (m (2 * s + ?x) (2 * t + 0))"
        by (rule ge_add_at [OF p1p1_to_p3_at [OF t1] entry [OF 2(2,1)] g(4)])
      then show ?thesis using 2 by (simp add: t2_def)
    next
      case 3
      have "edwards_sum (m (2 * s) (2 * t)) (minus_point (m (- ?x) 0)) (m (2 * s + ?x) (2 * t))"
        using g(4) [of "2 * s" "2 * t" ?x 0] g(3) [of "- ?x" 0] by simp
      from ge_sub_at [OF p1p1_to_p3_at [OF t1] entry [OF 3(2,1)] this]
      show ?thesis using 3 by (simp add: t2_def)
    qed
  qed
  have "p1_at t3 (m (2 * s + ?x) (2 * t + ?y))"
  proof -
    consider "?y = 0" | "0 < ?y" | "?y < 0" by linarith
    then show ?thesis
    proof cases
      case 1
      then show ?thesis using t2 by (simp add: t3_def)
    next
      case 2
      then have q: "pc_at (Bi ! nat (?y div 2)) (m 0 ?y)" using assms(6) by simp
      have "p1_at (ge_madd (ge_p1p1_to_p3 t2) (Bi ! nat (?y div 2))) (m (2 * s + ?x + 0) (2 * t + ?y))"
        by (rule ge_madd_at [OF p1p1_to_p3_at [OF t2] q g(4)])
      then show ?thesis using 2 by (simp add: t3_def)
    next
      case 3
      then have q: "pc_at (Bi ! nat (- ?y div 2)) (m 0 (- ?y))" using assms(6) by simp
      have "edwards_sum (m (2 * s + ?x) (2 * t)) (minus_point (m 0 (- ?y))) (m (2 * s + ?x) (2 * t + ?y))"
        using g(4) [of "2 * s + ?x" "2 * t" 0 ?y] g(3) [of 0 "- ?y"] by simp
      from ge_msub_at [OF p1p1_to_p3_at [OF t2] q this]
      show ?thesis using 3 by (simp add: t3_def)
    qed
  qed
  from p1p1_to_p2_at [OF this] show ?thesis
    unfolding double_step_def Let_def t1_def [symmetric] t2_def [symmetric] t3_def [symmetric] .
qed

text \<open>The loop, from the first digit that is not zero down.\<close>

lemma drop_digit: "n < length r \<Longrightarrow> dval b (drop n r) = r ! n + b * dval b (drop (Suc n) r)"
  by (simp flip: Cons_nth_drop_Suc)

lemma double_loop_at:
  assumes "point_group m" "\<And>k. k < 8 \<Longrightarrow> ca_at (Ai ! k) (m (2 * int k + 1) 0)"
    "\<forall>x \<in> set as. x = 0 \<or> digit_ok x" "\<forall>x \<in> set bs. x = 0 \<or> digit_ok x" "length as = 256" "length bs = 256"
    "\<forall>y \<in> set bs. y \<noteq> 0 \<longrightarrow> pc_at (Bi ! nat (\<bar>y\<bar> div 2)) (m 0 \<bar>y\<bar>)"
    "n \<le> 256" "p2_at r (m (dval 2 (drop n as)) (dval 2 (drop n bs)))"
  shows "p2_at (fold (double_step as bs Ai) (rev [0..<n]) r) (m (dval 2 as) (dval 2 bs))"
  using assms(8,9)
proof (induction n arbitrary: r)
  case (Suc n)
  then have n: "n < length as" "n < length bs" using assms(5,6) by auto
  have m: "as ! n \<in> set as" "bs ! n \<in> set bs" using n by auto
  have "p2_at (double_step as bs Ai n r) (m (2 * dval 2 (drop (Suc n) as) + as ! n) (2 * dval 2 (drop (Suc n) bs) + bs ! n))"
    by (rule double_step_at [OF assms(1) Suc.prems(2) assms(2)]) (use assms(3,4,7) m in auto)
  then have "p2_at (double_step as bs Ai n r) (m (dval 2 (drop n as)) (dval 2 (drop n bs)))"
    using drop_digit [OF n(1), of 2] drop_digit [OF n(2), of 2] by (simp add: add.commute)
  then show ?case using Suc.IH Suc.prems(1) by simp
qed simp

lemma skipped_digits:
  assumes "n \<le> length as" "length bs = length as" "dval 2 (drop n as) = 0" "dval 2 (drop n bs) = 0"
  shows "\<exists>k\<le>n. dropWhile (\<lambda>i. as ! i = 0 \<and> bs ! i = 0) (rev [0..<n]) = rev [0..<k] \<and>
    dval 2 (drop k as) = 0 \<and> dval 2 (drop k bs) = 0"
  using assms
proof (induction n)
  case (Suc n)
  show ?case
  proof (cases "as ! n = 0 \<and> bs ! n = 0")
    case True
    then have "dval 2 (drop n as) = 0" "dval 2 (drop n bs) = 0"
      using Suc.prems drop_digit [of n as 2] drop_digit [of n bs 2] by simp_all
    from Suc.IH [OF _ Suc.prems(2) this] Suc.prems(1) True show ?thesis by (auto intro: le_SucI)
  next
    case False
    then show ?thesis using Suc.prems by (intro exI [of _ "Suc n"]) auto
  qed
qed auto

lemma double_scalarmult_at:
  assumes "length a = 32" "le_nat a < 2 ^ 255" "length b = 32" "le_nat b < 2 ^ 255" "point_group m" "p3_at A (m 1 0)"
    "\<forall>y \<in> set (slide b). y \<noteq> 0 \<longrightarrow> pc_at (Bi ! nat (\<bar>y\<bar> div 2)) (m 0 \<bar>y\<bar>)"
  shows "p2_at (ge_double_scalarmult_vartime a A b) (m (int (le_nat a)) (int (le_nat b)))"
proof -
  note sa = slide_spec [OF assms(1,2)] and sb = slide_spec [OF assms(3,4)]
  obtain k where k: "k \<le> 256"
    "dropWhile (\<lambda>i. slide a ! i = 0 \<and> slide b ! i = 0) (rev [0..<256]) = rev [0..<k]"
    "dval 2 (drop k (slide a)) = 0" "dval 2 (drop k (slide b)) = 0"
    using skipped_digits [of 256 "slide a" "slide b"] sa sb by auto
  have r: "p2_at ge_p2_0 (m (dval 2 (drop k (slide a))) (dval 2 (drop k (slide b))))"
    using neutral_at(1) point_groupD(1) [OF assms(5)] k(3,4) by simp
  have "p2_at (fold (double_step (slide a) (slide b) (odd_multiples A)) (rev [0..<k]) ge_p2_0) (m (dval 2 (slide a)) (dval 2 (slide b)))"
    by (rule double_loop_at [OF assms(5) _ _ _ _ _ assms(7) k(1) r])
      (use odd_multiples_at [OF assms(5,6)] sa sb in auto)
  then show ?thesis using sa sb by (simp only: ge_double_scalarmult_vartime_def Let_def k(2))
qed

end
