(* ===== verification/GeBytes.thy ===== *)
theory GeBytes
  imports GeScalar
begin

text \<open>
  Points as bytes: what \<open>ge_tobytes\<close> and \<open>ge_p3_tobytes\<close> write, and the points
  \<open>ge_frombytes_negate_vartime\<close> accepts.
\<close>

section \<open>Writing\<close>

text \<open>The encoding: \<open>y\<close> reduced, and the parity of \<open>x\<close> in the top bit.\<close>

definition encoding :: "affine \<Rightarrow> bytes" where
  "encoding = (\<lambda>(x, y). le_bytes 32 (nat (y mod fe_p) + 2 ^ 255 * nat (x mod fe_p mod 2)))"

lemma byte_mod: "(of_nat (v mod 256) :: u8) = of_nat v"
  by (simp add: word_unat_eq_iff unat_of_nat take_bit_eq_mod)

lemma le_bytes_top:
  assumes "n < 2 ^ 255" "b = 0 \<or> b = 1"
  shows "(le_bytes 32 n)[31 := le_bytes 32 n ! 31 XOR ucast (push_bit 7 (of_nat b :: i32))] = le_bytes 32 (n + 2 ^ 255 * b)"
proof -
  have h: "n div 256 ^ 31 < 128" using assms(1) by (simp add: less_mult_imp_div_less)
  have e: "le_bytes 32 v = le_bytes 31 v @ [of_nat (v div 256 ^ 31)]" for v
  proof -
    have "le_bytes (31 + 1) v = le_bytes 31 v @ [of_nat (v div 256 ^ 31)]"
      by (simp only: le_bytes_add One_nat_def le_bytes.simps byte_mod)
    then show ?thesis by simp
  qed
  have low: "le_bytes 31 (n + 2 ^ 255 * b) = le_bytes 31 n"
    using le_bytes_mod [of 31 "n + 2 ^ 255 * b"] le_bytes_mod [of 31 n] mod_mult_self2 [of n "256 ^ 31" "128 * b"] by simp
  have top: "(n + 2 ^ 255 * b) div 256 ^ 31 = n div 256 ^ 31 + 128 * b"
    using div_mult_self2 [of "256 ^ 31" n "128 * b"] by simp
  have "(of_nat (n div 256 ^ 31) :: u8) XOR 128 = of_nat (n div 256 ^ 31 + 128)"
  proof -
    have "\<forall>x \<in> set [0..<128]. (of_nat x :: u8) XOR 128 = of_nat (x + 128)" by code_simp
    then show ?thesis using h by simp
  qed
  then show ?thesis using assms(2) unfolding e low top by (auto simp: list_update_append nth_append)
qed

lemma point_bytes_encoding:
  assumes "short X (x * Z)" "short Y (y * Z)" "short z Z" "cg (Z * inverse_power Z) 1"
  shows "point_bytes X Y z = encoding (x, y)"
proof -
  have b: "broad X (x * Z)" "broad Y (y * Z)" "broad z Z" using assms(1-3) by (auto elim: represents_broad)
  note r = represents_invert [OF b(3)]
  have c: "w * Z * inverse_power Z mod fe_p = w mod fe_p" for w
    using cg_mult [OF cg_refl assms(4), of w] by (simp add: cg_def mult.assoc)
  have t: "tight (fe_mul X (fe_invert z)) x" "tight (fe_mul Y (fe_invert z)) y"
    by (rule represents_cong [OF represents_mul [OF b(1) r] c], rule represents_cong [OF represents_mul [OF b(2) r] c])
  then have "fe_bound 73819750 36909875 (fe_mul X (fe_invert z))" "represents 73819750 36909875 (fe_mul Y (fe_invert z)) y"
    by (auto simp: represents_def elim: fe_bound_mono)
  then have s: "fe_isnegative (fe_mul X (fe_invert z)) = of_int (x mod fe_p mod 2)"
    "fe_tobytes (fe_mul Y (fe_invert z)) = le_bytes 32 (nat (y mod fe_p))"
    using t(1) fe_predicates_correct represents_tobytes by (simp_all add: represents_def)
  have "nat (y mod fe_p) < 2 ^ 255" by (simp add: fe_p_def nat_less_iff less_trans [OF pos_mod_bound])
  moreover have "nat (x mod fe_p mod 2) = 0 \<or> nat (x mod fe_p mod 2) = 1" by linarith
  moreover have "(of_int (x mod fe_p mod 2) :: i32) = of_nat (nat (x mod fe_p mod 2))" by simp
  ultimately show ?thesis unfolding point_bytes_def Let_def s encoding_def prod.case by (simp only: le_bytes_top)
qed

section \<open>Reading\<close>

lemma sqrtm1_square: "cg (fe_val ge_sqrtm1 * fe_val ge_sqrtm1) (- 1)"
  by (simp add: cg_def fe_p_def ge_sqrtm1_def fe_val_def limbs_val_def sum_10 limb_weight_def)

lemma sqrtm1_value: "broad ge_sqrtm1 (fe_val ge_sqrtm1)" "broad ge_d curve_d"
  by (simp_all add: represents_def ge_sqrtm1_def ge_d_def curve_d_def fe_bound_ten)

text \<open>The candidate for the square root of \<open>u / v\<close>, and the two tests: \<open>v\<close> times its square is
  \<open>u\<close> or \<open>- u\<close>, or there is no point.\<close>

definition root_candidate :: "int \<Rightarrow> int" where
  "root_candidate y = (let u = y * y - 1; v = curve_d * (y * y) + 1 in u * v ^ 3 * (u * v ^ 7) ^ (2 ^ 252 - 3))"

definition decodable :: "int \<Rightarrow> bool" where
  "decodable y =
     (let u = y * y - 1; v = curve_d * (y * y) + 1; x = root_candidate y
      in cg (v * (x * x)) u \<or> cg (v * (x * x)) (- u))"

lemma represents_pow22523:
  assumes "broad z x" shows "broad (fe_pow22523 z) (x ^ (2 ^ 252 - 3))"
proof -
  have c: "fe_val z ^ n mod fe_p = x ^ n mod fe_p" for n
    using assms power_mod [of "fe_val z" fe_p n] power_mod [of x fe_p n] by (simp add: represents_def)
  have b: "fe_bound 110729625 55364812 z" using assms by (simp add: represents_def)
  show ?thesis
    unfolding represents_def using fe_pow22523_correct [OF b] c [of "2 ^ 252 - 3"] by (intro conjI) (erule conjunct2, simp only:)
qed

lemma tight_broad: "tight f x \<Longrightarrow> broad f x" "short f x \<Longrightarrow> broad f x"
  by (auto elim: represents_broad)

lemma isnonzero_represents: "represents 73819750 36909875 f x \<Longrightarrow> fe_isnonzero f \<noteq> 0 \<longleftrightarrow> \<not> cg x 0"
  using fe_predicates_correct [of f] by (simp add: represents_def cg_def)

lemma isnegative_represents: "represents 73819750 36909875 f x \<Longrightarrow> fe_isnegative f = of_int (x mod fe_p mod 2)"
  using fe_predicates_correct [of f] by (simp add: represents_def)

text \<open>What the code does once it has a root \<open>X\<close>: the sign bit selects the opposite of the one encoded.\<close>

definition finish_decoding :: "bytes \<Rightarrow> fe \<Rightarrow> int \<times> ge_p3" where
  "finish_decoding s X =
     (let X = (if fe_isnegative X = ucast (drop_bit 7 (s ! 31)) then fe_neg X else X); Y = fe_frombytes s
      in (0, \<lparr>p3_X = X, p3_Y = Y, p3_Z = fe_1, p3_T = fe_mul X Y\<rparr>))"

lemma fe_p_odd: "(fe_p - x) mod 2 = 1 - x mod 2"
proof -
  have "fe_p mod 2 = 1" by (simp add: fe_p_def)
  then show ?thesis by presburger
qed

lemma minus_parity: "\<not> cg x 0 \<Longrightarrow> - x mod fe_p mod 2 = 1 - x mod fe_p mod 2"
  using fe_p_odd [of "x mod fe_p"] by (simp add: cg_def zmod_zminus1_eq_if)

lemma sign_test:
  "(of_int (x mod fe_p mod 2) :: i32) = ucast (drop_bit 7 (b :: u8)) \<longleftrightarrow> x mod fe_p mod 2 = int (unat b div 128)"
proof -
  have b: "unat (drop_bit 7 b) = unat b div 128" by (simp add: drop_bit_eq_div unat_div)
  have "unat b div 128 < 2" using unat_u8_less [of b] by (simp add: less_mult_imp_div_less)
  then have l: "unat b div 128 = 0 \<or> unat b div 128 = 1" by linarith
  have u: "(ucast (drop_bit 7 b) :: i32) = of_nat (unat b div 128)" by (simp only: b [symmetric] of_nat_unat)
  have "x mod fe_p mod 2 = 0 \<or> x mod fe_p mod 2 = 1" by presburger
  then show ?thesis using l unfolding u by (elim disjE) simp_all
qed

lemma finish_decoding_at:
  assumes "tight X x" "length s = 32" "on_curve (x, int (le_nat s mod 2 ^ 255))"
  shows "\<exists>x'. fst (finish_decoding s X) = 0 \<and> p3_at (snd (finish_decoding s X)) (x', int (le_nat s mod 2 ^ 255)) \<and>
    on_curve (x', int (le_nat s mod 2 ^ 255)) \<and> (cg x' 0 \<or> x' mod fe_p mod 2 = 1 - int (le_nat s div 2 ^ 255))"
proof -
  let ?y = "int (le_nat s mod 2 ^ 255)"
  have sgn: "unat (s ! 31) div 128 = le_nat s div 2 ^ 255"
  proof -
    have "drop 31 s = [s ! 31]" using assms(2) Cons_nth_drop_Suc [of 31 s] by simp
    then have "le_nat s = le_nat (take 31 s) + 256 ^ 31 * unat (s ! 31)"
      using le_nat_take_drop [of s 31] assms(2) by simp
    moreover have "le_nat (take 31 s) < 256 ^ 31" using le_nat_less [of "take 31 s"] assms(2) by simp
    ultimately have "le_nat s div 256 ^ 31 = unat (s ! 31)" by simp
    then have "le_nat s div 256 ^ 31 div 128 = unat (s ! 31) div 128" by simp
    then show ?thesis by (simp add: div_mult2_eq [symmetric])
  qed
  define X' where "X' = (if fe_isnegative X = ucast (drop_bit 7 (s ! 31)) then fe_neg X else X)"
  define x' where "x' = (if x mod fe_p mod 2 = int (le_nat s div 2 ^ 255) then - x else x)"
  have neg: "fe_isnegative X = ucast (drop_bit 7 (s ! 31)) \<longleftrightarrow> x mod fe_p mod 2 = int (le_nat s div 2 ^ 255)"
    using isnegative_represents [OF represents_mono [OF assms(1)]] sign_test [of x "s ! 31"] by (simp add: sgn)
  have X: "short X' x'"
    using represents_neg [OF to_short [OF assms(1)]] to_short [OF assms(1)] by (simp add: X'_def x'_def neg)
  have bit: "int (le_nat s div 2 ^ 255) = 0 \<or> int (le_nat s div 2 ^ 255) = 1"
    using le_nat_less [of s] assms(2) by (auto simp: less_mult_imp_div_less dest!: less_2_cases)
  have par: "cg x' 0 \<or> x' mod fe_p mod 2 = 1 - int (le_nat s div 2 ^ 255)"
  proof (cases "x mod fe_p mod 2 = int (le_nat s div 2 ^ 255)")
    case True
    then show ?thesis using minus_parity [of x] by (auto simp: x'_def cg_def zmod_zminus1_eq_if)
  next
    case False
    moreover have "x mod fe_p mod 2 = 0 \<or> x mod fe_p mod 2 = 1" by presburger
    ultimately show ?thesis using bit by (auto simp: x'_def)
  qed
  have on: "on_curve (x', ?y)" using assms(3) by (simp add: on_curve_def x'_def)
  note y = represents_frombytes [OF assms(2)]
  have "short (fe_mul X' (fe_frombytes s)) (x' * ?y)"
    by (rule to_short [OF represents_mul [OF tight_broad(2) [OF X] tight_broad(2) [OF y]]])
  then have "p3_at \<lparr>p3_X = X', p3_Y = fe_frombytes s, p3_Z = fe_1, p3_T = fe_mul X' (fe_frombytes s)\<rparr> (x', ?y)"
    unfolding p3_at_def prod.case using X y invertible_1 by (intro exI [of _ 1]) (simp add: p3_is_def represents_1)
  then show ?thesis using on par
    unfolding finish_decoding_def Let_def X'_def [symmetric] by auto
qed

text \<open>The whole function: refused exactly when the candidate is no root; \<open>T\<close> is then left as it was.\<close>

lemma sqrtm1_root:
  assumes "cg (v * (x * x)) (- u)" shows "cg (v * ((x * fe_val ge_sqrtm1) * (x * fe_val ge_sqrtm1))) u"
proof -
  have "cg (v * (x * x) * (fe_val ge_sqrtm1 * fe_val ge_sqrtm1)) (- u * - 1)"
    by (rule cg_mult [OF assms sqrtm1_square])
  then show ?thesis by (simp add: ac_simps)
qed

lemma curve_root: "cg ((curve_d * (y * y) + 1) * (x * x)) (y * y - 1) \<Longrightarrow> on_curve (x, y)"
proof -
  assume "cg ((curve_d * (y * y) + 1) * (x * x)) (y * y - 1)"
  then show ?thesis unfolding on_curve_def prod.case cg_dvd by algebra
qed

lemma root_formula:
  fixes U V :: int
  shows "(V * V * V * (V * V * V) * V * U) ^ n * (V * V * V) * U = U * V ^ 3 * (U * V ^ 7) ^ n"
proof -
  have a: "V * V * V * (V * V * V) * V * U = U * V ^ 7" by (simp add: eval_nat_numeral)
  have b: "V * V * V = V ^ 3" by (simp add: eval_nat_numeral)
  show ?thesis unfolding a unfolding b by (simp only: ac_simps)
qed

lemma frombytes_negate_at:
  fixes s :: bytes
  assumes "length s = 32"
  defines "y \<equiv> int (le_nat s mod 2 ^ 255)"
  shows "if decodable y
    then fst (ge_frombytes_negate_vartime h s) = 0 \<and>
      (\<exists>x. p3_at (snd (ge_frombytes_negate_vartime h s)) (x, y) \<and> on_curve (x, y) \<and>
        (cg x 0 \<or> x mod fe_p mod 2 = 1 - int (le_nat s div 2 ^ 255)))
    else fst (ge_frombytes_negate_vartime h s) = - 1 \<and> p3_T (snd (ge_frombytes_negate_vartime h s)) = p3_T h"
proof -
  define Y where "Y = fe_frombytes s"
  define u where "u = fe_sub (fe_sq Y) fe_1"
  define v where "v = fe_add (fe_mul (fe_sq Y) ge_d) fe_1"
  define v3 where "v3 = fe_mul (fe_sq v) v"
  define w where "w = fe_mul (fe_mul (fe_sq v3) v) u"
  define X where "X = fe_mul (fe_mul (fe_pow22523 w) v3) u"
  define vxx where "vxx = fe_mul (fe_sq X) v"
  have code: "ge_frombytes_negate_vartime h s =
     (if fe_isnonzero (fe_sub vxx u) \<noteq> 0
      then (if fe_isnonzero (fe_add vxx u) \<noteq> 0 then (- 1, h\<lparr>p3_X := X, p3_Y := Y, p3_Z := fe_1\<rparr>)
            else finish_decoding s (fe_mul X ge_sqrtm1))
      else finish_decoding s X)"
    unfolding ge_frombytes_negate_vartime_def finish_decoding_def Let_def Y_def u_def v_def v3_def w_def X_def vxx_def ..
  define U where "U = y * y - 1"
  define V where "V = curve_d * (y * y) + 1"
  define R where "R = root_candidate y"
  have Y: "broad Y y" unfolding Y_def y_def by (rule tight_broad(2) [OF represents_frombytes [OF assms(1)]])
  have one: "represents 1 0 fe_1 1" by (rule represents_1) simp_all
  have u: "short u U" unfolding u_def U_def
    using represents_sub [OF represents_sq [OF Y] one] by (auto elim: represents_mono)
  have v: "short v V" unfolding v_def V_def
    using represents_add [OF represents_mul [OF tight_broad(1) [OF represents_sq [OF Y]] sqrtm1_value(2)] one]
    by (auto simp: mult.commute elim: represents_mono)
  note ub = tight_broad(2) [OF u] and vb = tight_broad(2) [OF v]
  have v3: "broad v3 (V * V * V)" unfolding v3_def by (rule tight_broad(1) [OF represents_mul [OF tight_broad(1) [OF represents_sq [OF vb]] vb]])
  have w: "broad w (V * V * V * (V * V * V) * V * U)" unfolding w_def
    by (rule tight_broad(1) [OF represents_mul [OF tight_broad(1) [OF represents_mul [OF tight_broad(1) [OF represents_sq [OF v3]] vb]] ub]])
  have "tight X ((V * V * V * (V * V * V) * V * U) ^ (2 ^ 252 - 3) * (V * V * V) * U)" unfolding X_def
    by (rule represents_mul [OF tight_broad(1) [OF represents_mul [OF represents_pow22523 [OF w] v3]] ub])
  moreover have "(V * V * V * (V * V * V) * V * U) ^ (2 ^ 252 - 3) * (V * V * V) * U = R"
    unfolding R_def root_candidate_def Let_def U_def [symmetric] V_def [symmetric] by (rule root_formula)
  ultimately have X: "tight X R" by simp
  have vxx: "tight vxx (R * R * V)" unfolding vxx_def
    by (rule represents_mul [OF tight_broad(1) [OF represents_sq [OF tight_broad(1) [OF X]]] vb])
  have tests: "fe_isnonzero (fe_sub vxx u) \<noteq> 0 \<longleftrightarrow> \<not> cg (V * (R * R)) U" "fe_isnonzero (fe_add vxx u) \<noteq> 0 \<longleftrightarrow> \<not> cg (V * (R * R)) (- U)"
    using isnonzero_represents [OF represents_mono [OF represents_sub [OF vxx u]]] isnonzero_represents [OF represents_mono [OF represents_add [OF vxx u]]]
    by (simp_all add: cg_dvd ac_simps)
  have dec: "decodable y \<longleftrightarrow> cg (V * (R * R)) U \<or> cg (V * (R * R)) (- U)"
    by (simp add: decodable_def Let_def R_def U_def V_def)
  note finish = finish_decoding_at [OF _ assms(1), folded y_def]
  show ?thesis
  proof (cases "cg (V * (R * R)) U")
    case True
    then have "on_curve (R, y)" unfolding U_def V_def by (rule curve_root)
    from finish [OF X this] True show ?thesis by (simp add: code tests dec)
  next
    case no: False
    show ?thesis
    proof (cases "cg (V * (R * R)) (- U)")
      case True
      have "on_curve (R * fe_val ge_sqrtm1, y)" using sqrtm1_root [OF True] unfolding U_def V_def by (rule curve_root)
      from finish [OF represents_mul [OF tight_broad(1) [OF X] sqrtm1_value(1)] this] True no
      show ?thesis by (simp add: code tests dec)
    next
      case False
      then show ?thesis using no by (simp add: code tests dec)
    qed
  qed
qed

end
