(* ===== verification/EdProofs.thy ===== *)
theory EdProofs
  imports Ed25519 GeMultiples GeBytes ShaProofs
begin

text \<open>
  Keys, signatures and the key exchange: the hashes are those of the standard, a scalar is read from the
  first 32 bytes of its array, and the ladder computes with points of the Montgomery curve.
\<close>

section \<open>Hashes and scalars\<close>

lemma hash_parts_std:
  assumes "length (md_buf ctx) = 128" "length (concat parts) < 2 ^ 61"
  shows "hash_parts ctx junk parts = std_hash (concat parts)"
proof -
  obtain md where md: "sha512_init (Some ctx) = (0, Some md)" "hashes md []" using hashes_init [OF assms(1)] by blast
  have "\<exists>md'. fold (\<lambda>x p. snd (sha512_update p (Some x))) parts (Some md) = Some md' \<and> hashes md' (m @ concat parts)"
    if "hashes md m" for md m
    using that
  proof (induction parts arbitrary: md m)
    case (Cons p ps)
    from Cons.IH [OF update_loop_hashes [OF Cons.prems, of p]] show ?case
      by (simp add: update_hashes [OF Cons.prems])
  qed simp
  from this [OF md(2)] obtain md' where u: "fold (\<lambda>x p. snd (sha512_update p (Some x))) parts (Some md) = Some md'" "hashes md' (concat parts)"
    by auto
  show ?thesis using final_hashes [OF u(2)] assms(2) by (auto simp: hash_parts_def Let_def md(1) u(1))
qed

lemma length_std_hash: "length (std_hash m) = 64"
proof -
  have "sum_list (map (\<lambda>w. length (be_bytes 8 (unat w))) (ws :: u64 list)) = 8 * length ws" for ws
    by (induction ws) (simp_all add: be_bytes_8)
  then show ?thesis by (simp add: std_hash_def length_concat comp_def length_std_blocks initial_state_def halves_def)
qed

definition group_order :: nat where
  "group_order = 2 ^ 252 + 27742317777372353535851937790883648493"

text \<open>The scalar a digest is reduced to.\<close>

definition hash_scalar :: "bytes \<Rightarrow> nat" where
  "hash_scalar m = le_nat (std_hash m) mod group_order"

lemma reduced_hash: "reduce_in_place (std_hash m) = le_bytes 32 (hash_scalar m) @ drop 32 (std_hash m)"
  using sc_reduce_value [OF length_std_hash] by (simp add: reduce_in_place_def hash_scalar_def group_order_def)

lemma hash_scalar_less: "hash_scalar m < group_order" "hash_scalar m < 2 ^ 255" "le_nat (le_bytes 32 (hash_scalar m)) = hash_scalar m"
proof -
  show l: "hash_scalar m < group_order" by (simp add: hash_scalar_def group_order_def)
  then show "hash_scalar m < 2 ^ 255" by (simp add: group_order_def)
  then show "le_nat (le_bytes 32 (hash_scalar m)) = hash_scalar m" by (simp add: le_nat_le_bytes)
qed

lemma recode_prefix: "length a = 32 \<Longrightarrow> recode (a @ b) = recode a"
proof -
  assume a: "length a = 32"
  have "recode_nibbles (a @ b) = recode_nibbles a"
    unfolding recode_nibbles_def by (rule arg_cong [of _ _ concat], rule map_cong) (auto simp: a nth_append)
  then show ?thesis by (simp add: recode_def)
qed

lemma slide_prefix: "length a = 32 \<Longrightarrow> slide (a @ b) = slide a"
proof -
  assume a: "length a = 32"
  have "slide_bits (a @ b) = slide_bits a"
    unfolding slide_bits_def by (rule map_cong) (auto simp: a nth_append)
  then show ?thesis by (simp add: slide_def)
qed

lemma scalar_loads_prefix: "length a = 32 \<Longrightarrow> scalar_loads (a @ b) = scalar_loads a"
  by (simp add: scalar_loads_def limb_3_def limb_4_def load_3_def load_4_def nth_append)

lemma prefix_reads:
  assumes "length a = 32"
  shows "ge_scalarmult_base (a @ b) = ge_scalarmult_base a"
    "ge_double_scalarmult_vartime (a @ b) A c = ge_double_scalarmult_vartime a A c"
    "sc_muladd (a @ b) x y = sc_muladd a x y" "sc_muladd x (a @ b) y = sc_muladd x a y" "sc_muladd x y (a @ b) = sc_muladd x y a"
  by (simp_all add: ge_scalarmult_base_def ge_double_scalarmult_vartime_def sc_muladd_def recode_prefix slide_prefix scalar_loads_prefix assms)

lemma length_fe_tobytes: "length (fe_tobytes f) = 32"
  by (simp add: fe_tobytes_def tobytes_pack_def)

lemma length_point_bytes: "length (ge_p3_tobytes p) = 32" "length (ge_tobytes r) = 32"
  by (simp_all add: ge_p3_tobytes_def ge_tobytes_def point_bytes_def Let_def length_fe_tobytes)

section \<open>Signatures\<close>

lemma sign_value:
  fixes private_key public_key message :: bytes
  assumes "length (md_buf ctx) = 128" "length private_key = 64" "length public_key = 32" "length message < 2 ^ 60"
  defines "r \<equiv> hash_scalar (drop 32 private_key @ message)"
  defines "R \<equiv> ge_p3_tobytes (ge_scalarmult_base (le_bytes 32 r))"
  defines "h \<equiv> hash_scalar (R @ public_key @ message)"
  shows "ed25519_sign ctx junk message public_key private_key =
    R @ le_bytes 32 ((h * le_nat (take 32 private_key) + r) mod group_order)"
proof -
  have l: "length (take 32 private_key) = 32" using assms(2) by simp
  have R: "take 32 R = R" "length R = 32" by (simp_all add: R_def length_point_bytes)
  have h1: "hash_parts ctx junk [take 32 (drop 32 private_key), message] = std_hash (drop 32 private_key @ message)"
    using hash_parts_std [OF assms(1), of "[take 32 (drop 32 private_key), message]"] assms(2,4) by simp
  have h2: "hash_parts ctx junk [take 32 R, take 32 public_key, message] = std_hash (R @ public_key @ message)"
    using hash_parts_std [OF assms(1), of "[take 32 R, take 32 public_key, message]"] assms(3,4) R by simp
  have mul: "sc_muladd (le_bytes 32 h @ x) private_key (le_bytes 32 r @ y) =
      le_bytes 32 ((h * le_nat (take 32 private_key) + r) mod group_order)" for x y
  proof -
    have "sc_muladd (le_bytes 32 h @ x) private_key (le_bytes 32 r @ y) = sc_muladd (le_bytes 32 h) (take 32 private_key) (le_bytes 32 r)"
      using prefix_reads(4) [OF l, of _ "drop 32 private_key"] by (simp add: prefix_reads)
    also have "\<dots> = le_bytes 32 ((le_nat (le_bytes 32 h) * le_nat (take 32 private_key) + le_nat (le_bytes 32 r)) mod group_order)"
      using sc_muladd_value [of "le_bytes 32 h" "take 32 private_key" "le_bytes 32 r"] assms(2) by (simp add: group_order_def)
    finally show ?thesis by (simp add: h_def r_def hash_scalar_less(3))
  qed
  show ?thesis
    unfolding ed25519_sign_def Let_def h1 reduced_hash prefix_reads(1) [OF length_le_bytes] r_def [symmetric] R_def [symmetric] h2
    by (simp only: h_def [symmetric] mul)
qed

text \<open>\<open>consttime_equal\<close> compares the first 32 bytes.\<close>

lemma fold_or_xor: "fold (\<lambda>i r. r OR (x ! i XOR y ! i)) is r = (0 :: u8) \<longleftrightarrow> r = 0 \<and> (\<forall>i \<in> set is. x ! i = y ! i)"
proof (induction "is" arbitrary: r)
  case (Cons i "is")
  have "r OR (x ! i XOR y ! i) = 0 \<longleftrightarrow> r = 0 \<and> x ! i = y ! i"
    by (auto simp: bit_eq_iff bit_simps)
  then show ?case using Cons.IH by auto
qed simp

lemma consttime_equal_take:
  assumes "32 \<le> length x" "32 \<le> length y"
  shows "consttime_equal x y \<longleftrightarrow> take 32 x = take 32 y"
proof -
  have "x ! 0 XOR y ! 0 = 0 \<longleftrightarrow> x ! 0 = y ! 0" by (auto simp: bit_eq_iff bit_simps)
  then have "consttime_equal x y \<longleftrightarrow> x ! 0 = y ! 0 \<and> (\<forall>i \<in> {1..<32}. x ! i = y ! i)"
    by (simp add: consttime_equal_def fold_or_xor)
  also have "\<dots> \<longleftrightarrow> (\<forall>i<32. x ! i = y ! i)" by (metis atLeastLessThan_iff less_one linorder_not_less zero_less_numeral)
  also have "\<dots> \<longleftrightarrow> take 32 x = take 32 y" using assms by (auto simp: list_eq_iff_nth_eq)
  finally show ?thesis .
qed

text \<open>The number of the second half of a signature that passes the first test.\<close>

lemma small_signature:
  assumes "length sig = 64"
  shows "sig ! 63 AND 224 = (0 :: u8) \<longleftrightarrow> le_nat (drop 32 sig) < 2 ^ 253"
proof -
  have b: "x AND 224 = (0 :: u8) \<longleftrightarrow> unat x < 32" for x
  proof -
    have "\<forall>n \<in> set [0..<256]. (of_nat n :: u8) AND 224 = 0 \<longleftrightarrow> n < 32" by code_simp
    from bspec [OF this, of "unat x"] have "(of_nat (unat x) :: u8) AND 224 = 0 \<longleftrightarrow> unat x < 32"
      using unat_u8_less [of x] by (simp del: of_nat_unat)
    then show ?thesis by simp
  qed
  have "drop 31 (drop 32 sig) = [sig ! 63]" using assms Cons_nth_drop_Suc [of 63 sig] by simp
  then have e: "le_nat (drop 32 sig) = le_nat (take 31 (drop 32 sig)) + 256 ^ 31 * unat (sig ! 63)"
    using le_nat_take_drop [of "drop 32 sig" 31] assms by simp
  have "le_nat (take 31 (drop 32 sig)) < 256 ^ 31" using le_nat_less [of "take 31 (drop 32 sig)"] assms by simp
  then have "le_nat (drop 32 sig) div 256 ^ 31 = unat (sig ! 63)" using e by simp
  moreover have "le_nat (drop 32 sig) < 2 ^ 253 \<longleftrightarrow> le_nat (drop 32 sig) div 256 ^ 31 < 32"
    by (subst div_less_iff_less_mult) simp_all
  ultimately show ?thesis by (simp add: b)
qed

lemma verify_value:
  fixes signature public_key message :: bytes
  assumes "length (md_buf ctx) = 128" "length signature = 64" "length public_key = 32" "length message < 2 ^ 60"
  defines "h \<equiv> hash_scalar (take 32 signature @ public_key @ message)"
  shows "ed25519_verify ctx junk A signature message public_key =
    (if le_nat (drop 32 signature) < 2 ^ 253 \<and> decodable (int (le_nat public_key mod 2 ^ 255)) \<and>
        ge_tobytes (ge_double_scalarmult_vartime (le_bytes 32 h) (snd (ge_frombytes_negate_vartime A public_key)) (drop 32 signature)) =
          take 32 signature
     then 1 else 0)"
proof -
  have ret: "fst (ge_frombytes_negate_vartime A public_key) \<noteq> 0 \<longleftrightarrow> \<not> decodable (int (le_nat public_key mod 2 ^ 255))"
    using frombytes_negate_at [OF assms(3), of A] by (auto split: if_splits)
  have hash: "hash_parts ctx junk [take 32 signature, take 32 public_key, message] = std_hash (take 32 signature @ public_key @ message)"
    using hash_parts_std [OF assms(1), of "[take 32 signature, take 32 public_key, message]"] assms(2-4) by simp
  have eq: "consttime_equal (ge_tobytes R) signature \<longleftrightarrow> ge_tobytes R = take 32 signature" for R
    using consttime_equal_take [of "ge_tobytes R" signature] assms(2) by (simp add: length_point_bytes)
  show ?thesis
    unfolding ed25519_verify_def Let_def hash reduced_hash prefix_reads(2) [OF length_le_bytes] h_def [symmetric] eq
    using ret small_signature [OF assms(2)] by (auto split: prod.splits)
qed

end
