(* ===== verification/EdLadder.thy ===== *)
theory EdLadder
  imports EdProofs
begin

text \<open>
  The key exchange computes the Montgomery ladder: two points of the Montgomery curve by their projective
  \<open>x\<close>-coordinates, whose difference is the point of the public key.  The code swaps its variables
  instead of choosing between them, and undoes the last swap at the next step.
\<close>

section \<open>The ladder over the integers\<close>

type_synonym xz = "int \<times> int"

definition xz_double :: "xz \<Rightarrow> xz" where
  "xz_double = (\<lambda>(x, z).
     let a = (x + z) * (x + z); b = (x - z) * (x - z); c = a - b in (a * b, c * (b + 121666 * c)))"

definition xz_add :: "int \<Rightarrow> xz \<Rightarrow> xz \<Rightarrow> xz" where
  "xz_add x1 = (\<lambda>(x2, z2) (x3, z3).
     let a = (x3 - z3) * (x2 + z2); b = (x3 + z3) * (x2 - z2) in ((a + b) * (a + b), x1 * ((a - b) * (a - b))))"

text \<open>\<open>(P, Q)\<close> becomes \<open>(2 P, P + Q)\<close> or \<open>(P + Q, 2 Q)\<close>.\<close>

definition xz_step :: "int \<Rightarrow> bool \<Rightarrow> xz \<times> xz \<Rightarrow> xz \<times> xz" where
  "xz_step x1 b = (\<lambda>(P, Q). if b then (xz_add x1 P Q, xz_double Q) else (xz_double P, xz_add x1 P Q))"

definition xz_ladder :: "int \<Rightarrow> bool list \<Rightarrow> xz" where
  "xz_ladder x1 bs = fst (fold (xz_step x1) bs ((1, 0), (x1, 1)))"

lemma xz_add_commute: "xz_add x1 P Q = xz_add x1 Q P"
proof -
  have "a * b + c * d = d * c + (b * a :: int)" "(a - b) * (a - b) = (b - a) * (b - a :: int)" for a b c d
    by (simp_all add: algebra_simps)
  then show ?thesis by (simp add: xz_add_def Let_def split: prod.splits) (simp add: algebra_simps)
qed

section \<open>The ladder of the code\<close>

text \<open>The variables stand for the coordinates of \<open>P\<close> and \<open>Q\<close>.\<close>

definition ladder_is :: "ladder \<Rightarrow> xz \<Rightarrow> xz \<Rightarrow> bool" where
  "ladder_is s P Q \<longleftrightarrow> short (la_x2 s) (fst P) \<and> short (la_z2 s) (snd P) \<and> short (la_x3 s) (fst Q) \<and> short (la_z3 s) (snd Q)"

lemma ladder_formulas_is:
  assumes "ladder_is s P Q" "broad f x1"
  shows "ladder_is (ladder_formulas f s) (xz_double P) (xz_add x1 P Q)" "la_swap (ladder_formulas f s) = la_swap s"
proof -
  obtain x2 z2 x3 z3 where pq: "P = (x2, z2)" "Q = (x3, z3)" by (metis surj_pair)
  have s: "short (la_x2 s) x2" "short (la_z2 s) z2" "short (la_x3 s) x3" "short (la_z3 s) z3"
    using assms(1) by (simp_all add: ladder_is_def pq)
  note bigger = represents_mono
  define m3 where "m3 = fe_sub (la_x3 s) (la_z3 s)"
  define m2 where "m2 = fe_sub (la_x2 s) (la_z2 s)"
  define p2 where "p2 = fe_add (la_x2 s) (la_z2 s)"
  define p3 where "p3 = fe_add (la_x3 s) (la_z3 s)"
  have m: "broad m3 (x3 - z3)" "broad m2 (x2 - z2)" "broad p2 (x2 + z2)" "broad p3 (x3 + z3)"
    unfolding m3_def m2_def p2_def p3_def
    using represents_sub [OF s(3,4)] represents_sub [OF s(1,2)] represents_add [OF s(1,2)] represents_add [OF s(3,4)]
    by (auto elim: represents_broad)
  define da where "da = fe_mul m3 p2"
  define cb where "cb = fe_mul p3 m2"
  define bb where "bb = fe_sq m2"
  define aa where "aa = fe_sq p2"
  have t: "tight da ((x3 - z3) * (x2 + z2))" "tight cb ((x3 + z3) * (x2 - z2))" "tight bb ((x2 - z2) * (x2 - z2))" "tight aa ((x2 + z2) * (x2 + z2))"
    unfolding da_def cb_def bb_def aa_def by (intro represents_mul represents_sq m)+
  define c where "c = fe_sub aa bb"
  let ?c = "(x2 + z2) * (x2 + z2) - (x2 - z2) * (x2 - z2)"
  have c: "represents 67779952 33889976 c ?c" unfolding c_def using represents_sub [OF t(4,3)] by simp
  have e: "short (fe_mul121666 c) (121666 * ?c)" by (rule represents_mul121666 [OF represents_mono [OF c]]) simp_all
  have sums: "broad (fe_add da cb) ((x3 - z3) * (x2 + z2) + (x3 + z3) * (x2 - z2))"
    "broad (fe_sub da cb) ((x3 - z3) * (x2 + z2) - (x3 + z3) * (x2 - z2))"
    "broad (fe_add bb (fe_mul121666 c)) ((x2 - z2) * (x2 - z2) + 121666 * ?c)"
    using represents_add [OF t(1,2)] represents_sub [OF t(1,2)] represents_add [OF t(3) e] by (auto elim: represents_broad)
  note sq = represents_sq [OF sums(1)] represents_sq [OF sums(2)]
  have "short (fe_mul aa bb) ((x2 + z2) * (x2 + z2) * ((x2 - z2) * (x2 - z2)))"
    by (rule to_short [OF represents_mul [OF tight_broad(1) [OF t(4)] tight_broad(1) [OF t(3)]]])
  moreover have "short (fe_mul c (fe_add bb (fe_mul121666 c))) (?c * ((x2 - z2) * (x2 - z2) + 121666 * ?c))"
    by (rule to_short [OF represents_mul [OF _ sums(3)]]) (rule represents_broad [OF c], simp_all)
  moreover have "short (fe_sq (fe_add da cb)) (((x3 - z3) * (x2 + z2) + (x3 + z3) * (x2 - z2)) * ((x3 - z3) * (x2 + z2) + (x3 + z3) * (x2 - z2)))"
    by (rule to_short [OF sq(1)])
  moreover have "short (fe_mul f (fe_sq (fe_sub da cb)))
      (x1 * (((x3 - z3) * (x2 + z2) - (x3 + z3) * (x2 - z2)) * ((x3 - z3) * (x2 + z2) - (x3 + z3) * (x2 - z2))))"
    by (rule to_short [OF represents_mul [OF assms(2) tight_broad(1) [OF sq(2)]]])
  ultimately show "ladder_is (ladder_formulas f s) (xz_double P) (xz_add x1 P Q)"
    by (simp add: ladder_is_def ladder_formulas_def Let_def xz_double_def xz_add_def pq
      m3_def [symmetric] m2_def [symmetric] p2_def [symmetric] p3_def [symmetric]
      da_def [symmetric] cb_def [symmetric] bb_def [symmetric] aa_def [symmetric] c_def [symmetric])
  show "la_swap (ladder_formulas f s) = la_swap s" by (simp add: ladder_formulas_def Let_def)
qed

lemma represents_length: "represents a b f x \<Longrightarrow> length f = 10"
  by (auto simp: represents_def intro: fe_bound_length)

lemma swap_points_is:
  assumes "ladder_is s P Q"
  shows "ladder_is (swap_points 0 s) P Q" "ladder_is (swap_points 1 s) Q P" "la_swap (swap_points b s) = la_swap s"
proof -
  have l: "length (la_x2 s) = 10" "length (la_z2 s) = 10" "length (la_x3 s) = 10" "length (la_z3 s) = 10"
    using assms by (auto simp: ladder_is_def represents_length)
  show "ladder_is (swap_points 0 s) P Q" "ladder_is (swap_points 1 s) Q P" "la_swap (swap_points b s) = la_swap s"
    using assms fe_moves_correct l by (simp_all add: swap_points_def ladder_is_def split: prod.splits)
qed

text \<open>After a step for the bit \<open>b\<close> the variables are swapped if \<open>b\<close> is set.\<close>

definition ladder_at :: "ladder \<Rightarrow> xz \<times> xz \<Rightarrow> bool" where
  "ladder_at s = (\<lambda>(P, Q). (la_swap s = 0 \<and> ladder_is s P Q) \<or> (la_swap s = 1 \<and> ladder_is s Q P))"

lemma ladder_bit: "(ucast (drop_bit k (x :: u8)) AND 1 :: u32) = of_bool (bit x k)"
  by (rule bit_word_eqI) (auto simp: bit_simps)

lemma ladder_step_at:
  assumes "ladder_at s PQ" "broad f x1"
  shows "ladder_at (ladder_step e f k s) (xz_step x1 (bit (e ! (k div 8)) (k mod 8)) PQ)"
proof -
  obtain P Q where pq: "PQ = (P, Q)" by (cases PQ)
  define b where "b = bit (e ! (k div 8)) (k mod 8)"
  define s' where "s' = swap_points (la_swap s XOR of_bool b) s"
  have s': "ladder_is s' (if b then Q else P) (if b then P else Q)"
    using assms(1) by (auto simp: ladder_at_def pq s'_def swap_points_is)
  have step: "ladder_step e f k s = ladder_formulas f (s'\<lparr>la_swap := of_bool b\<rparr>)"
    by (simp only: ladder_step_def ladder_bit b_def [symmetric] s'_def [symmetric] Let_def)
  have "ladder_is (s'\<lparr>la_swap := of_bool b\<rparr>) (if b then Q else P) (if b then P else Q)" using s' by (simp add: ladder_is_def)
  from ladder_formulas_is [OF this assms(2)] show ?thesis
    unfolding step b_def [symmetric]
    by (auto simp: ladder_at_def pq xz_step_def xz_add_commute [of x1 Q P])
qed

lemma ladder_fold_at:
  assumes "ladder_at s PQ" "broad f x1"
  shows "ladder_at (fold (ladder_step e f) ks s) (fold (xz_step x1) (map (\<lambda>k. bit (e ! (k div 8)) (k mod 8)) ks) PQ)"
  using assms(1) by (induction ks arbitrary: s PQ) (simp_all add: ladder_step_at [OF _ assms(2)])

text \<open>The bits of the clamped key, from bit 254 down, and the coordinate of the public key.\<close>

definition key_bits :: "nat \<Rightarrow> bool list" where
  "key_bits n = map (bit n) (rev [0..<255])"

definition montgomery_u :: "int \<Rightarrow> int" where
  "montgomery_u y = (y + 1) * inverse_power (1 - y)"

lemma montgomery_x_is: "length k = 32 \<Longrightarrow> short (montgomery_x k) (montgomery_u (int (le_nat k mod 2 ^ 255)))"
proof -
  let ?y = "int (le_nat k mod 2 ^ 255)"
  assume "length k = 32"
  note y = represents_frombytes [OF this]
  have one: "represents 1 0 fe_1 1" by (rule represents_1) simp_all
  have p: "broad (fe_add (fe_frombytes k) fe_1) (?y + 1)" and m: "broad (fe_sub fe_1 (fe_frombytes k)) (1 - ?y)"
    using represents_add [OF y one] represents_sub [OF one y] by (auto elim: represents_broad)
  show ?thesis unfolding montgomery_x_def Let_def montgomery_u_def
    by (rule to_short [OF represents_mul [OF p represents_invert [OF m]]])
qed

lemma length_clamp: "length (clamp e) = length e"
  by (simp add: clamp_def Let_def)

lemma key_exchange_value:
  assumes "length public_key = 32" "32 \<le> length private_key"
  shows "ed25519_key_exchange public_key private_key =
    (case xz_ladder (montgomery_u (int (le_nat public_key mod 2 ^ 255))) (key_bits (le_nat (clamp (take 32 private_key)))) of
       (X, Z) \<Rightarrow> le_bytes 32 (nat (X * inverse_power Z mod fe_p)))"
proof -
  define e where "e = clamp (take 32 private_key)"
  define f where "f = montgomery_x public_key"
  define u where "u = montgomery_u (int (le_nat public_key mod 2 ^ 255))"
  define s0 where "s0 = \<lparr>la_x2 = fe_1, la_z2 = fe_0, la_x3 = fe_copy f, la_z3 = fe_1, la_swap = 0\<rparr>"
  define s where "s = fold (ladder_step e f) (rev [0..<255]) s0"
  define s' where "s' = swap_points (la_swap s) s"
  have f: "short f u" unfolding f_def u_def by (rule montgomery_x_is [OF assms(1)])
  have "ladder_at s0 ((1, 0), (u, 1))"
    using f by (simp add: ladder_at_def ladder_is_def s0_def fe_copy_def represents_0 represents_1)
  from ladder_fold_at [OF this tight_broad(2) [OF f]]
  have s: "ladder_at s (fold (xz_step u) (map (\<lambda>k. bit (e ! (k div 8)) (k mod 8)) (rev [0..<255])) ((1, 0), (u, 1)))"
    unfolding s_def .
  have e: "length e = 32" using assms(2) by (simp add: e_def length_clamp)
  have "map (\<lambda>k. bit (e ! (k div 8)) (k mod 8)) (rev [0..<255]) = key_bits (le_nat e)"
    unfolding key_bits_def by (rule map_cong) (simp_all add: bit_le_nat e)
  note s = s [unfolded this]
  obtain P Q where pq: "fold (xz_step u) (key_bits (le_nat e)) ((1, 0), (u, 1)) = (P, Q)" by (metis surj_pair)
  obtain X Z where P: "P = (X, Z)" by (cases P)
  have "ladder_is s' P Q" using s unfolding pq s'_def by (auto simp: ladder_at_def swap_points_is)
  then have xz: "broad (la_x2 s') X" "broad (la_z2 s') Z" by (simp_all add: ladder_is_def P tight_broad(2))
  have "represents 73819750 36909875 (fe_mul (la_x2 s') (fe_invert (la_z2 s'))) (X * inverse_power Z)"
    by (rule represents_mono [OF represents_mul [OF xz(1) represents_invert [OF xz(2)]]]) simp_all
  from represents_tobytes [OF this] show ?thesis
    unfolding ed25519_key_exchange_def Let_def xz_ladder_def e_def [symmetric] f_def [symmetric] u_def [symmetric]
      s0_def [symmetric] s_def [symmetric] s'_def [symmetric] pq P by simp
qed

end
