(* ===== verification/EdKeys.thy ===== *)
theory EdKeys
  imports EdLadder
begin

text \<open>
  Key pairs and derived keys: the number a clamped key stands for, and what \<open>ed25519_add_scalar\<close> leaves
  in its arguments.
\<close>

section \<open>Clamping\<close>

text \<open>The three low bits cleared, bit 254 set, bit 255 cleared.\<close>

definition clamped :: "nat \<Rightarrow> nat" where
  "clamped n = n mod 2 ^ 254 div 8 * 8 + 2 ^ 254"

lemma clamp_bytes: "unat (x AND 248 :: u8) = unat x div 8 * 8" "unat ((x AND 63) OR 64 :: u8) = unat x mod 64 + 64"
proof -
  have a: "\<forall>n \<in> set [0..<256]. unat ((of_nat n :: u8) AND 248) = n div 8 * 8" by code_simp
  have b: "\<forall>n \<in> set [0..<256]. unat (((of_nat n :: u8) AND 63) OR 64) = n mod 64 + 64" by code_simp
  show "unat (x AND 248 :: u8) = unat x div 8 * 8" "unat ((x AND 63) OR 64 :: u8) = unat x mod 64 + 64"
    using bspec [OF a, of "unat x"] bspec [OF b, of "unat x"] unat_u8_less [of x] by simp_all
qed

lemma top_bits: "b + 256 * (M + q * t) = (b + 256 * M + 256 * q * (t mod 64)) + 256 * (q * 64) * (t div 64 :: nat)"
proof -
  have "q * t = q * (64 * (t div 64) + t mod 64)" by simp
  then show ?thesis by (simp only: distrib_left ac_simps)
qed

lemma clamped_sum:
  fixes b t M :: nat
  assumes "M < 256 ^ 30" "b < 256"
  shows "clamped (b + 256 * (M + 256 ^ 30 * t)) = b mod 256 div 8 * 8 + 256 * (M + 256 ^ 30 * (t mod 64 + 64))"
proof -
  have two: "(2::nat) ^ 254 = 256 * (256 ^ 30 * 64)" by simp
  have t: "b + 256 * (M + 256 ^ 30 * t) = (b + 256 * M + 256 * 256 ^ 30 * (t mod 64)) + 2 ^ 254 * (t div 64)"
    using top_bits [of b M "256 ^ 30" t] unfolding two by simp
  have "b + 256 * M < 256 * 256 ^ 30" using assms by linarith
  moreover have "256 * 256 ^ 30 * (t mod 64) \<le> 256 * 256 ^ 30 * 63" using mod_less_divisor [of 64 t] by (intro mult_le_mono2) linarith
  ultimately have "b + 256 * M + 256 * 256 ^ 30 * (t mod 64) < 2 ^ 254" by simp
  then have m: "(b + 256 * (M + 256 ^ 30 * t)) mod 2 ^ 254 = b + 256 * M + 256 * 256 ^ 30 * (t mod 64)"
    unfolding t by (simp only: mod_mult_self2 mod_less)
  have "b + 256 * M + 256 * 256 ^ 30 * (t mod 64) = b + 8 * (32 * M + 32 * 256 ^ 30 * (t mod 64))" by simp
  then have "(b + 256 * M + 256 * 256 ^ 30 * (t mod 64)) div 8 = b div 8 + (32 * M + 32 * 256 ^ 30 * (t mod 64))"
    by (simp only: div_mult_self2 zero_neq_numeral [symmetric] not_False_eq_True add.commute)
  then show ?thesis using assms(2) unfolding clamped_def m by simp
qed

lemma clamp_value:
  assumes "length e = 32" shows "le_nat (clamp e) = clamped (le_nat e)"
proof -
  define M where "M = take 30 (drop 1 e)"
  have "drop 31 e = [e ! 31]" "e = e ! 0 # drop 1 e"
    using assms Cons_nth_drop_Suc [of 31 e] Cons_nth_drop_Suc [of 0 e] by simp_all
  then have e: "e = e ! 0 # M @ [e ! 31]" using append_take_drop_id [of 30 "drop 1 e"] by (simp add: M_def)
  have l: "length M = 30" using assms by (simp add: M_def)
  have c: "clamp e = (e ! 0 AND 248) # M @ [(e ! 31 AND 63) OR 64]"
    unfolding clamp_def Let_def
    by (subst e, subst (2) e, subst (3) e) (simp add: l list_update_append nth_append numeral_eq_Suc)
  have "le_nat M < 256 ^ 30" using le_nat_less [of M] l by simp
  note s = clamped_sum [OF this unat_u8_less [of "e ! 0"], of "unat (e ! 31)"]
  have "le_nat e = unat (e ! 0) + 256 * (le_nat M + 256 ^ 30 * unat (e ! 31))" by (subst e) (simp add: le_nat_append l)
  moreover have "le_nat (clamp e) = unat (e ! 0) div 8 * 8 + 256 * (le_nat M + 256 ^ 30 * (unat (e ! 31) mod 64 + 64))"
    unfolding c by (simp add: le_nat_append l clamp_bytes)
  ultimately show ?thesis using s unat_u8_less [of "e ! 0"] by simp
qed

lemma clamp_append: "length a = 32 \<Longrightarrow> clamp (a @ b) = clamp a @ b"
  by (simp add: clamp_def Let_def list_update_append nth_append)

section \<open>Key pairs\<close>

lemma keypair_value:
  assumes "length (md_buf ctx) = 128" "length seed = 32"
  defines "k \<equiv> le_bytes 32 (clamped (le_nat (take 32 (std_hash seed))))"
  shows "ed25519_create_keypair ctx private_key seed = (ge_p3_tobytes (ge_scalarmult_base k), k @ drop 32 (std_hash seed))"
proof -
  have "sha512 ctx (Some seed) True = (0, Some (std_hash seed))" using sha512_value [OF assms(1)] assms(2) by simp
  moreover have "clamp (std_hash seed) = k @ drop 32 (std_hash seed)"
  proof -
    have l: "length (take 32 (std_hash seed)) = 32" by (simp add: length_std_hash)
    have "clamp (take 32 (std_hash seed)) = k"
      using le_bytes_le_nat [of "clamp (take 32 (std_hash seed))"] clamp_value [OF l] by (simp add: k_def length_clamp length_std_hash)
    then show ?thesis using clamp_append [OF l, of "drop 32 (std_hash seed)"] by simp
  qed
  ultimately show ?thesis by (simp add: ed25519_create_keypair_def Let_def prefix_reads(1) k_def)
qed

section \<open>Derived keys\<close>

lemma masked_scalar:
  assumes "length s = 32" shows "le_nat (take 31 s @ [s ! 31 AND 127]) = le_nat s mod 2 ^ 255"
proof -
  have b: "\<forall>n \<in> set [0..<256]. unat ((of_nat n :: u8) AND 127) = n mod 128" by code_simp
  then have m: "unat (s ! 31 AND 127) = unat (s ! 31) mod 128"
    using bspec [OF b, of "unat (s ! 31)"] unat_u8_less [of "s ! 31"] by simp
  have "drop 31 s = [s ! 31]" using assms Cons_nth_drop_Suc [of 31 s] by simp
  then have e: "le_nat s = le_nat (take 31 s) + 256 ^ 31 * unat (s ! 31)" using le_nat_take_drop [of s 31] assms by simp
  have "le_nat (take 31 s) < 256 ^ 31" using le_nat_less [of "take 31 s"] assms by simp
  then have "le_nat s mod 2 ^ 255 = le_nat (take 31 s) + 256 ^ 31 * (unat (s ! 31) mod 128)"
    using mod_mult2_eq [of "le_nat s" "256 ^ 31" 128] e by simp
  then show ?thesis using assms by (simp add: le_nat_append m)
qed

text \<open>The private half: the sum of the keys, and a new prefix from the old one and the scalar.\<close>

definition derived_key :: "bytes \<Rightarrow> bytes \<Rightarrow> bytes" where
  "derived_key private_key scalar =
     le_bytes 32 ((le_nat scalar mod 2 ^ 255 + le_nat (take 32 private_key)) mod group_order) @
     take 32 (std_hash (drop 32 private_key @ scalar))"

lemma add_private_value:
  assumes "length (md_buf ctx) = 128" "length private_key = 64" "length scalar = 32"
  shows "add_private ctx junk (take 31 scalar @ [scalar ! 31 AND 127]) private_key scalar = derived_key private_key scalar"
proof -
  let ?n = "take 31 scalar @ [scalar ! 31 AND 127]"
  have l: "length (take 32 private_key) = 32" "length ?n = 32" "length SC_1 = 32" using assms by (simp_all add: SC_1_def)
  have one: "le_nat SC_1 = 1" using le_nat_0 [of "replicate 31 0"] by (simp add: SC_1_def)
  have "sc_muladd SC_1 ?n private_key = sc_muladd SC_1 ?n (take 32 private_key)"
    using prefix_reads(5) [OF l(1), of _ _ "drop 32 private_key"] by simp
  also have "\<dots> = le_bytes 32 ((le_nat scalar mod 2 ^ 255 + le_nat (take 32 private_key)) mod group_order)"
    using sc_muladd_value [OF l(3,2,1)] by (simp add: one masked_scalar [OF assms(3)] group_order_def)
  finally have m: "sc_muladd SC_1 ?n private_key = le_bytes 32 ((le_nat scalar mod 2 ^ 255 + le_nat (take 32 private_key)) mod group_order)" .
  have h: "hash_parts ctx junk [drop 32 private_key, scalar] = std_hash (drop 32 private_key @ scalar)"
    using hash_parts_std [OF assms(1), of "[drop 32 private_key, scalar]"] assms(2,3) by simp
  show ?thesis using assms(2,3) by (simp add: add_private_def Let_def m h derived_key_def)
qed

lemma add_scalar_value:
  assumes "length (md_buf ctx) = 128" "length private_key = 64" "length scalar = 32" "length public_key = 32"
  shows "ed25519_add_scalar ctx junk unpacked None (Some private_key) scalar = (None, Some (derived_key private_key scalar))"
    "ed25519_add_scalar ctx junk unpacked (Some public_key) (Some private_key) scalar =
      (Some (ge_p3_tobytes (ge_scalarmult_base (take 32 (derived_key private_key scalar)))), Some (derived_key private_key scalar))"
proof -
  have d: "derived_key private_key scalar = take 32 (derived_key private_key scalar) @ drop 32 (derived_key private_key scalar)"
    "length (take 32 (derived_key private_key scalar)) = 32"
    by (simp_all add: derived_key_def length_std_hash)
  have "ge_scalarmult_base (derived_key private_key scalar) = ge_scalarmult_base (take 32 (derived_key private_key scalar))"
    using prefix_reads(1) [OF d(2), of "drop 32 (derived_key private_key scalar)"] d(1) by simp
  then show "ed25519_add_scalar ctx junk unpacked None (Some private_key) scalar = (None, Some (derived_key private_key scalar))"
    "ed25519_add_scalar ctx junk unpacked (Some public_key) (Some private_key) scalar =
      (Some (ge_p3_tobytes (ge_scalarmult_base (take 32 (derived_key private_key scalar)))), Some (derived_key private_key scalar))"
    using add_private_value [OF assms(1-3)] assms(4) by (simp_all add: ed25519_add_scalar_def Let_def)
qed

end
