(* ===== verification/EdSamples.thy ===== *)
theory EdSamples
  imports GeMultiples GeBytes
begin

text \<open>
  Points the promises are applied at: the four points whose order divides four, and the base point.
\<close>

section \<open>Sample points\<close>

text \<open>The points of order at most 4, as multiples of one of them.\<close>

definition quarter :: "int \<Rightarrow> affine" where
  "quarter k = (let s = fe_val ge_sqrtm1; q = k mod 4
     in if q = 0 then (0, 1) else if q = 1 then (s, 0) else if q = 2 then (0, - 1) else (- s, 0))"

lemma quarter_sum: "edwards_sum (quarter i) (quarter j) (quarter (i + j))"
proof -
  have s: "cg (fe_val ge_sqrtm1 * fe_val ge_sqrtm1) (- 1)" "cg (- 1) (fe_val ge_sqrtm1 * fe_val ge_sqrtm1)"
    "cg 1 (- (fe_val ge_sqrtm1 * fe_val ge_sqrtm1))"
    using sqrtm1_square cg_diff [OF cg_refl sqrtm1_square, of 0] by (simp_all add: cg_def)
  have "i mod 4 \<in> {0, 1, 2, 3}" "j mod 4 \<in> {0, 1, 2, 3}" by auto
  then show ?thesis
    by (elim insertE emptyE)
      (simp_all add: quarter_def edwards_sum_def invertible_1 s flip: mod_add_eq [of i 4 j])
qed

lemma quarter_group: "point_group (\<lambda>i j. quarter i)"
proof -
  have m: "quarter (- i) = minus_point (quarter i)" for i
  proof -
    have "i mod 4 \<in> {0, 1, 2, 3}" by auto
    then show ?thesis by (elim insertE emptyE) (simp_all add: quarter_def minus_point_def zmod_zminus1_eq_if)
  qed
  have c: "on_curve (quarter i)" for i
    using cg_diff [OF cg_refl sqrtm1_square, of 0] by (simp add: quarter_def on_curve_def Let_def)
  show ?thesis by (simp add: point_group_def m c quarter_sum) (simp add: quarter_def)
qed

definition quarter_p3 :: ge_p3 where
  "quarter_p3 = \<lparr>p3_X = ge_sqrtm1, p3_Y = fe_0, p3_Z = fe_1, p3_T = fe_0\<rparr>"

lemma quarter_p3_at: "p3_at quarter_p3 (quarter 1)"
proof -
  have "short ge_sqrtm1 (fe_val ge_sqrtm1)" by (simp add: represents_def ge_sqrtm1_def fe_bound_ten)
  then show ?thesis using invertible_1
    by (auto simp: p3_at_def quarter_def p3_is_def quarter_p3_def represents_0 represents_1 intro!: exI [of _ 1])
qed

section \<open>The base point\<close>

text \<open>Its coordinates, and the squares that show it is on the curve.\<close>

definition base_x :: int where
  "base_x = 15112221349535400772501151409588531511454012693041857206046113283949847762202"

definition base_y :: int where
  "base_y = 46316835694926478169428394003475163141307993866256225615783033603165251855960"

definition base_point :: affine where
  "base_point = (base_x, base_y)"

lemma curve_d_value: "curve_d = - 20800338683988658368647408995589388737092878452977063003340006470870624536394"
  by (simp add: curve_d_def ge_d_def fe_val_def limbs_val_def sum_10 limb_weight_def)

lemma base_xx: "cg (base_x * base_x) 26187595835145689230469591415084376402084551887632582719101735842039498021991"
  unfolding cg_dvd base_x_def by (rule dvdI [of _ _ "3944643120641682540557488748386534817562863454810087094083181913524639656337"]) (simp add: fe_p_def)

lemma base_yy: "cg (base_y * base_y) 37053468555941182535542715202780130513046395093004980492626426882532201484768"
  unfolding cg_dvd base_y_def by (rule dvdI [of _ _ "37053468555941182535542715202780130513046395093004980492626426882532201484768"]) (simp add: fe_p_def)

lemma base_dxx: "cg (curve_d * 26187595835145689230469591415084376402084551887632582719101735842039498021991) 45925948435572007145069502170446592761695376174804512530996725752748131570562"
  unfolding cg_dvd curve_d_value by (rule dvdI [of _ _ "- 9408429647971111255018298541455732718356137684811761899254154615023001479784"]) (simp add: fe_p_def)

lemma base_dxxyy: "cg (45925948435572007145069502170446592761695376174804512530996725752748131570562 * 37053468555941182535542715202780130513046395093004980492626426882532201484768) 10865872720795493305073123787695754110961843205372397773524691040492703462776"
  unfolding cg_dvd  by (rule dvdI [of _ _ "29392606998766084572844481389085819367485040751874888019837904481758804205160"]) (simp add: fe_p_def)

lemma base_on_curve: "on_curve base_point"
proof -
  have "cg (curve_d * (base_x * base_x) * (base_y * base_y)) 10865872720795493305073123787695754110961843205372397773524691040492703462776"
    by (rule cg_trans [OF cg_mult [OF cg_trans [OF cg_mult [OF cg_refl base_xx] base_dxx] base_yy] base_dxxyy])
  from cg_add [OF cg_refl this, of 1]
  have r: "cg (1 + curve_d * (base_x * base_x) * (base_y * base_y)) 10865872720795493305073123787695754110961843205372397773524691040492703462777" by simp
  have l: "cg (base_y * base_y - base_x * base_x) 10865872720795493305073123787695754110961843205372397773524691040492703462777" using cg_diff [OF base_yy base_xx] by simp
  have e: "curve_d * (base_x * base_x * base_y * base_y) = curve_d * (base_x * base_x) * (base_y * base_y)"
    by (simp only: mult.assoc)
  show ?thesis unfolding on_curve_def base_point_def prod.case e by (rule cg_trans [OF l cg_sym [OF r]])
qed

definition base_family :: "int \<Rightarrow> affine" where
  "base_family k = (if k = 1 then base_point else if k = - 1 then minus_point base_point else (0, 1))"

lemma base_family_points: "point_family base_family"
proof -
  have "on_curve base_point" by (rule base_on_curve)
  moreover from this have "on_curve (minus_point base_point)" by (simp add: on_curve_def base_point_def minus_point_def)
  moreover have "minus_point (minus_point a) = a" "minus_point (0, 1) = (0, 1)" for a by (cases a, simp_all add: minus_point_def)
  ultimately show ?thesis by (simp add: point_family_def base_family_def) (simp add: on_curve_def)
qed

lemma base_entry: "pc_at (base_table ! 0 ! 0) base_point"
proof -
  have e: "base_table ! 0 ! 0 = base_0 ! 0" by (simp add: base_table_def)
  have "precomp_ok (base_table ! 0 ! 0)" by (rule row_entry [OF base_row_ok]) simp_all
  then have b: "fe_bound 36909875 18454937 (yplusx (base_0 ! 0))" "fe_bound 36909875 18454937 (yminusx (base_0 ! 0))"
    "fe_bound 36909875 18454937 (xy2d (base_0 ! 0))" unfolding e by (auto simp: precomp_ok_def elim: fe_bound_mono)
  have "fe_val (yplusx (base_0 ! 0)) mod fe_p = (base_y + base_x) mod fe_p"
    "fe_val (yminusx (base_0 ! 0)) mod fe_p = (base_y - base_x) mod fe_p"
    "fe_val (xy2d (base_0 ! 0)) mod fe_p = 2 * curve_d * (base_x * base_y) mod fe_p"
    by (simp_all add: base_0_def precomp_def base_x_def base_y_def curve_d_value fe_p_def fe_val_def limbs_val_def sum_10 limb_weight_def)
  then show ?thesis using b unfolding e by (simp add: pc_at_def pc_is_def represents_def base_point_def)
qed

lemma neutral_sum: "edwards_sum (0, 1) a a" "edwards_sum a (0, 1) a"
  by (cases a, simp add: edwards_sum_def invertible_1)+

lemma sums_zeros: "m 0 = (0, 1) \<Longrightarrow> sums m s (replicate n 0)"
  by (induction n) (simp_all add: neutral_sum)

lemma recode_one: "recode (1 # replicate 31 0) = 1 # replicate 63 0"
  by code_simp

lemma slide_zero: "slide (replicate 32 0) = replicate 256 0"
  by code_simp

lemma base_multiples_one: "base_multiples base_family (1 # replicate 31 0)"
proof -
  let ?a = "1 # replicate 31 0 :: bytes"
  have r: "recode ?a ! i = (if i = 0 then 1 else 0)" if "i < 64" for i
    using that by (simp add: recode_one nth_Cons split: nat.splits)
  have p: "base_parts 1 ?a = replicate 32 0" "base_parts 0 ?a = 1 # replicate 31 0"
    by (rule nth_equalityI; simp add: base_parts_def r nth_Cons split: nat.splits)+
  have f: "base_family 0 = (0, 1)" "base_family 1 = base_point" by (simp_all add: base_family_def)
  have "sums base_family 0 (base_parts 1 ?a)" unfolding p by (rule sums_zeros [of base_family, OF f(1)])
  moreover have "sums base_family 0 (base_parts 0 ?a)" unfolding p using sums_zeros [of base_family, OF f(1)] by (simp add: f neutral_sum)
  moreover have "doublings base_family 0" by (simp add: doublings_def f neutral_sum)
  moreover have "sum_list (base_parts 1 ?a) = 0" unfolding p by (simp add: sum_list_replicate)
  ultimately show ?thesis using base_entry by (auto simp: base_multiples_def r f)
qed

end
