(* ===== verification/EdClaims.thy ===== *)
theory EdClaims
  imports EdKeys EdSamples
begin

text \<open>
  The promises of the points, the keys and the signatures, with their witnesses.
\<close>

section \<open>Sums of points\<close>

text \<open>C33: The formulas for points refine the addition law of the curve: on structures for two points, in
  whatever projective coordinates, the sum, the difference and the double are structures for the
  affine sums, and no limb overflows on the way.\<close>

theorem point_sums:
  assumes "p3_at p a" "p3_at q b"
  shows "(edwards_sum a b c \<longrightarrow> p3_at (ge_p1p1_to_p3 (ge_add p (ge_p3_to_cached q))) c) \<and>
    (edwards_sum a (minus_point b) c \<longrightarrow> p3_at (ge_p1p1_to_p3 (ge_sub p (ge_p3_to_cached q))) c) \<and>
    (on_curve a \<and> edwards_sum a a c \<longrightarrow> p3_at (ge_p1p1_to_p3 (ge_p3_dbl p)) c)"
  using p1p1_to_p3_at ge_add_at ge_sub_at p3_dbl_at p3_to_cached_at assms by blast

theorem point_sums_witness:
  "p3_at (ge_p1p1_to_p3 (ge_add quarter_p3 (ge_p3_to_cached quarter_p3))) (0, - 1) \<and>
    p3_at (ge_p1p1_to_p3 (ge_sub quarter_p3 (ge_p3_to_cached quarter_p3))) (0, 1) \<and>
    p3_at (ge_p1p1_to_p3 (ge_p3_dbl quarter_p3)) (0, - 1)"
proof -
  note t = point_sums [OF quarter_p3_at quarter_p3_at]
  have q: "quarter 2 = (0, - 1)" "quarter 0 = (0, 1)" by (simp_all add: quarter_def)
  have "quarter (- 1) = minus_point (quarter 1)" "on_curve (quarter 1)" 
    using quarter_group by (auto simp: point_group_def)
  then show ?thesis
    using t [of "quarter 2"] t [of "quarter 0"] quarter_sum [of 1 1] quarter_sum [of 1 "- 1"] by (simp add: q)
qed

section \<open>Digits\<close>

text \<open>C39: Both recodings of a scalar below 2^255 keep its value and stay in the range of the tables: sixty-four
  digits from -8 to 8 in base 16, and 256 binary digits that are 0 or odd and at most 15 in size.\<close>

theorem scalar_digits:
  assumes "length a = 32" "le_nat a < 2 ^ 255"
  shows "(length (recode a) = 64 \<and> (\<Sum>i<64. recode a ! i * 16 ^ i) = int (le_nat a) \<and> (\<forall>x \<in> set (recode a). - 8 \<le> x \<and> x \<le> 8)) \<and>
    (length (slide a) = 256 \<and> (\<Sum>i<256. slide a ! i * 2 ^ i) = int (le_nat a) \<and>
      (\<forall>x \<in> set (slide a). x = 0 \<or> odd x \<and> \<bar>x\<bar> \<le> 15))"
proof -
  note r = recode_spec [OF assms] and s = slide_spec [OF assms]
  have "\<forall>x \<in> set (slide a). x = 0 \<or> odd x \<and> \<bar>x\<bar> \<le> 15"
  proof
    fix x assume "x \<in> set (slide a)"
    then have "x = 0 \<or> digit_ok x" using s by blast
    then show "x = 0 \<or> odd x \<and> \<bar>x\<bar> \<le> 15" by (auto simp: digit_ok_def)
  qed
  moreover have "(\<Sum>i<64. recode a ! i * 16 ^ i) = int (le_nat a)" "(\<Sum>i<256. slide a ! i * 2 ^ i) = int (le_nat a)"
    using r s dval_sum [of 16 "recode a"] dval_sum [of 2 "slide a"] by metis+
  ultimately show ?thesis using r s by blast
qed

theorem scalar_digits_witness:
  "(\<Sum>i<64. recode (le_bytes 32 (2 ^ 255 - 1)) ! i * 16 ^ i) = 2 ^ 255 - 1"
  using scalar_digits [of "le_bytes 32 (2 ^ 255 - 1)"] by (simp add: le_nat_le_bytes)

section \<open>Multiples of points\<close>





section \<open>Points as bytes\<close>

text \<open>C38: The bytes of a point are its canonical encoding, \<open>y\<close> reduced and the parity of \<open>x\<close>, whatever its
  projective coordinates, when the power computed for \<open>Z\<close> is its inverse, as Fermat's theorem says.\<close>

theorem point_encoding:
  assumes "p3_is p (x * Z) (y * Z) Z T" "cg (Z * inverse_power Z) 1"
  shows "ge_p3_tobytes p = encoding (x, y)"
  using point_bytes_encoding [of "p3_X p" x Z "p3_Y p" y "p3_Z p"] assms by (simp add: p3_is_def ge_p3_tobytes_def)

theorem point_encoding_witness:
  "ge_p3_tobytes \<lparr>p3_X = fe_neg ge_sqrtm1, p3_Y = fe_0, p3_Z = fe_neg fe_1, p3_T = fe_0\<rparr> = encoding (fe_val ge_sqrtm1, 0)"
proof (rule point_encoding)
  have s: "short ge_sqrtm1 (fe_val ge_sqrtm1)" by (simp add: represents_def ge_sqrtm1_def fe_bound_ten)
  have one: "short fe_1 1" by (simp add: represents_1)
  show "p3_is \<lparr>p3_X = fe_neg ge_sqrtm1, p3_Y = fe_0, p3_Z = fe_neg fe_1, p3_T = fe_0\<rparr> (fe_val ge_sqrtm1 * - 1) (0 * - 1) (- 1) 0"
    using represents_neg [OF s] represents_neg [OF one] by (simp add: p3_is_def represents_0)
  have "odd (2 ^ 255 - 21 :: nat)" by simp
  then have "inverse_power (- 1) = - 1" unfolding inverse_power_def by (rule neg_one_odd_power)
  then show "cg (- 1 * inverse_power (- 1)) 1" by simp
qed



section \<open>Keys and signatures\<close>

text \<open>A key pair is made from the digest of the seed: the private key is the first half clamped (a multiple
  of 8 with bit 254 the highest) and the second half as it is, the public key the encoded multiple.\<close>

theorem keypair_from_seed:
  assumes "length (md_buf ctx) = 128" "length seed = 32"
  shows "ed25519_create_keypair ctx private_key seed =
    (let k = le_bytes 32 (clamped (le_nat (take 32 (std_hash seed))))
     in (ge_p3_tobytes (ge_scalarmult_base k), k @ drop 32 (std_hash seed)))"
  unfolding Let_def using keypair_value [OF assms] .

theorem keypair_from_seed_witness:
  "snd (ed25519_create_keypair sample_context [] (replicate 32 7)) =
    le_bytes 32 (clamped (le_nat (take 32 (std_hash (replicate 32 7))))) @ drop 32 (std_hash (replicate 32 7))"
  using keypair_from_seed [of sample_context "replicate 32 7"] by (simp add: sample_context_def Let_def)



text \<open>C31: Verification accepts exactly the signatures whose second half is below 2^253, whose key can be
  unpacked, and whose first half is the encoding of the recomputed point; everything else is refused.\<close>

theorem verification_value:
  assumes "length (md_buf ctx) = 128" "length signature = 64" "length public_key = 32" "length message < 2 ^ 60"
  shows "ed25519_verify ctx junk A signature message public_key =
    (if le_nat (drop 32 signature) < 2 ^ 253 \<and> decodable (int (le_nat public_key mod 2 ^ 255)) \<and>
        ge_tobytes (ge_double_scalarmult_vartime (le_bytes 32 (hash_scalar (take 32 signature @ public_key @ message)))
          (snd (ge_frombytes_negate_vartime A public_key)) (drop 32 signature)) = take 32 signature
     then 1 else 0)"
  using verify_value [OF assms] .

theorem verification_value_witness:
  "ed25519_verify sample_context [] ge_p3_0 (replicate 32 0 @ le_bytes 32 (2 ^ 253)) [104, 105] (replicate 32 2) = 0"
  using verification_value [of sample_context "replicate 32 0 @ le_bytes 32 (2 ^ 253)" "replicate 32 2" "[104, 105]"]
  by (simp add: sample_context_def le_nat_le_bytes)

text \<open>A scalar added to both halves of a key: the private key is the sum modulo the order of the group with a
  new prefix, the public key the encoded multiple of it.\<close>

theorem derived_keys:
  assumes "length (md_buf ctx) = 128" "length private_key = 64" "length scalar = 32" "length public_key = 32"
  shows "ed25519_add_scalar ctx junk unpacked (Some public_key) (Some private_key) scalar =
    (Some (ge_p3_tobytes (ge_scalarmult_base (take 32 (derived_key private_key scalar)))), Some (derived_key private_key scalar))"
  using add_scalar_value(2) [OF assms] .

theorem derived_keys_witness:
  "snd (ed25519_add_scalar sample_context [] ge_p3_0 (Some (replicate 32 2)) (Some (replicate 64 3)) (replicate 32 255)) =
    Some (derived_key (replicate 64 3) (replicate 32 255))"
  using derived_keys [of sample_context "replicate 64 3" "replicate 32 255" "replicate 32 2"] by (simp add: sample_context_def)

text \<open>C36: The key exchange refines the Montgomery ladder over the integers: the branch-free swaps compute, for
  every key, the ladder of the clamped key on the coordinate of the public key, and write the quotient
  of the result canonically.\<close>

theorem key_exchange_ladder:
  assumes "length public_key = 32" "32 \<le> length private_key"
  shows "ed25519_key_exchange public_key private_key =
    (case xz_ladder (montgomery_u (int (le_nat public_key mod 2 ^ 255))) (key_bits (clamped (le_nat (take 32 private_key)))) of
       (X, Z) \<Rightarrow> le_bytes 32 (nat (X * inverse_power Z mod fe_p)))"
  using key_exchange_value [OF assms] clamp_value [of "take 32 private_key"] assms(2) by simp

theorem key_exchange_ladder_witness:
  "\<exists>X Z. xz_ladder (montgomery_u 9) (key_bits (clamped 77)) = (X, Z) \<and>
    ed25519_key_exchange (le_bytes 32 9) (le_bytes 32 77 @ replicate 32 0) = le_bytes 32 (nat (X * inverse_power Z mod fe_p))"
  using key_exchange_ladder [of "le_bytes 32 9" "le_bytes 32 77 @ replicate 32 0"]
  by (cases "xz_ladder (montgomery_u 9) (key_bits (clamped 77))") (simp add: le_nat_le_bytes)

end
